(* ===== verification/Prelude.thy ===== *)
theory Prelude
  imports Complex_Main "HOL-Library.Log_Nat" "HOL-Library.AList"
begin

section \<open>Shared vocabulary of the development\<close>

text \<open>
  What every component uses: JavaScript errors as values, the \<^verbatim>\<open>Map\<close> and \<^verbatim>\<open>Set\<close> objects with their
  insertion order, and two interfaces. \<open>kv_store\<close> is what a service relies on when it keeps
  records under keys; \<open>machine\<close> is a component driven by a sequence of events, with the lemma that
  an invariant of every step is an invariant of every run.
\<close>

subsection \<open>Errors\<close>

text \<open>
  The error classes the sources throw or catch, each with its message. A fallible computation
  without state is a \<open>res\<close>; a method that changes state returns the result and the new state, so
  that a change made before an exception is not lost.
\<close>

datatype js_error =
    Error string
  | RangeError string
  | SyntaxError string
  | TypeError string

fun message :: "js_error \<Rightarrow> string" where
  "message (Error m) = m"
| "message (RangeError m) = m"
| "message (SyntaxError m) = m"
| "message (TypeError m) = m"

type_synonym 'a res = "js_error + 'a"

definition bind_res :: "'a res \<Rightarrow> ('a \<Rightarrow> 'b res) \<Rightarrow> 'b res" where
  "bind_res r f = (case r of Inl e \<Rightarrow> Inl e | Inr x \<Rightarrow> f x)"

lemma bind_res_simps [simp]:
  "bind_res (Inl e) f = Inl e" "bind_res (Inr x) f = f x"
  by (simp_all add: bind_res_def)

lemma bind_res_Inr: "bind_res r f = Inr y \<longleftrightarrow> (\<exists>x. r = Inr x \<and> f x = Inr y)"
  by (cases r) auto

definition is_ok :: "'a res \<Rightarrow> bool" where
  "is_ok r = (case r of Inl _ \<Rightarrow> False | Inr _ \<Rightarrow> True)"

lemma is_ok_simps [simp]: "is_ok (Inl e) = False" "is_ok (Inr x) = True"
  by (simp_all add: is_ok_def)

subsection \<open>Map and Set objects\<close>

text \<open>
  A \<^verbatim>\<open>Map\<close> iterates in insertion order, and setting a present key keeps its place: an association
  list with \<open>AList.update\<close>.
\<close>

type_synonym ('k, 'v) jsmap = "('k \<times> 'v) list"

abbreviation map_get :: "('k, 'v) jsmap \<Rightarrow> 'k \<Rightarrow> 'v option" where
  "map_get m k \<equiv> map_of m k"

abbreviation map_set :: "('k, 'v) jsmap \<Rightarrow> 'k \<Rightarrow> 'v \<Rightarrow> ('k, 'v) jsmap" where
  "map_set m k v \<equiv> AList.update k v m"

abbreviation map_remove :: "('k, 'v) jsmap \<Rightarrow> 'k \<Rightarrow> ('k, 'v) jsmap" where
  "map_remove m k \<equiv> AList.delete k m"

abbreviation map_keys :: "('k, 'v) jsmap \<Rightarrow> 'k list" where
  "map_keys m \<equiv> map fst m"

abbreviation map_values :: "('k, 'v) jsmap \<Rightarrow> 'v list" where
  "map_values m \<equiv> map snd m"

definition map_wf :: "('k, 'v) jsmap \<Rightarrow> bool" where
  "map_wf m \<longleftrightarrow> distinct (map_keys m)"

lemma map_wf_Nil [simp, intro]: "map_wf []"
  by (simp add: map_wf_def)

lemma map_wf_set [simp, intro]: "map_wf m \<Longrightarrow> map_wf (map_set m k v)"
  by (simp add: map_wf_def distinct_update)

lemma map_wf_remove [simp, intro]: "map_wf m \<Longrightarrow> map_wf (map_remove m k)"
  by (simp add: map_wf_def distinct_delete)

lemma map_get_set [simp]: "map_get (map_set m k v) k' = (if k' = k then Some v else map_get m k')"
  by (simp add: update_conv')

lemma map_get_remove [simp]:
  "map_get (map_remove m k) k' = (if k' = k then None else map_get m k')"
  by (simp add: delete_conv')

lemma map_set_new: "k \<notin> set (map_keys m) \<Longrightarrow> map_set m k v = m @ [(k, v)]"
  by (induction m) auto

lemma map_set_keys_present: "k \<in> set (map_keys m) \<Longrightarrow> map_keys (map_set m k v) = map_keys m"
  by (induction m) auto

lemma map_get_in: "map_wf m \<Longrightarrow> map_get m k = Some v \<longleftrightarrow> (k, v) \<in> set m"
  by (simp add: map_wf_def)

lemma map_get_None: "map_get m k = None \<longleftrightarrow> k \<notin> set (map_keys m)"
  by (simp add: map_of_eq_None_iff)

lemma map_get_Some_key: "map_get m k = Some v \<Longrightarrow> k \<in> set (map_keys m)"
  by (metis map_get_None option.distinct(1))

lemma map_set_same: "map_get m k = Some v \<Longrightarrow> map_set m k v = m"
  by (induction m) auto

text \<open>A \<^verbatim>\<open>Set\<close> in insertion order.\<close>

type_synonym 'a jsset = "'a list"

definition set_add :: "'a jsset \<Rightarrow> 'a \<Rightarrow> 'a jsset" where
  "set_add xs x = (if x \<in> set xs then xs else xs @ [x])"

definition set_remove :: "'a jsset \<Rightarrow> 'a \<Rightarrow> 'a jsset" where
  "set_remove xs x = filter (\<lambda>y. y \<noteq> x) xs"

lemma set_set_add [simp]: "set (set_add xs x) = insert x (set xs)"
  by (auto simp: set_add_def)

lemma distinct_set_add [simp, intro]: "distinct xs \<Longrightarrow> distinct (set_add xs x)"
  by (simp add: set_add_def)

lemma set_set_remove [simp]: "set (set_remove xs x) = set xs - {x}"
  by (auto simp: set_remove_def)

subsection \<open>The interface of a keyed store\<close>

locale kv_store =
  fixes get :: "'m \<Rightarrow> 'k \<Rightarrow> 'v option"
    and put :: "'m \<Rightarrow> 'k \<Rightarrow> 'v \<Rightarrow> 'm"
    and del :: "'m \<Rightarrow> 'k \<Rightarrow> 'm"
    and wf :: "'m \<Rightarrow> bool"
  assumes get_put: "wf m \<Longrightarrow> get (put m k v) k' = (if k' = k then Some v else get m k')"
    and get_del: "wf m \<Longrightarrow> get (del m k) k' = (if k' = k then None else get m k')"
    and wf_put: "wf m \<Longrightarrow> wf (put m k v)"
    and wf_del: "wf m \<Longrightarrow> wf (del m k)"
begin

text \<open>A predicate on every stored pair is kept by storing a pair that satisfies it.\<close>

definition all_entries :: "('k \<Rightarrow> 'v \<Rightarrow> bool) \<Rightarrow> 'm \<Rightarrow> bool" where
  "all_entries P m \<longleftrightarrow> (\<forall>k v. get m k = Some v \<longrightarrow> P k v)"

lemma all_entries_put: "wf m \<Longrightarrow> all_entries P m \<Longrightarrow> P k v \<Longrightarrow> all_entries P (put m k v)"
  by (auto simp: all_entries_def get_put split: if_splits)

lemma all_entries_del: "wf m \<Longrightarrow> all_entries P m \<Longrightarrow> all_entries P (del m k)"
  by (auto simp: all_entries_def get_del split: if_splits)

lemma all_entries_get: "all_entries P m \<Longrightarrow> get m k = Some v \<Longrightarrow> P k v"
  by (simp add: all_entries_def)

lemma get_put_same: "wf m \<Longrightarrow> get (put m k v) k = Some v"
  by (simp add: get_put)

lemma get_put_other: "wf m \<Longrightarrow> k' \<noteq> k \<Longrightarrow> get (put m k v) k' = get m k'"
  by (simp add: get_put)

lemma get_put_put: "wf m \<Longrightarrow> get (put (put m k v) k w) = get (put m k w)"
  by (rule ext) (simp add: get_put wf_put)

lemma get_put_swap:
  "wf m \<Longrightarrow> k \<noteq> k' \<Longrightarrow> get (put (put m k v) k' w) = get (put (put m k' w) k v)"
  by (rule ext) (simp add: get_put wf_put)

end

interpretation jsm: kv_store map_of "\<lambda>m k v. AList.update k v m" "\<lambda>m k. AList.delete k m" map_wf
  by unfold_locales simp_all

subsection \<open>The interface of an event-driven component\<close>

text \<open>
  A component is a step function on its state; \<open>ok\<close> says which events may occur in a state (an
  identifier is fresh, for instance). A run is legal when each of its events may occur.
\<close>

primrec legal_run :: "('s \<Rightarrow> 'e \<Rightarrow> 's) \<Rightarrow> ('s \<Rightarrow> 'e \<Rightarrow> bool) \<Rightarrow> 's \<Rightarrow> 'e list \<Rightarrow> bool" where
  "legal_run step ok s [] = True"
| "legal_run step ok s (e # es) = (ok s e \<and> legal_run step ok (step s e) es)"

lemma legal_run_append:
  "legal_run step ok s (es @ fs) \<longleftrightarrow> legal_run step ok s es \<and> legal_run step ok (foldl step s es) fs"
  by (induction es arbitrary: s) auto

locale machine =
  fixes step :: "'s \<Rightarrow> 'e \<Rightarrow> 's"
    and ok :: "'s \<Rightarrow> 'e \<Rightarrow> bool"
    and inv :: "'s \<Rightarrow> bool"
  assumes step_inv: "inv s \<Longrightarrow> ok s e \<Longrightarrow> inv (step s e)"
begin

lemma run_inv: "inv s \<Longrightarrow> legal_run step ok s es \<Longrightarrow> inv (foldl step s es)"
  by (induction es arbitrary: s) (auto intro: step_inv)

text \<open>A relation every step keeps between its states, if a preorder, relates the ends of a run.\<close>

lemma run_rel:
  assumes "\<And>t e. inv t \<Longrightarrow> ok t e \<Longrightarrow> R t (step t e)" and "\<And>t. R t t"
    and "\<And>t u v. R t u \<Longrightarrow> R u v \<Longrightarrow> R t v"
  shows "inv s \<Longrightarrow> legal_run step ok s es \<Longrightarrow> R s (foldl step s es)"
proof (induction es arbitrary: s)
  case (Cons e es)
  then have "inv (step s e)" by (intro step_inv) simp_all
  then have "R (step s e) (foldl step (step s e) es)" using Cons by simp
  with assms(1)[OF Cons.prems(1)] Cons.prems(2) assms(3) show ?case by auto
qed (simp add: assms(2))

end

text \<open>A component with a property of its states that no step ever undoes.\<close>

locale stable_machine = machine +
  fixes stable :: "'a \<Rightarrow> bool"
  assumes stable_step: "inv s \<Longrightarrow> ok s e \<Longrightarrow> stable s \<Longrightarrow> stable (step s e)"
begin

lemma run_stable: "inv s \<Longrightarrow> legal_run step ok s es \<Longrightarrow> stable s \<Longrightarrow> stable (foldl step s es)"
  by (induction es arbitrary: s) (auto intro: step_inv stable_step)

end

subsection \<open>Generic facts on lists\<close>

lemma sum_list_nonneg_mono:
  "(\<And>x. x \<in> set xs \<Longrightarrow> f x \<le> g x) \<Longrightarrow> sum_list (map f xs) \<le> (sum_list (map g xs) :: int)"
  by (rule sum_list_mono) simp

lemma find_Some_in: "List.find P xs = Some x \<Longrightarrow> x \<in> set xs \<and> P x"
  by (auto simp: find_Some_iff)

end
