(* ===== verification/JSNumber.thy ===== *)
theory JSNumber
  imports Prelude
begin

section \<open>The \<^verbatim>\<open>number\<close> type of TypeScript\<close>

text \<open>
  A TypeScript \<^verbatim>\<open>number\<close> is an IEEE 754 binary64 value. A finite value is kept as the rational
  it denotes; an arithmetic operation is the exact rational operation followed by
  \<open>fl\<close>, the rounding to the nearest binary64 value with ties to even, which overflows to an
  infinity. The two zeros are identified: the sources observe the sign of a zero nowhere.

  The first part defines the rounding, executable on rationals, and proves the laws the
  arithmetic of the program rests on: it is monotone, idempotent, odd, exact on the integers up
  to \<open>2 ^ 53\<close>, and off by at most half a unit in the last place. The second part is the type
  \<open>jsnum\<close> with the operators the sources use (\<^verbatim>\<open>+ - * / %\<close>, comparisons, \<^verbatim>\<open>Math.floor\<close>,
  \<^verbatim>\<open>Math.max\<close>, \<^verbatim>\<open>Math.min\<close>, \<^verbatim>\<open>|| 0\<close>, \<^verbatim>\<open>BigInt(n)\<close> and \<^verbatim>\<open>Number(n)\<close>).
\<close>

subsection \<open>Rounding a rational to an integer and to binary64\<close>

text \<open>Round to the nearest integer, ties to even.\<close>

definition rne :: "rat \<Rightarrow> int" where
  "rne x = (let f = \<lfloor>x\<rfloor>; d = x - of_int f in
     if d < 1/2 then f else if 1/2 < d then f + 1 else if even f then f else f + 1)"

text \<open>The binary exponent: \<open>2 powi bexp x \<le> \<bar>x\<bar> < 2 powi (bexp x + 1)\<close> for \<open>x \<noteq> 0\<close>.\<close>

definition bexp :: "rat \<Rightarrow> int" where
  "bexp x = (let (a, b) = quotient_of \<bar>x\<bar>; k = bitlen a - bitlen b in
     if 2 powi k \<le> \<bar>x\<bar> then k else k - 1)"

text \<open>
  The exponent of the last of the 53 mantissa bits, bounded below by the exponent of the
  smallest subnormal number.
\<close>

definition lsb_exp :: "rat \<Rightarrow> int" where
  "lsb_exp x = max (bexp x - 52) (- 1074)"

definition ulp :: "rat \<Rightarrow> rat" where
  "ulp x = 2 powi (lsb_exp x)"

definition rnd64 :: "rat \<Rightarrow> rat" where
  "rnd64 x = (if x = 0 then 0 else of_int (rne (x / ulp x)) * ulp x)"

subsection \<open>Round to nearest integer\<close>

lemma rne_of_int [simp]: "rne (of_int n) = n"
  by (simp add: rne_def)

lemma rne_ge_floor: "\<lfloor>x\<rfloor> \<le> rne x" and rne_le_floor: "rne x \<le> \<lfloor>x\<rfloor> + 1"
  by (auto simp: rne_def Let_def)

lemma rne_mono: "x \<le> y \<Longrightarrow> rne x \<le> rne y"
proof -
  assume le: "x \<le> y"
  then have fl: "\<lfloor>x\<rfloor> \<le> \<lfloor>y\<rfloor>" by (rule floor_mono)
  show ?thesis
  proof (cases "\<lfloor>x\<rfloor> = \<lfloor>y\<rfloor>")
    case True
    with le show ?thesis by (auto simp: rne_def Let_def)
  next
    case False
    with fl have "\<lfloor>x\<rfloor> + 1 \<le> \<lfloor>y\<rfloor>" by simp
    with rne_le_floor[of x] rne_ge_floor[of y] show ?thesis by linarith
  qed
qed

lemma rne_error: "\<bar>of_int (rne x) - x\<bar> \<le> 1 / 2"
proof -
  have "rne x = \<lfloor>x\<rfloor> \<and> x - of_int \<lfloor>x\<rfloor> \<le> 1 / 2 \<or> rne x = \<lfloor>x\<rfloor> + 1 \<and> 1 / 2 \<le> x - of_int \<lfloor>x\<rfloor>"
    by (auto simp: rne_def Let_def)
  moreover have "of_int \<lfloor>x\<rfloor> \<le> x" "x < of_int \<lfloor>x\<rfloor> + 1" by linarith+
  ultimately show ?thesis unfolding abs_le_iff by (elim disjE conjE; simp only: of_int_add of_int_1; linarith)
qed

lemma rne_minus: "rne (- x) = - rne x"
proof (cases "x = of_int \<lfloor>x\<rfloor>")
  case True
  then obtain n where n: "x = of_int n" by blast
  have "rne (- x) = rne (of_int (- n))" by (simp add: n)
  then show ?thesis by (simp only: rne_of_int n)
next
  case False
  have lt: "of_int \<lfloor>x\<rfloor> < x" using False of_int_floor_le[of x] by linarith
  have up: "x < of_int \<lfloor>x\<rfloor> + 1" by linarith
  have "\<lfloor>- x\<rfloor> = - \<lfloor>x\<rfloor> - 1"
    using lt up by (intro floor_unique) auto
  then show ?thesis using lt up by (auto simp: rne_def Let_def)
qed

subsection \<open>The exponent of a rational\<close>

lemma bitlen_powi_bounds:
  assumes "0 < n"
  shows "2 powi (bitlen n - 1) \<le> (of_int n :: rat)" and "(of_int n :: rat) < 2 powi bitlen n"
proof -
  have b: "2 ^ nat (bitlen n - 1) \<le> n" "n < 2 ^ nat (bitlen n)"
    using bitlen_bounds[OF assms] by auto
  have pos: "0 \<le> bitlen n - 1"
    using assms bitlen_nonneg[of n] bitlen_eq_zero_iff[of n] by linarith
  have "(2::rat) powi (bitlen n - 1) = of_int (2 ^ nat (bitlen n - 1))"
    using pos by (simp add: power_int_def)
  also have "\<dots> \<le> of_int n" using b(1) by (simp only: of_int_le_iff)
  finally show "2 powi (bitlen n - 1) \<le> (of_int n :: rat)" .
  have "(of_int n :: rat) < of_int (2 ^ nat (bitlen n))" using b(2) by (simp only: of_int_less_iff)
  also have "\<dots> = 2 powi bitlen n" using pos by (simp add: power_int_def)
  finally show "(of_int n :: rat) < 2 powi bitlen n" .
qed

lemma powi_2_pos [simp]: "0 < (2::rat) powi e"
  by simp

lemma powi_2_le_iff: "((2::rat) powi a \<le> 2 powi b) = (a \<le> b)"
  using power_int_increasing[of a b "2::rat"] power_int_strict_increasing[of b a "2::rat"] by fastforce

lemma powi_2_less_iff: "((2::rat) powi a < 2 powi b) = (a < b)"
  using powi_2_le_iff[of b a] by linarith

lemma powi_2_diff: "(2::rat) powi a / 2 powi b = 2 powi (a - b)"
  by (simp add: power_int_diff)

lemma powi_2_add: "(2::rat) powi (a + b) = 2 powi a * 2 powi b"
  by (simp add: power_int_add)

lemma bexp_bounds:
  assumes "x \<noteq> 0"
  shows "2 powi bexp x \<le> \<bar>x\<bar>" and "\<bar>x\<bar> < 2 powi (bexp x + 1)"
proof -
  obtain a b where q: "quotient_of \<bar>x\<bar> = (a, b)" by (cases "quotient_of \<bar>x\<bar>")
  have b: "0 < b" by (rule quotient_of_denom_pos[OF q])
  have x: "\<bar>x\<bar> = of_int a / of_int b" by (rule quotient_of_div[OF q])
  have a: "0 < a"
  proof (rule ccontr)
    assume "\<not> 0 < a"
    then have "of_int a / of_int b \<le> (0::rat)" using b by (simp add: divide_nonpos_pos)
    with x assms show False by simp
  qed
  have A: "2 powi (bitlen a - 1) \<le> (of_int a :: rat)" "(of_int a :: rat) < 2 powi bitlen a"
    using bitlen_powi_bounds[OF a] by auto
  have B: "2 powi (bitlen b - 1) \<le> (of_int b :: rat)" "(of_int b :: rat) < 2 powi bitlen b"
    using bitlen_powi_bounds[OF b] by auto
  define k where "k = bitlen a - bitlen b"
  have "of_int a / of_int b < (2 powi bitlen a :: rat) / 2 powi (bitlen b - 1)"
    using A B b a by (intro frac_less) auto
  also have "\<dots> = 2 powi (k + 1)" by (simp add: powi_2_diff k_def algebra_simps)
  finally have up: "\<bar>x\<bar> < 2 powi (k + 1)" using x by simp
  have "2 powi (k - 1) = (2 powi (bitlen a - 1) :: rat) / 2 powi bitlen b"
    by (simp add: powi_2_diff k_def algebra_simps)
  also have "\<dots> < of_int a / of_int b"
    using A B b a by (intro frac_less2) auto
  finally have lo: "2 powi (k - 1) < \<bar>x\<bar>" using x by simp
  have bx: "bexp x = (if 2 powi k \<le> \<bar>x\<bar> then k else k - 1)"
    by (simp add: bexp_def q k_def)
  show "2 powi bexp x \<le> \<bar>x\<bar>" using lo by (simp add: bx)
  show "\<bar>x\<bar> < 2 powi (bexp x + 1)" using up by (simp add: bx)
qed

lemma bexp_mono: "x \<noteq> 0 \<Longrightarrow> \<bar>x\<bar> \<le> \<bar>y\<bar> \<Longrightarrow> bexp x \<le> bexp y"
proof -
  assume x: "x \<noteq> 0" and le: "\<bar>x\<bar> \<le> \<bar>y\<bar>"
  then have y: "y \<noteq> 0" by auto
  have "2 powi bexp x < (2::rat) powi (bexp y + 1)"
    using bexp_bounds(1)[OF x] bexp_bounds(2)[OF y] le by linarith
  then show ?thesis by (simp add: powi_2_less_iff)
qed

lemma bexp_minus [simp]: "bexp (- x) = bexp x"
  by (simp add: bexp_def)

lemma bexp_less: "x \<noteq> 0 \<Longrightarrow> \<bar>x\<bar> < 2 powi e \<Longrightarrow> bexp x < e"
  using bexp_bounds(1)[of x] powi_2_less_iff[of "bexp x" e] by linarith

subsection \<open>Rounding to binary64\<close>

lemma ulp_pos [simp]: "0 < ulp x" "ulp x \<noteq> 0"
  by (simp_all add: ulp_def)

lemma rnd64_0 [simp]: "rnd64 0 = 0"
  by (simp add: rnd64_def)

lemma rnd64_minus: "rnd64 (- x) = - rnd64 x"
  by (simp add: rnd64_def ulp_def lsb_exp_def rne_minus)

lemma rnd64_grid:
  assumes "lsb_exp (of_int m * 2 powi e) \<le> e"
  shows "rnd64 (of_int m * 2 powi e) = of_int m * 2 powi e"
proof (cases "m = 0")
  case False
  let ?x = "of_int m * (2::rat) powi e"
  let ?d = "e - lsb_exp ?x"
  have "?x / ulp ?x = of_int m * (2 powi e / 2 powi (lsb_exp ?x))" by (simp add: ulp_def)
  also have "\<dots> = of_int m * 2 powi ?d" by (simp only: powi_2_diff)
  also have "\<dots> = of_int (m * 2 ^ nat ?d)" using assms by (simp add: power_int_def)
  finally have "rne (?x / ulp ?x) = m * 2 ^ nat ?d"
    and eq: "?x / ulp ?x = of_int (m * 2 ^ nat ?d)" by (simp_all only: rne_of_int)
  then have "of_int (rne (?x / ulp ?x)) * ulp ?x = ?x"
    using eq by (metis nonzero_eq_divide_eq ulp_pos(2))
  with False show ?thesis by (simp add: rnd64_def)
qed simp

lemma rnd64_exact:
  assumes m: "\<bar>m\<bar> \<le> 2 ^ 53" and e: "- 1074 \<le> e"
  shows "rnd64 (of_int m * 2 powi e) = of_int m * 2 powi e"
proof (cases "\<bar>m\<bar> = 2 ^ 53")
  case True
  define s where "s = sgn m"
  have m1: "m = s * 2 ^ 53" by (metis True s_def sgn_mult_abs)
  have s: "\<bar>s\<bar> = 1" using True by (auto simp: s_def sgn_if)
  have eq: "of_int m * (2::rat) powi e = of_int s * 2 powi (53 + e)"
    by (simp add: m1 powi_2_add)
  have nz: "of_int s * (2::rat) powi (53 + e) \<noteq> 0" using s by auto
  have "\<bar>of_int s * (2::rat) powi (53 + e)\<bar> = 2 powi (53 + e)"
    using s by (simp add: abs_mult flip: of_int_abs)
  also have "\<dots> < 2 powi (54 + e)" by (simp add: powi_2_less_iff)
  finally have "bexp (of_int s * (2::rat) powi (53 + e)) < 54 + e" using nz by (intro bexp_less)
  then have "lsb_exp (of_int s * (2::rat) powi (53 + e)) \<le> 53 + e"
    using e by (simp add: lsb_exp_def)
  from rnd64_grid[OF this] show ?thesis by (simp only: eq)
next
  case False
  with m have lt: "\<bar>m\<bar> < 2 ^ 53" by simp
  show ?thesis
  proof (cases "m = 0")
    case False
    let ?x = "of_int m * (2::rat) powi e"
    have nz: "?x \<noteq> 0" using False by simp
    have "\<bar>?x\<bar> = of_int \<bar>m\<bar> * 2 powi e" by (simp add: abs_mult)
    also have "\<dots> < of_int (2 ^ 53) * 2 powi e"
      using lt by (intro mult_strict_right_mono) (simp_all only: of_int_less_iff powi_2_pos)
    also have "\<dots> = 2 powi 53 * 2 powi e" by simp
    also have "\<dots> = 2 powi (53 + e)" by (simp only: powi_2_add)
    finally have "bexp ?x < 53 + e" using nz by (intro bexp_less)
    then have "lsb_exp ?x \<le> e" using e by (simp add: lsb_exp_def)
    then show ?thesis by (rule rnd64_grid)
  qed simp
qed


lemma rnd64_of_int: "\<bar>n\<bar> \<le> 2 ^ 53 \<Longrightarrow> rnd64 (of_int n) = of_int n"
  using rnd64_exact[of n 0] by simp

lemma rne_bound:
  assumes "\<bar>y\<bar> \<le> of_int n" shows "\<bar>rne y\<bar> \<le> n"
proof -
  have "rne y \<le> n" using rne_mono[of y "of_int n"] assms by simp
  moreover have "- n \<le> rne y" using rne_mono[of "of_int (- n)" y] assms unfolding rne_of_int by simp
  ultimately show ?thesis by simp
qed

lemma mantissa_bound: "x \<noteq> 0 \<Longrightarrow> \<bar>rne (x / ulp x)\<bar> \<le> 2 ^ 53"
proof (rule rne_bound)
  assume x: "x \<noteq> 0"
  have "\<bar>x / ulp x\<bar> = \<bar>x\<bar> / ulp x" using less_imp_le[OF ulp_pos(1)] by (simp add: abs_divide)
  also have "\<dots> \<le> 2 powi (bexp x + 1) / 2 powi (lsb_exp x)"
    using bexp_bounds(2)[OF x] by (simp add: ulp_def divide_right_mono)
  also have "\<dots> = 2 powi (bexp x + 1 - lsb_exp x)" by (simp only: powi_2_diff)
  also have "\<dots> \<le> 2 powi 53" unfolding powi_2_le_iff lsb_exp_def by simp
  also have "\<dots> = of_int (2 ^ 53)" by simp
  finally show "\<bar>x / ulp x\<bar> \<le> of_int (2 ^ 53)" .
qed

lemma rnd64_idem: "rnd64 (rnd64 x) = rnd64 x"
proof (cases "x = 0")
  case False
  have "rnd64 x = of_int (rne (x / ulp x)) * 2 powi (lsb_exp x)"
    using False by (simp add: rnd64_def ulp_def)
  moreover have "- 1074 \<le> lsb_exp x" by (simp add: lsb_exp_def)
  ultimately show ?thesis using rnd64_exact[OF mantissa_bound[OF False]] by simp
qed simp

lemma rnd64_le_multiple:
  assumes "x \<noteq> 0" "x \<le> of_int m * ulp x" shows "rnd64 x \<le> of_int m * ulp x"
proof -
  have "x / ulp x \<le> of_int m" using assms by (simp add: pos_divide_le_eq)
  then have "rne (x / ulp x) \<le> m" using rne_mono rne_of_int by metis
  then show ?thesis using assms by (simp add: rnd64_def)
qed

lemma rnd64_ge_multiple:
  assumes "x \<noteq> 0" "of_int m * ulp x \<le> x" shows "of_int m * ulp x \<le> rnd64 x"
proof -
  have "of_int m \<le> x / ulp x" using assms by (simp add: pos_le_divide_eq)
  then have "m \<le> rne (x / ulp x)" using rne_mono rne_of_int by metis
  then show ?thesis using assms by (simp add: rnd64_def)
qed

lemma powi_2_multiple:
  assumes "lsb_exp x \<le> e" shows "2 powi e = of_int (2 ^ nat (e - lsb_exp x)) * ulp x"
proof -
  have "(2::rat) powi e = 2 powi (e - lsb_exp x) * 2 powi (lsb_exp x)"
    by (simp flip: powi_2_add)
  then show ?thesis using assms by (simp add: ulp_def power_int_def)
qed

lemma rnd64_nonneg: "0 \<le> x \<Longrightarrow> 0 \<le> rnd64 x"
  using rnd64_ge_multiple[of x 0] by (cases "x = 0") auto

lemma rnd64_mono_pos:
  assumes x: "0 < x" and le: "x \<le> y" shows "rnd64 x \<le> rnd64 y"
proof (cases "lsb_exp x = lsb_exp y")
  case True
  then have u: "ulp x = ulp y" by (simp add: ulp_def)
  have "x / ulp y \<le> y / ulp y" using le by (intro divide_right_mono) (simp_all add: less_imp_le)
  then have "rne (x / ulp y) \<le> rne (y / ulp y)" by (rule rne_mono)
  then show ?thesis using x le u by (simp add: rnd64_def)
next
  case False
  have nz: "x \<noteq> 0" "y \<noteq> 0" using x le by auto
  have b: "bexp x \<le> bexp y" using x le by (intro bexp_mono) auto
  have lt: "lsb_exp x < lsb_exp y" "lsb_exp y = bexp y - 52" "bexp x < bexp y"
    using False b by (auto simp: lsb_exp_def max_def split: if_splits)
  let ?g = "(2::rat) powi bexp y"
  have "x < 2 powi (bexp x + 1)" using bexp_bounds(2)[OF nz(1)] x by simp
  also have "\<dots> \<le> ?g" using lt unfolding powi_2_le_iff by simp
  finally have xg: "x \<le> ?g" by simp
  have gy: "?g \<le> y" using bexp_bounds(1)[OF nz(2)] x le by simp
  have mx: "?g = of_int (2 ^ nat (bexp y - lsb_exp x)) * ulp x"
    using lt by (intro powi_2_multiple) simp
  have my: "?g = of_int (2 ^ nat (bexp y - lsb_exp y)) * ulp y"
    using lt by (intro powi_2_multiple) simp
  have "rnd64 x \<le> ?g" using rnd64_le_multiple[OF nz(1)] xg mx by metis
  moreover have "?g \<le> rnd64 y" using rnd64_ge_multiple[OF nz(2)] gy my by metis
  ultimately show ?thesis by (rule order_trans)
qed

lemma rnd64_mono: "x \<le> y \<Longrightarrow> rnd64 x \<le> rnd64 y"
proof -
  assume le: "x \<le> y"
  consider "0 < x" | "x \<le> 0" "0 \<le> y" | "y < 0" using le by linarith
  then show ?thesis
  proof cases
    case 1
    from this le show ?thesis by (rule rnd64_mono_pos)
  next
    case 2
    have "rnd64 x \<le> 0" using rnd64_nonneg[of "- x"] 2 by (simp add: rnd64_minus)
    moreover have "0 \<le> rnd64 y" using 2 by (intro rnd64_nonneg)
    ultimately show ?thesis by (rule order_trans)
  next
    case 3
    have "rnd64 (- y) \<le> rnd64 (- x)" using 3 le by (intro rnd64_mono_pos) auto
    then show ?thesis by (simp add: rnd64_minus)
  qed
qed

lemma rnd64_error: "\<bar>rnd64 x - x\<bar> \<le> ulp x / 2"
proof (cases "x = 0")
  case False
  have "rnd64 x - x = (of_int (rne (x / ulp x)) - x / ulp x) * ulp x"
    using False by (simp add: rnd64_def left_diff_distrib)
  then have "\<bar>rnd64 x - x\<bar> = \<bar>of_int (rne (x / ulp x)) - x / ulp x\<bar> * ulp x"
    by (simp add: abs_mult less_imp_le)
  also have "\<dots> \<le> 1 / 2 * ulp x" by (intro mult_right_mono rne_error less_imp_le ulp_pos)
  finally show ?thesis by simp
qed (simp add: less_imp_le)

lemma ulp_le_relative: "x \<noteq> 0 \<Longrightarrow> - 1022 \<le> bexp x \<Longrightarrow> ulp x \<le> \<bar>x\<bar> / 2 ^ 52"
proof -
  assume x: "x \<noteq> 0" and e: "- 1022 \<le> bexp x"
  have "ulp x = 2 powi (bexp x - 52)" using e by (simp add: ulp_def lsb_exp_def)
  also have "\<dots> = 2 powi bexp x / 2 ^ 52" by (simp flip: powi_2_diff)
  also have "\<dots> \<le> \<bar>x\<bar> / 2 ^ 52" using bexp_bounds(1)[OF x] by (simp add: divide_right_mono)
  finally show ?thesis .
qed

subsection \<open>The contract of a rounding\<close>

text \<open>
  What the arithmetic below relies on. Its consequences are proved once here; the rounding to
  binary64 is an instance.
\<close>

locale rounding =
  fixes rnd :: "rat \<Rightarrow> rat"
  assumes mono: "x \<le> y \<Longrightarrow> rnd x \<le> rnd y"
    and idem: "rnd (rnd x) = rnd x"
    and odd: "rnd (- x) = - rnd x"
    and exact_int: "\<bar>n\<bar> \<le> 2 ^ 53 \<Longrightarrow> rnd (of_int n) = of_int n"
begin

lemma zero: "rnd 0 = 0"
  using exact_int[of 0] by simp

lemma numeral_exact: "numeral k \<le> (2 ^ 53 :: int) \<Longrightarrow> rnd (numeral k) = numeral k"
  using exact_int[of "numeral k"] by simp

lemma one: "rnd 1 = 1"
  using exact_int[of 1] by simp

lemma nonneg: "0 \<le> x \<Longrightarrow> 0 \<le> rnd x"
  using mono[of 0 x] by (simp add: zero)

lemma nonpos: "x \<le> 0 \<Longrightarrow> rnd x \<le> 0"
  using mono[of x 0] by (simp add: zero)

lemma le_fixed: "x \<le> a \<Longrightarrow> rnd a = a \<Longrightarrow> rnd x \<le> a"
  using mono[of x a] by simp

lemma ge_fixed: "a \<le> x \<Longrightarrow> rnd a = a \<Longrightarrow> a \<le> rnd x"
  using mono[of a x] by simp

lemma floor_rnd_le: "x \<le> of_int n \<Longrightarrow> \<bar>n\<bar> \<le> 2 ^ 53 \<Longrightarrow> \<lfloor>rnd x\<rfloor> \<le> n"
  using le_fixed[of x "of_int n"] exact_int[of n] by (simp add: floor_le_iff)

end

interpretation b64: rounding rnd64
  by unfold_locales (fact rnd64_mono rnd64_idem rnd64_minus rnd64_of_int)+

subsection \<open>The values\<close>

datatype jsnum = Fin rat | PosInf | NegInf | NaN

text \<open>The rounded result of an exact operation; the magnitude \<open>2 ^ 1024\<close> overflows.\<close>

definition fl :: "rat \<Rightarrow> jsnum" where
  "fl x = (let r = rnd64 x in
     if 2 ^ 1024 \<le> r then PosInf else if r \<le> - (2 ^ 1024) then NegInf else Fin r)"

text \<open>The values a \<^verbatim>\<open>number\<close> can hold.\<close>

fun num_ok :: "jsnum \<Rightarrow> bool" where
  "num_ok (Fin r) = (rnd64 r = r \<and> \<bar>r\<bar> < 2 ^ 1024)"
| "num_ok _ = True"

subsection \<open>Operators\<close>

fun js_neg :: "jsnum \<Rightarrow> jsnum" where
  "js_neg (Fin a) = Fin (- a)"
| "js_neg PosInf = NegInf"
| "js_neg NegInf = PosInf"
| "js_neg NaN = NaN"

fun js_add :: "jsnum \<Rightarrow> jsnum \<Rightarrow> jsnum" where
  "js_add (Fin a) (Fin b) = fl (a + b)"
| "js_add NaN _ = NaN"
| "js_add _ NaN = NaN"
| "js_add PosInf NegInf = NaN"
| "js_add NegInf PosInf = NaN"
| "js_add PosInf _ = PosInf"
| "js_add _ PosInf = PosInf"
| "js_add NegInf _ = NegInf"
| "js_add _ NegInf = NegInf"

definition js_sub :: "jsnum \<Rightarrow> jsnum \<Rightarrow> jsnum" where
  "js_sub a b = js_add a (js_neg b)"

text \<open>An infinity with the sign of \<open>s\<close>; \<open>0 * Infinity\<close> and \<open>0 / 0\<close> are \<open>NaN\<close>.\<close>

definition inf_of_sign :: "rat \<Rightarrow> jsnum" where
  "inf_of_sign s = (if 0 < s then PosInf else if s < 0 then NegInf else NaN)"

fun js_mul :: "jsnum \<Rightarrow> jsnum \<Rightarrow> jsnum" where
  "js_mul (Fin a) (Fin b) = fl (a * b)"
| "js_mul NaN _ = NaN"
| "js_mul _ NaN = NaN"
| "js_mul (Fin a) PosInf = inf_of_sign a"
| "js_mul (Fin a) NegInf = inf_of_sign (- a)"
| "js_mul PosInf (Fin b) = inf_of_sign b"
| "js_mul NegInf (Fin b) = inf_of_sign (- b)"
| "js_mul PosInf PosInf = PosInf"
| "js_mul NegInf NegInf = PosInf"
| "js_mul PosInf NegInf = NegInf"
| "js_mul NegInf PosInf = NegInf"

fun js_div :: "jsnum \<Rightarrow> jsnum \<Rightarrow> jsnum" where
  "js_div (Fin a) (Fin b) = (if b = 0 then inf_of_sign a else fl (a / b))"
| "js_div NaN _ = NaN"
| "js_div _ NaN = NaN"
| "js_div (Fin a) _ = Fin 0"
| "js_div PosInf (Fin b) = (if b < 0 then NegInf else PosInf)"
| "js_div NegInf (Fin b) = (if b < 0 then PosInf else NegInf)"
| "js_div _ _ = NaN"

text \<open>The \<^verbatim>\<open>%\<close> operator: the remainder of the truncated quotient, which is exact.\<close>

definition trunc_rat :: "rat \<Rightarrow> int" where
  "trunc_rat x = (if 0 \<le> x then \<lfloor>x\<rfloor> else - \<lfloor>- x\<rfloor>)"

fun js_mod :: "jsnum \<Rightarrow> jsnum \<Rightarrow> jsnum" where
  "js_mod (Fin a) (Fin b) = (if b = 0 then NaN else Fin (a - b * of_int (trunc_rat (a / b))))"
| "js_mod (Fin a) PosInf = Fin a"
| "js_mod (Fin a) NegInf = Fin a"
| "js_mod _ _ = NaN"

fun js_floor :: "jsnum \<Rightarrow> jsnum" where
  "js_floor (Fin a) = Fin (of_int \<lfloor>a\<rfloor>)"
| "js_floor x = x"

fun js_le :: "jsnum \<Rightarrow> jsnum \<Rightarrow> bool" where
  "js_le NaN _ = False"
| "js_le _ NaN = False"
| "js_le (Fin a) (Fin b) = (a \<le> b)"
| "js_le NegInf _ = True"
| "js_le _ PosInf = True"
| "js_le _ _ = False"

fun js_lt :: "jsnum \<Rightarrow> jsnum \<Rightarrow> bool" where
  "js_lt NaN _ = False"
| "js_lt _ NaN = False"
| "js_lt (Fin a) (Fin b) = (a < b)"
| "js_lt NegInf b = (b \<noteq> NegInf)"
| "js_lt a PosInf = (a \<noteq> PosInf)"
| "js_lt _ _ = False"

definition js_eq :: "jsnum \<Rightarrow> jsnum \<Rightarrow> bool" where
  "js_eq a b \<longleftrightarrow> a \<noteq> NaN \<and> a = b"

definition js_max :: "jsnum \<Rightarrow> jsnum \<Rightarrow> jsnum" where
  "js_max a b = (if a = NaN \<or> b = NaN then NaN else if js_le a b then b else a)"

definition js_min :: "jsnum \<Rightarrow> jsnum \<Rightarrow> jsnum" where
  "js_min a b = (if a = NaN \<or> b = NaN then NaN else if js_le a b then a else b)"

text \<open>\<^verbatim>\<open>x || 0\<close>: zero and NaN are falsy.\<close>

definition js_or0 :: "jsnum \<Rightarrow> jsnum" where
  "js_or0 x = (if x = NaN then Fin 0 else x)"

text \<open>\<^verbatim>\<open>BigInt(x)\<close> of a number throws a RangeError unless the number is an integer.\<close>

fun bigint_of_num :: "jsnum \<Rightarrow> int res" where
  "bigint_of_num (Fin a) = (if a = of_int \<lfloor>a\<rfloor> then Inr \<lfloor>a\<rfloor>
     else Inl (RangeError ''The number cannot be converted to a BigInt because it is not an integer''))"
| "bigint_of_num _ =
     Inl (RangeError ''The number cannot be converted to a BigInt because it is not an integer'')"

text \<open>\<^verbatim>\<open>Number(n)\<close> of a bigint.\<close>

definition num_of_bigint :: "int \<Rightarrow> jsnum" where
  "num_of_bigint n = fl (of_int n)"

subsection \<open>The order of the numbers\<close>

text \<open>
  \<open>js_le\<close> is reflexive except at NaN; with NaN related to itself alone it is a partial order,
  so that the library's order automation applies.
\<close>

instantiation jsnum :: order
begin

definition less_eq_jsnum :: "jsnum \<Rightarrow> jsnum \<Rightarrow> bool" where
  "less_eq_jsnum a b \<longleftrightarrow> a = b \<or> js_le a b"

definition less_jsnum :: "jsnum \<Rightarrow> jsnum \<Rightarrow> bool" where
  "less_jsnum a b \<longleftrightarrow> js_lt a b"

instance
proof
  fix a b c :: jsnum
  show "(a < b) = (a \<le> b \<and> \<not> b \<le> a)"
    by (cases a; cases b) (auto simp: less_eq_jsnum_def less_jsnum_def)
  show "a \<le> a" by (simp add: less_eq_jsnum_def)
  show "a \<le> b \<Longrightarrow> b \<le> c \<Longrightarrow> a \<le> c"
    by (cases a; cases b; cases c) (auto simp: less_eq_jsnum_def)
  show "a \<le> b \<Longrightarrow> b \<le> a \<Longrightarrow> a = b"
    by (cases a; cases b) (auto simp: less_eq_jsnum_def)
qed

end

named_theorems num_mono \<open>monotonicity of the operators on numbers\<close>

lemma js_le_iff: "js_le a b \<longleftrightarrow> a \<le> b \<and> a \<noteq> NaN"
  by (cases a; cases b) (auto simp: less_eq_jsnum_def)

lemma js_lt_iff: "js_lt a b \<longleftrightarrow> a < b"
  by (simp add: less_jsnum_def)

lemma Fin_le_Fin [simp]: "Fin a \<le> Fin b \<longleftrightarrow> a \<le> b"
  by (auto simp: less_eq_jsnum_def)

lemma Fin_less_Fin [simp]: "Fin a < Fin b \<longleftrightarrow> a < b"
  by (simp add: less_jsnum_def)

lemma NegInf_le [simp]: "NegInf \<le> a \<longleftrightarrow> a \<noteq> NaN"
  by (cases a) (auto simp: less_eq_jsnum_def)

lemma le_PosInf [simp]: "a \<le> PosInf \<longleftrightarrow> a \<noteq> NaN"
  by (cases a) (auto simp: less_eq_jsnum_def)

lemma NaN_le [simp]: "NaN \<le> a \<longleftrightarrow> a = NaN" and le_NaN [simp]: "a \<le> NaN \<longleftrightarrow> a = NaN"
  by (cases a; simp add: less_eq_jsnum_def)+

lemma fl_not_NaN [simp]: "fl x \<noteq> NaN"
  by (simp add: fl_def Let_def)

lemma fl_mono [num_mono]: "x \<le> y \<Longrightarrow> fl x \<le> fl y"
  using b64.mono[of x y] by (auto simp: fl_def Let_def less_eq_jsnum_def)

lemma fl_fixed: "num_ok (Fin r) \<Longrightarrow> fl r = Fin r"
  by (auto simp: fl_def Let_def)

lemma fl_ok [simp]: "num_ok (fl x)"
  by (auto simp: fl_def Let_def b64.idem)

text \<open>Evaluation compares with the overflow bound only beyond \<open>10 ^ 30\<close>.\<close>

lemma fl_code [code]:
  "fl x = (let r = rnd64 x in
     if \<bar>r\<bar> \<le> 1000000000000000000000000000000 then Fin r
     else if 2 ^ 1024 \<le> r then PosInf else if r \<le> - (2 ^ 1024) then NegInf else Fin r)"
proof -
  have "1000000000000000000000000000000 < (2 ^ 1024 :: rat)" by simp
  then show ?thesis unfolding fl_def Let_def by (auto simp del: power_numeral)
qed

lemma num_ok_code [code]:
  "num_ok (Fin r) \<longleftrightarrow> fl r = Fin r" "num_ok PosInf = True" "num_ok NegInf = True" "num_ok NaN = True"
proof -
  show "num_ok (Fin r) \<longleftrightarrow> fl r = Fin r" using fl_ok[of r] fl_fixed[of r] by metis
qed simp_all

lemma fl_of_int: "\<bar>n\<bar> \<le> 2 ^ 53 \<Longrightarrow> fl (of_int n) = Fin (of_int n)"
proof (rule fl_fixed)
  assume n: "\<bar>n\<bar> \<le> 2 ^ 53"
  then have "\<bar>of_int n :: rat\<bar> \<le> of_int (2 ^ 53)" by (simp only: of_int_le_iff flip: of_int_abs)
  also have "\<dots> < (2 ^ 1024 :: rat)" by simp
  finally show "num_ok (Fin (of_int n))" using n by (simp add: b64.exact_int)
qed

text \<open>Below \<open>2 ^ 53\<close> in magnitude nothing overflows, and rounding keeps integer bounds.\<close>

lemma rnd64_le_int: "x \<le> of_int n \<Longrightarrow> \<bar>n\<bar> \<le> 2 ^ 53 \<Longrightarrow> rnd64 x \<le> of_int n"
  using b64.le_fixed[of x "of_int n"] b64.exact_int[of n] by simp

lemma rnd64_ge_int: "of_int n \<le> x \<Longrightarrow> \<bar>n\<bar> \<le> 2 ^ 53 \<Longrightarrow> of_int n \<le> rnd64 x"
  using b64.ge_fixed[of "of_int n" x] b64.exact_int[of n] by simp

lemma fl_small:
  assumes "- 9007199254740992 \<le> x" "x \<le> 9007199254740992"
  shows "fl x = Fin (rnd64 x)"
proof -
  have "- 9007199254740992 \<le> rnd64 x" "rnd64 x \<le> 9007199254740992"
    using rnd64_ge_int[of "- 9007199254740992" x] rnd64_le_int[of x 9007199254740992] assms by simp_all
  then have "\<bar>rnd64 x\<bar> \<le> 1000000000000000000000000000000" by linarith
  then show ?thesis by (simp only: fl_code Let_def if_True)
qed

lemma fl_le_fixed: "x \<le> r \<Longrightarrow> num_ok (Fin r) \<Longrightarrow> fl x \<le> Fin r"
  using fl_mono[of x r] by (simp only: fl_fixed)

lemma fl_ge_fixed: "r \<le> x \<Longrightarrow> num_ok (Fin r) \<Longrightarrow> Fin r \<le> fl x"
  using fl_mono[of r x] by (simp only: fl_fixed)

lemma js_neg_antimono: "a \<le> b \<Longrightarrow> js_neg b \<le> js_neg a"
  by (cases a; cases b) (auto simp: less_eq_jsnum_def)

lemma js_add_mono [num_mono]: "a \<le> b \<Longrightarrow> js_add (Fin c) a \<le> js_add (Fin c) b"
  by (cases a; cases b) (auto simp: fl_mono less_eq_jsnum_def[of PosInf] less_eq_jsnum_def[of _ NegInf])

lemma js_sub_antimono [num_mono]: "b \<le> c \<Longrightarrow> js_sub (Fin a) c \<le> js_sub (Fin a) b"
  by (simp add: js_sub_def js_add_mono js_neg_antimono)

lemma js_sub_mono [num_mono]: "a \<le> b \<Longrightarrow> js_sub (Fin a) (Fin c) \<le> js_sub (Fin b) (Fin c)"
  by (simp add: js_sub_def fl_mono)

lemma js_mul_mono [num_mono]:
  "a \<le> b \<Longrightarrow> 0 \<le> c \<Longrightarrow> js_mul (Fin a) (Fin c) \<le> js_mul (Fin b) (Fin c)"
  by (simp add: fl_mono mult_right_mono)

lemma js_div_mono [num_mono]:
  "a \<le> b \<Longrightarrow> 0 < c \<Longrightarrow> js_div (Fin a) (Fin c) \<le> js_div (Fin b) (Fin c)"
  by (simp add: fl_mono divide_right_mono)

lemma js_floor_mono [num_mono]: "a \<le> b \<Longrightarrow> js_floor a \<le> js_floor b"
  by (cases a; cases b) (auto simp: floor_mono less_eq_jsnum_def)

lemma js_max_mono [num_mono]: "a \<le> b \<Longrightarrow> js_max a c \<le> js_max b c"
  by (cases a; cases b; cases c) (auto simp: js_max_def less_eq_jsnum_def)

lemma js_max_ge: "a \<noteq> NaN \<Longrightarrow> b \<noteq> NaN \<Longrightarrow> a \<le> js_max a b \<and> b \<le> js_max a b"
  by (cases a; cases b) (auto simp: js_max_def less_eq_jsnum_def)

lemma js_max_le: "a \<le> c \<Longrightarrow> b \<le> c \<Longrightarrow> js_max a b \<le> c"
  by (cases a; cases b; cases c) (auto simp: js_max_def less_eq_jsnum_def)

lemma js_min_le: "a \<noteq> NaN \<Longrightarrow> b \<noteq> NaN \<Longrightarrow> js_min a b \<le> a \<and> js_min a b \<le> b"
  by (cases a; cases b) (auto simp: js_min_def less_eq_jsnum_def)

lemma js_min_ge: "c \<le> a \<Longrightarrow> c \<le> b \<Longrightarrow> c \<le> js_min a b"
  by (cases a; cases b; cases c) (auto simp: js_min_def less_eq_jsnum_def)

lemma js_min_Fin [simp]: "js_min (Fin a) (Fin b) = Fin (min a b)"
  by (simp add: js_min_def min_def)

lemma js_max_Fin [simp]: "js_max (Fin a) (Fin b) = Fin (max a b)"
  by (simp add: js_max_def max_def)

end
