(* ===== verification/JSText.thy ===== *)
theory JSText
  imports Prelude "HOL-Library.Signed_Division"
begin

section \<open>Strings and big integers\<close>

text \<open>
  Token amounts travel as decimal strings and are computed with as \<^verbatim>\<open>bigint\<close>s, which are unbounded:
  a \<^verbatim>\<open>bigint\<close> is an \<open>int\<close>. \<open>js_BigInt\<close> is the \<^verbatim>\<open>BigInt(string)\<close> conversion with its SyntaxError,
  \<open>show_int\<close> is \<^verbatim>\<open>toString()\<close>, and \<open>big_div\<close> is the truncating \<^verbatim>\<open>/\<close> with its RangeError. The
  lemmas give the round trip and the injectivity of the printing, on which the order engine's
  comparison of amounts as strings depends. Strings are character lists; letter case and white
  space are those of ASCII, which is what addresses, hashes and amounts consist of.
\<close>

subsection \<open>String methods\<close>

definition lower_char :: "char \<Rightarrow> char" where
  "lower_char c = (let n = of_char c :: nat in
     if 65 \<le> n \<and> n \<le> 90 then char_of (n + 32) else c)"

definition upper_char :: "char \<Rightarrow> char" where
  "upper_char c = (let n = of_char c :: nat in
     if 97 \<le> n \<and> n \<le> 122 then char_of (n - 32) else c)"

definition toLowerCase :: "string \<Rightarrow> string" where
  "toLowerCase s = map lower_char s"

definition toUpperCase :: "string \<Rightarrow> string" where
  "toUpperCase s = map upper_char s"

definition startsWith :: "string \<Rightarrow> string \<Rightarrow> bool" where
  "startsWith s p = (take (length p) s = p)"

fun str_includes :: "string \<Rightarrow> string \<Rightarrow> bool" where
  "str_includes [] p = (p = [])"
| "str_includes (c # s) p = (startsWith (c # s) p \<or> str_includes s p)"

lemma lower_char_idem [simp]: "lower_char (lower_char c) = lower_char c"
proof (cases "65 \<le> (of_char c :: nat) \<and> (of_char c :: nat) \<le> 90")
  case True
  then have "lower_char c = char_of ((of_char c :: nat) + 32)" by (simp add: lower_char_def)
  with True show ?thesis by (simp add: lower_char_def)
next
  case False
  then have "lower_char c = c" by (auto simp: lower_char_def Let_def)
  then show ?thesis by simp
qed

lemma toLowerCase_idem [simp]: "toLowerCase (toLowerCase s) = toLowerCase s"
  by (simp add: toLowerCase_def)

subsection \<open>Printing integers\<close>

definition digit_char :: "nat \<Rightarrow> char" where
  "digit_char d = char_of (48 + d)"

fun show_nat :: "nat \<Rightarrow> string" where
  "show_nat n = (if n < 10 then [digit_char n]
     else show_nat (n div 10) @ [digit_char (n mod 10)])"

declare show_nat.simps [simp del]

definition show_int :: "int \<Rightarrow> string" where
  "show_int n = (if n < 0 then CHR ''-'' # show_nat (nat (- n)) else show_nat (nat n))"

text \<open>The same digits computed on integers, which evaluation handles in binary.\<close>

function show_digits :: "int \<Rightarrow> string" where
  "show_digits n = (if n < 10 then [char_of (48 + n)]
     else show_digits (n div 10) @ [char_of (48 + n mod 10)])"
  by pat_completeness auto
termination by (relation "measure nat") auto

declare show_digits.simps [simp del]

lemma show_digits_of_nat: "show_digits (int n) = show_nat n"
proof (induction n rule: show_nat.induct)
  case (1 n)
  have c: "char_of (48 + int m) = digit_char m" for m
    unfolding digit_char_def by (metis char_of_nat of_nat_add of_nat_numeral)
  show ?case
  proof (cases "n < 10")
    case True
    then show ?thesis by (subst show_digits.simps, subst show_nat.simps) (simp add: c)
  next
    case False
    have "int n div 10 = int (n div 10)" "int n mod 10 = int (n mod 10)" by (simp_all add: zdiv_int zmod_int)
    with False 1 c[of "n mod 10"] show ?thesis
      by (subst show_digits.simps, subst show_nat.simps) simp
  qed
qed

lemma show_int_code [code]:
  "show_int n = (if n < 0 then CHR ''-'' # show_digits (- n) else show_digits n)"
  using show_digits_of_nat[of "nat n"] show_digits_of_nat[of "nat (- n)"] by (auto simp: show_int_def split: if_splits)

subsection \<open>Reading integers\<close>

definition digit_val :: "int \<Rightarrow> char \<Rightarrow> int option" where
  "digit_val r c = (let n = of_char c :: int;
      d = (if 48 \<le> n \<and> n \<le> 57 then n - 48
           else if 97 \<le> n \<and> n \<le> 102 then n - 87
           else if 65 \<le> n \<and> n \<le> 70 then n - 55 else 99)
    in if d < r then Some d else None)"

fun radix_val :: "int \<Rightarrow> int \<Rightarrow> string \<Rightarrow> int option" where
  "radix_val r acc [] = Some acc"
| "radix_val r acc (c # cs) =
     (case digit_val r c of None \<Rightarrow> None | Some d \<Rightarrow> radix_val r (acc * r + d) cs)"

definition read_digits :: "int \<Rightarrow> string \<Rightarrow> int option" where
  "read_digits r cs = (if cs = [] then None else radix_val r 0 cs)"

definition is_space :: "char \<Rightarrow> bool" where
  "is_space c = (let n = of_char c :: nat in n = 32 \<or> (9 \<le> n \<and> n \<le> 13))"

definition js_trim :: "string \<Rightarrow> string" where
  "js_trim s = rev (dropWhile is_space (rev (dropWhile is_space s)))"

text \<open>The integer a trimmed text denotes: a signed decimal, or an unsigned prefixed literal.\<close>

definition read_bigint :: "string \<Rightarrow> int option" where
  "read_bigint t =
     (if t = [] then Some 0
      else if startsWith t ''0x'' \<or> startsWith t ''0X'' then read_digits 16 (drop 2 t)
      else if startsWith t ''0o'' \<or> startsWith t ''0O'' then read_digits 8 (drop 2 t)
      else if startsWith t ''0b'' \<or> startsWith t ''0B'' then read_digits 2 (drop 2 t)
      else if startsWith t ''-'' then map_option uminus (read_digits 10 (tl t))
      else if startsWith t ''+'' then read_digits 10 (tl t)
      else read_digits 10 t)"

definition js_BigInt :: "string \<Rightarrow> int res" where
  "js_BigInt s = (case read_bigint (js_trim s) of
     Some n \<Rightarrow> Inr n
   | None \<Rightarrow> Inl (SyntaxError (''Cannot convert '' @ s @ '' to a BigInt'')))"

definition big_div :: "int \<Rightarrow> int \<Rightarrow> int res" where
  "big_div a b = (if b = 0 then Inl (RangeError ''Division by zero'') else Inr (a sdiv b))"

subsection \<open>Reading inverts printing\<close>

lemma digit_val_digit_char: "d < 10 \<Longrightarrow> digit_val 10 (digit_char d) = Some (int d)"
proof -
  assume d: "d < 10"
  have "(of_char (digit_char d) :: int) = int (of_char (digit_char d) :: nat)" by (rule of_nat_of_char[symmetric])
  also have "\<dots> = 48 + int d" using d unfolding digit_char_def of_char_of by simp
  finally have "(of_char (digit_char d) :: int) = 48 + int d" .
  with d show ?thesis by (simp add: digit_val_def Let_def)
qed

lemma radix_val_append:
  "radix_val r acc (xs @ ys) = Option.bind (radix_val r acc xs) (\<lambda>a. radix_val r a ys)"
  by (induction xs arbitrary: acc) (auto split: option.splits)

lemma radix_val_show_nat: "radix_val 10 0 (show_nat n) = Some (int n)"
proof (induction n rule: show_nat.induct)
  case (1 n)
  show ?case
  proof (cases "n < 10")
    case True
    then show ?thesis by (subst show_nat.simps) (simp add: digit_val_digit_char)
  next
    case False
    with "1" have "radix_val 10 0 (show_nat (n div 10)) = Some (int (n div 10))" by simp
    moreover have "int (n div 10) * 10 + int (n mod 10) = int n"
      by (metis div_mult_mod_eq of_nat_add of_nat_mult of_nat_numeral)
    ultimately show ?thesis
      using False by (subst show_nat.simps) (simp add: radix_val_append digit_val_digit_char)
  qed
qed

lemma show_nat_nonempty [simp]: "show_nat n \<noteq> []"
  by (subst show_nat.simps) simp

definition is_digit :: "char \<Rightarrow> bool" where
  "is_digit c = (48 \<le> (of_char c :: nat) \<and> (of_char c :: nat) \<le> 57)"

lemma is_digit_digit_char: "d < 10 \<Longrightarrow> is_digit (digit_char d)"
  by (simp add: is_digit_def digit_char_def)

lemma show_nat_digits: "c \<in> set (show_nat n) \<Longrightarrow> is_digit c"
proof (induction n rule: show_nat.induct)
  case (1 n)
  show ?case
  proof (cases "n < 10")
    case True
    with "1.prems" show ?thesis by (simp add: show_nat.simps[of n] is_digit_digit_char)
  next
    case False
    with "1" show ?thesis
      by (auto simp: show_nat.simps[of n] is_digit_digit_char)
  qed
qed

lemma is_digit_not_space: "is_digit c \<Longrightarrow> \<not> is_space c"
  by (auto simp: is_digit_def is_space_def Let_def)

lemma js_trim_id: "(\<And>c. c \<in> set s \<Longrightarrow> \<not> is_space c) \<Longrightarrow> js_trim s = s"
proof -
  assume ns: "\<And>c. c \<in> set s \<Longrightarrow> \<not> is_space c"
  have d: "dropWhile is_space t = t" if "set t \<subseteq> set s" for t
    using that ns by (cases t) auto
  show ?thesis by (simp add: js_trim_def d)
qed

lemma startsWith_digit: "is_digit (hd t) \<Longrightarrow> t \<noteq> [] \<Longrightarrow> \<not> startsWith t ''-'' \<and> \<not> startsWith t ''+''"
  by (cases t) (auto simp: startsWith_def is_digit_def)

lemma startsWith_digits2:
  "\<forall>c\<in>set t. is_digit c \<Longrightarrow> \<not> is_digit d \<Longrightarrow> \<not> startsWith t [CHR ''0'', d]"
  by (cases t; cases "tl t") (auto simp: startsWith_def)

lemma read_bigint_digits:
  assumes "t \<noteq> []" and "\<forall>c\<in>set t. is_digit c"
  shows "read_bigint t = radix_val 10 0 t"
proof -
  have "\<not> startsWith t ''0x''" "\<not> startsWith t ''0X''" "\<not> startsWith t ''0o''"
    "\<not> startsWith t ''0O''" "\<not> startsWith t ''0b''" "\<not> startsWith t ''0B''"
    using startsWith_digits2[OF assms(2)] by (simp_all add: is_digit_def)
  moreover have "is_digit (hd t)" using assms by simp
  ultimately show ?thesis
    using assms(1) startsWith_digit[of t] by (simp add: read_bigint_def read_digits_def)
qed

lemma read_bigint_show_int: "read_bigint (show_int n) = Some n"
proof (cases "n < 0")
  case True
  then show ?thesis
    by (simp add: show_int_def read_bigint_def startsWith_def read_digits_def radix_val_show_nat)
next
  case False
  then have "read_bigint (show_int n) = radix_val 10 0 (show_nat (nat n))"
    by (simp add: show_int_def read_bigint_digits show_nat_digits)
  with False show ?thesis by (simp add: radix_val_show_nat)
qed

lemma js_trim_show_int [simp]: "js_trim (show_int n) = show_int n"
proof (rule js_trim_id)
  fix c assume "c \<in> set (show_int n)"
  then have "c = CHR ''-'' \<or> is_digit c" by (auto simp: show_int_def show_nat_digits split: if_splits)
  then show "\<not> is_space c"
    by (elim disjE) (simp add: is_space_def, rule is_digit_not_space)
qed

lemma js_BigInt_show_int [simp]: "js_BigInt (show_int n) = Inr n"
  by (simp add: js_BigInt_def read_bigint_show_int)

lemma show_int_inject [simp]: "show_int m = show_int n \<longleftrightarrow> m = n"
  by (metis Inr_inject js_BigInt_show_int)

lemma show_int_0 [simp]: "show_int n = ''0'' \<longleftrightarrow> n = 0"
proof -
  have "show_int 0 = ''0''" by code_simp
  then show ?thesis by (metis show_int_inject)
qed

text \<open>An amount in the form \<^verbatim>\<open>toString()\<close> prints.\<close>

definition canonical_amount :: "string \<Rightarrow> bool" where
  "canonical_amount s = (case read_bigint (js_trim s) of None \<Rightarrow> False | Some n \<Rightarrow> show_int n = s)"

lemma canonical_amount_iff: "canonical_amount s \<longleftrightarrow> (\<exists>n. s = show_int n)"
  by (auto simp: canonical_amount_def read_bigint_show_int split: option.splits)

lemma canonical_amount_show_int [simp]: "canonical_amount (show_int n)"
  by (auto simp: canonical_amount_iff)

subsection \<open>Truncating division\<close>

lemma sdiv_nonneg: "0 \<le> a \<Longrightarrow> 0 < b \<Longrightarrow> a sdiv b = (a div b :: int)"
  by (simp add: signed_divide_int_def sgn_if)

lemma big_div_pos [simp]: "0 \<le> a \<Longrightarrow> 0 < b \<Longrightarrow> big_div a b = Inr (a div b)"
  by (simp add: big_div_def sdiv_nonneg)

end
