(* ===== verification/OrderTypes.thy ===== *)
theory OrderTypes
  imports JSNumber JSText
begin

section \<open>The data of an order\<close>

text \<open>
  The types of \<^verbatim>\<open>backend/order-engine/src/types/order.ts\<close>: the schemas a client's request is parsed
  with become records, optional properties become options, \<^verbatim>\<open>Order\<close> extends the request record as the
  interface does. Dates are the milliseconds of \<^verbatim>\<open>Date.now()\<close>. The status of a fill is a string:
  the declared union is not checked when a fill is patched, and the resolvers send other values.
\<close>

datatype OrderStatus = PENDING | PARTIALLY_FILLED | FILLED | CANCELLED | EXPIRED

datatype Chain = ETHEREUM | APTOS

record Permit =
  permit_owner :: string
  permit_spender :: string
  permit_value :: string
  permit_nonce :: string
  permit_deadline :: jsnum

record GaslessData =
  gd_escrowId :: string
  gd_depositor :: string
  gd_beneficiary :: string
  gd_token :: string
  gd_amount :: string
  gd_hashlock :: string
  gd_timelock :: string
  gd_deadline :: string
  gd_metaTxV :: jsnum
  gd_metaTxR :: string
  gd_metaTxS :: string
  gd_baseOrderId :: "string option"
  gd_totalAmount :: "string option"
  gd_merkleRoot :: "string option"
  gd_numFills :: "jsnum option"
  gd_secrets :: "string list option"
  gd_merkleProofs :: "string list list option"
  gd_fillThresholds :: "jsnum list option"

record PartialFillSecrets =
  merkleRoot :: string
  secrets :: "string list"
  merkleProofs :: "string list list"
  fillThresholds :: "jsnum list"

record DutchAuction =
  enabled :: bool
  startTimestamp :: jsnum
  duration :: jsnum
  startRate :: jsnum
  endRate :: jsnum
  decrementInterval :: jsnum
  decrementAmount :: jsnum

record CreateOrderDto =
  fromChain :: Chain
  toChain :: Chain
  fromToken :: string
  toToken :: string
  fromAmount :: string
  minToAmount :: string
  maker :: string
  receiver :: string
  signature :: string
  deadline :: jsnum
  nonce :: string
  partialFillAllowed :: bool
  partialFillEnabled :: bool
  secretHash :: "string option"
  secretHashes :: "string list option"
  partialFillSecrets :: "PartialFillSecrets option"
  maxParts :: "jsnum option"
  activeResolvers :: "string list option"
  dutchAuction :: "DutchAuction option"
  permit :: "Permit option"
  permitSignature :: "string option"
  gasless :: "bool option"
  gaslessData :: "GaslessData option"

text \<open>
  What a resolver posts to create a fill, and the fill the engine keeps of it. The numbers of a
  posted fill may be missing: the body is not validated.
\<close>

record FillData =
  fill_resolver :: string
  fill_amount :: string
  fillPercentage :: "jsnum option"
  cumulativePercentage :: "jsnum option"
  cumulativeFillPercentage :: "jsnum option"
  fill_secretHash :: string
  secretIndex :: "jsnum option"
  merkleProof :: "string list option"
  merkleIndex :: "jsnum option"
  partialSecret :: "string option"
  actualEscrowId :: "string option"
  sourceChainTxHash :: "string option"
  destChainTxHash :: "string option"
  fill_status :: string

record Fill = FillData +
  fill_id :: string
  fill_orderId :: string
  fill_createdAt :: int
  fill_updatedAt :: int

record Order = CreateOrderDto +
  order_id :: string
  order_status :: OrderStatus
  filledAmount :: string
  filledPercentage :: jsnum
  createdAt :: int
  updatedAt :: int
  fills :: "Fill list"

end
