(* ===== verification/DutchAuction.thy ===== *)
theory DutchAuction
  imports OrderTypes
begin

section \<open>Dutch auction pricing\<close>

text \<open>
  The class \<^verbatim>\<open>DutchAuctionPricing\<close> of \<^verbatim>\<open>backend/order-engine/src/utils/dutchAuction.ts\<close>, method by
  method, over binary64 numbers. The lemmas show that, rounding included, the rate of a sound
  auction stays between its end rate and its start rate and never rises as time passes.
\<close>

definition getCurrentRate :: "DutchAuction \<Rightarrow> jsnum \<Rightarrow> jsnum" where
  "getCurrentRate auction currentTimestamp =
     (if js_lt currentTimestamp (startTimestamp auction) then startRate auction
      else
        let auctionEndTime = js_add (startTimestamp auction) (duration auction) in
        if js_le auctionEndTime currentTimestamp then endRate auction
        else
          let elapsedTime = js_sub currentTimestamp (startTimestamp auction);
              intervalsPassed = js_floor (js_div elapsedTime (decrementInterval auction));
              totalDecrease = js_mul intervalsPassed (decrementAmount auction);
              currentRate = js_sub (startRate auction) totalDecrease
          in js_max currentRate (endRate auction))"

definition getRateForFill :: "DutchAuction \<Rightarrow> jsnum \<Rightarrow> jsnum \<Rightarrow> jsnum" where
  "getRateForFill auction pct currentTimestamp =
     (let baseRate = getCurrentRate auction currentTimestamp;
          fillBonus = js_div (js_mul (js_sub pct (Fin 25)) (fl (1 / 1000))) (Fin 75)
      in js_mul baseRate (js_add (Fin 1) (js_max (Fin 0) fillBonus)))"

definition calculateMinReturn :: "string \<Rightarrow> DutchAuction \<Rightarrow> jsnum \<Rightarrow> string res" where
  "calculateMinReturn amount auction currentTimestamp =
     (let currentRate = getCurrentRate auction currentTimestamp in
      bind_res (js_BigInt amount) (\<lambda>fromAmountBigInt.
      bind_res (bigint_of_num (js_floor (js_mul currentRate (Fin 1000000)))) (\<lambda>scaled.
      bind_res (big_div (fromAmountBigInt * scaled) 1000000) (\<lambda>minReturn.
      Inr (show_int minReturn)))))"

definition isAcceptableOffer :: "jsnum \<Rightarrow> DutchAuction \<Rightarrow> jsnum \<Rightarrow> bool" where
  "isAcceptableOffer offeredRate auction currentTimestamp =
     js_le (getCurrentRate auction currentTimestamp) offeredRate"

record AuctionStatus =
  isActive :: bool
  hasStarted :: bool
  hasEnded :: bool
  timeRemaining :: jsnum
  currentRate :: jsnum
  nextRateDropIn :: jsnum
  percentComplete :: jsnum

definition getAuctionStatus :: "DutchAuction \<Rightarrow> jsnum \<Rightarrow> AuctionStatus" where
  "getAuctionStatus auction currentTimestamp =
     (let started = js_le (startTimestamp auction) currentTimestamp;
          auctionEndTime = js_add (startTimestamp auction) (duration auction);
          ended = js_le auctionEndTime currentTimestamp;
          active = (started \<and> \<not> ended);
          dropIn = (if active then
              let elapsedTime = js_sub currentTimestamp (startTimestamp auction);
                  timeInCurrentInterval = js_mod elapsedTime (decrementInterval auction)
              in js_sub (decrementInterval auction) timeInCurrentInterval
            else Fin 0);
          percent = (if ended then Fin 100
            else if started then
              js_min (Fin 100) (js_mul
                (js_div (js_sub currentTimestamp (startTimestamp auction)) (duration auction))
                (Fin 100))
            else Fin 0)
      in \<lparr>isActive = active, hasStarted = started, hasEnded = ended,
          timeRemaining = js_max (Fin 0) (js_sub auctionEndTime currentTimestamp),
          currentRate = getCurrentRate auction currentTimestamp,
          nextRateDropIn = dropIn, percentComplete = percent\<rparr>)"

text \<open>The resolver argument of the method is not used by its body.\<close>

definition calculateCompetitionScore :: "string \<Rightarrow> jsnum \<Rightarrow> jsnum \<Rightarrow> DutchAuction \<Rightarrow> jsnum" where
  "calculateCompetitionScore resolver fillTimestamp pct auction =
     (let timeScore = js_max (Fin 0) (js_sub (Fin 100)
            (js_mul (js_div (js_sub fillTimestamp (startTimestamp auction)) (duration auction))
              (Fin 100)));
          sizeScore = pct
      in js_add (js_mul timeScore (fl (7 / 10))) (js_mul sizeScore (fl (3 / 10))))"

subsection \<open>Sound auctions and times\<close>

text \<open>
  A time is a representable, non-negative number of seconds. An auction is sound when its rates
  fall (\<open>endRate \<le> startRate\<close>), its step is at least a second and its duration is positive.
\<close>

fun is_time :: "jsnum \<Rightarrow> bool" where
  "is_time (Fin t) = (0 \<le> t \<and> num_ok (Fin t))"
| "is_time _ = False"

fun is_fin_ok :: "jsnum \<Rightarrow> bool" where
  "is_fin_ok (Fin t) = num_ok (Fin t)"
| "is_fin_ok _ = False"

definition auction_ok :: "DutchAuction \<Rightarrow> bool" where
  "auction_ok a \<longleftrightarrow>
     is_time (startTimestamp a) \<and> is_time (duration a) \<and> Fin 0 < duration a \<and>
     is_fin_ok (startRate a) \<and> is_fin_ok (endRate a) \<and> endRate a \<le> startRate a \<and>
     is_time (decrementInterval a) \<and> Fin 1 \<le> decrementInterval a \<and>
     is_time (decrementAmount a)"

lemma is_timeE:
  assumes "is_time t" obtains r where "t = Fin r" "0 \<le> r" "num_ok (Fin r)"
  using assms by (cases t) (simp_all del: num_ok.simps)

lemma is_fin_okE:
  assumes "is_fin_ok t" obtains r where "t = Fin r" "num_ok (Fin r)"
  using assms by (cases t) (simp_all del: num_ok.simps)

lemma auction_okE:
  assumes "auction_ok a"
  obtains s d r e i c where
    "startTimestamp a = Fin s" "0 \<le> s" "num_ok (Fin s)"
    "duration a = Fin d" "0 < d" "num_ok (Fin d)"
    "startRate a = Fin r" "num_ok (Fin r)"
    "endRate a = Fin e" "num_ok (Fin e)" "e \<le> r"
    "decrementInterval a = Fin i" "1 \<le> i" "num_ok (Fin i)"
    "decrementAmount a = Fin c" "0 \<le> c" "num_ok (Fin c)"
proof -
  from assms obtain s d i c where
    "startTimestamp a = Fin s" "0 \<le> s" "num_ok (Fin s)" "duration a = Fin d" "num_ok (Fin d)"
    "decrementInterval a = Fin i" "num_ok (Fin i)" "decrementAmount a = Fin c" "0 \<le> c" "num_ok (Fin c)"
    unfolding auction_ok_def by (elim conjE is_timeE)
  moreover from assms obtain r e where
    "startRate a = Fin r" "num_ok (Fin r)" "endRate a = Fin e" "num_ok (Fin e)"
    unfolding auction_ok_def by (elim conjE is_fin_okE)
  ultimately show ?thesis
    using that assms unfolding auction_ok_def by (simp del: num_ok.simps is_time.simps)
qed

text \<open>Rounding stays between representable bounds; in particular it does not overflow there.\<close>

lemma num_ok_0 [simp]: "num_ok (Fin 0)"
  by simp

lemma fl_between:
  assumes "a \<le> x" "x \<le> b" "num_ok (Fin a)" "num_ok (Fin b)"
  obtains r where "fl x = Fin r" "a \<le> r" "r \<le> b" "num_ok (Fin r)"
proof -
  have lo: "Fin a \<le> fl x" and hi: "fl x \<le> Fin b"
    using assms fl_ge_fixed fl_le_fixed by (simp_all del: num_ok.simps)
  then obtain r where r: "fl x = Fin r" by (cases "fl x") (auto simp: less_eq_jsnum_def)
  have "num_ok (Fin r)" using fl_ok[of x] by (simp only: r)
  with that r lo hi show ?thesis by simp
qed

subsection \<open>The rate of a running auction\<close>

text \<open>The decrease accumulated by an active auction at a time.\<close>

definition decrease_at :: "DutchAuction \<Rightarrow> jsnum \<Rightarrow> jsnum" where
  "decrease_at a t =
     js_mul (js_floor (js_div (js_sub t (startTimestamp a)) (decrementInterval a)))
       (decrementAmount a)"

lemma getCurrentRate_cases:
  "getCurrentRate a t =
     (if t < startTimestamp a then startRate a
      else if js_le (js_add (startTimestamp a) (duration a)) t then endRate a
      else js_max (js_sub (startRate a) (decrease_at a t)) (endRate a))"
  by (simp add: getCurrentRate_def decrease_at_def Let_def js_lt_iff)

lemma elapsed_between:
  assumes "0 \<le> s" "s \<le> t" "num_ok (Fin t)"
  obtains r where "js_sub (Fin t) (Fin s) = Fin r" "0 \<le> r" "r \<le> t" "num_ok (Fin r)"
proof (rule fl_between[of 0 "t - s" t])
  show "0 \<le> t - s" "t - s \<le> t" "num_ok (Fin 0)" "num_ok (Fin t)" using assms by simp_all
  fix r assume "fl (t - s) = Fin r" "0 \<le> r" "r \<le> t" "num_ok (Fin r)"
  then show ?thesis using that by (simp add: js_sub_def del: num_ok.simps)
qed

lemma quotient_between:
  assumes "0 \<le> x" "1 \<le> i" "num_ok (Fin x)"
  obtains r where "js_div (Fin x) (Fin i) = Fin r" "0 \<le> r" "r \<le> x"
proof (rule fl_between[of 0 "x / i" x])
  have "x / i \<le> x / 1" using assms by (intro divide_left_mono) auto
  then show "x / i \<le> x" by simp
  show "0 \<le> x / i" "num_ok (Fin 0)" "num_ok (Fin x)" using assms by simp_all
  fix r assume "fl (x / i) = Fin r" "0 \<le> r" "r \<le> x"
  then show ?thesis using that assms by simp
qed

lemma intervals_passed:
  assumes "auction_ok a" "is_time t" "startTimestamp a \<le> t"
  obtains n where "js_floor (js_div (js_sub t (startTimestamp a)) (decrementInterval a))
    = Fin (of_int n)" "0 \<le> n"
proof -
  from assms(1) obtain s i where s: "startTimestamp a = Fin s" "0 \<le> s"
    and i: "decrementInterval a = Fin i" "1 \<le> i" by (rule auction_okE)
  from assms(2) obtain t' where t: "t = Fin t'" "num_ok (Fin t')" by (rule is_timeE)
  from assms(3) s t have "s \<le> t'" by simp
  then obtain x where x: "js_sub t (startTimestamp a) = Fin x" "0 \<le> x" "num_ok (Fin x)"
    using elapsed_between[of s t'] s t by metis
  then obtain r where r: "js_div (Fin x) (Fin i) = Fin r" "0 \<le> r"
    using quotient_between[of x i] i by metis
  with that[of "\<lfloor>r\<rfloor>"] x i show ?thesis by simp
qed

lemma decrease_at_mono:
  assumes a: "auction_ok a" and t: "is_time t1" "is_time t2"
    and le: "startTimestamp a \<le> t1" "t1 \<le> t2"
  shows "decrease_at a t1 \<le> decrease_at a t2"
proof -
  from a obtain s i c where s: "startTimestamp a = Fin s" "0 \<le> s"
    and i: "decrementInterval a = Fin i" "1 \<le> i" and c: "decrementAmount a = Fin c" "0 \<le> c"
    by (rule auction_okE)
  from t obtain u1 u2 where u: "t1 = Fin u1" "num_ok (Fin u1)" "t2 = Fin u2" "num_ok (Fin u2)"
    by (elim is_timeE)
  have su: "s \<le> u1" "u1 \<le> u2" using le s u by simp_all
  have su2: "s \<le> u2" using su by simp
  obtain x1 where x1: "js_sub t1 (startTimestamp a) = Fin x1"
    using elapsed_between[OF s(2) su(1) u(2)] u s by metis
  obtain x2 where x2: "js_sub t2 (startTimestamp a) = Fin x2"
    using elapsed_between[OF s(2) su2 u(4)] u s by metis
  have "Fin x1 \<le> Fin x2" using js_sub_mono[OF su(2), of s] x1 x2 s u by simp
  then have d: "js_div (Fin x1) (Fin i) \<le> js_div (Fin x2) (Fin i)"
    using i by (intro js_div_mono) auto
  obtain n1 where n1: "js_floor (js_div (Fin x1) (Fin i)) = Fin (of_int n1)"
    using intervals_passed[OF a t(1) le(1)] x1 i by metis
  obtain n2 where n2: "js_floor (js_div (Fin x2) (Fin i)) = Fin (of_int n2)"
    using intervals_passed[OF a t(2) order_trans[OF le]] x2 i by metis
  have "(of_int n1 :: rat) \<le> of_int n2" using js_floor_mono[OF d] n1 n2 by simp
  then show ?thesis
    using js_mul_mono[of "of_int n1" "of_int n2" c] c i x1 x2 n1 n2
    by (simp add: decrease_at_def)
qed

lemma decrease_at_nonneg:
  assumes "auction_ok a" "is_time t" "startTimestamp a \<le> t"
  shows "Fin 0 \<le> decrease_at a t"
proof -
  obtain n where n: "js_floor (js_div (js_sub t (startTimestamp a)) (decrementInterval a))
    = Fin (of_int n)" "0 \<le> n" using intervals_passed[OF assms] .
  from assms(1) obtain c where c: "decrementAmount a = Fin c" "0 \<le> c" by (rule auction_okE)
  have "Fin 0 \<le> fl (of_int n * c)" using n c by (intro fl_ge_fixed) simp_all
  then show ?thesis by (simp add: decrease_at_def n c)
qed

lemma active_rate_bounds:
  assumes "auction_ok a" "is_time t" "startTimestamp a \<le> t"
  shows "endRate a \<le> js_max (js_sub (startRate a) (decrease_at a t)) (endRate a)"
    and "js_max (js_sub (startRate a) (decrease_at a t)) (endRate a) \<le> startRate a"
proof -
  from assms(1) obtain r e where r: "startRate a = Fin r" "num_ok (Fin r)"
    and e: "endRate a = Fin e" "e \<le> r" by (rule auction_okE)
  have pos: "Fin 0 \<le> decrease_at a t" using assms by (rule decrease_at_nonneg)
  then have nn: "decrease_at a t \<noteq> NaN" by auto
  have "js_sub (Fin r) (decrease_at a t) \<le> js_sub (Fin r) (Fin 0)" using pos by (rule js_sub_antimono)
  also have "js_sub (Fin r) (Fin 0) = Fin r" using fl_fixed[OF r(2)] by (simp add: js_sub_def)
  finally have le: "js_sub (Fin r) (decrease_at a t) \<le> Fin r" .
  then have "js_sub (Fin r) (decrease_at a t) \<noteq> NaN" by auto
  then show "endRate a \<le> js_max (js_sub (startRate a) (decrease_at a t)) (endRate a)"
    using js_max_ge[of "js_sub (Fin r) (decrease_at a t)" "Fin e"] r e by simp
  show "js_max (js_sub (startRate a) (decrease_at a t)) (endRate a) \<le> startRate a"
    using le r e by (intro js_max_le) simp_all
qed

lemma time_linear: "is_time a \<Longrightarrow> is_time b \<Longrightarrow> \<not> a < b \<longleftrightarrow> b \<le> a"
  by (elim is_timeE) auto

lemma auction_start_time: "auction_ok a \<Longrightarrow> is_time (startTimestamp a)"
  by (simp add: auction_ok_def)

lemma rate_between:
  assumes "auction_ok a" "is_time t"
  shows "endRate a \<le> getCurrentRate a t" and "getCurrentRate a t \<le> startRate a"
proof -
  have er: "endRate a \<le> startRate a" using assms by (simp add: auction_ok_def)
  have "endRate a \<le> getCurrentRate a t \<and> getCurrentRate a t \<le> startRate a"
  proof (cases "t < startTimestamp a")
    case False
    then have "startTimestamp a \<le> t"
      using time_linear assms auction_start_time by blast
    from active_rate_bounds[OF assms this] er show ?thesis
      by (simp add: getCurrentRate_cases False)
  qed (simp add: getCurrentRate_cases er)
  then show "endRate a \<le> getCurrentRate a t" "getCurrentRate a t \<le> startRate a" by auto
qed

lemma rate_falls:
  assumes a: "auction_ok a" and t: "is_time t1" "is_time t2" and le: "t1 \<le> t2"
  shows "getCurrentRate a t2 \<le> getCurrentRate a t1"
proof (cases "t1 < startTimestamp a")
  case True
  then show ?thesis using rate_between[OF a t(2)] by (simp add: getCurrentRate_cases)
next
  case False
  then have s1: "startTimestamp a \<le> t1" using time_linear t auction_start_time[OF a] by blast
  have s2: "startTimestamp a \<le> t2" using s1 le by (rule order_trans)
  have e: "js_le (js_add (startTimestamp a) (duration a)) t2"
    if "js_le (js_add (startTimestamp a) (duration a)) t1"
    using that le by (auto simp: js_le_iff)
  from a obtain r where r: "startRate a = Fin r" by (rule auction_okE)
  have d: "js_max (js_sub (startRate a) (decrease_at a t2)) (endRate a)
      \<le> js_max (js_sub (startRate a) (decrease_at a t1)) (endRate a)"
    unfolding r by (intro js_max_mono js_sub_antimono decrease_at_mono[OF a t s1 le])
  show ?thesis
    using False s2 e d active_rate_bounds(1)[OF a t(1) s1]
    by (auto simp: getCurrentRate_cases)
qed

subsection \<open>Signs of the derived quantities\<close>

lemma Fin_mul_nonneg: "Fin 0 \<le> x \<Longrightarrow> 0 < c \<Longrightarrow> Fin 0 \<le> js_mul x (Fin c)"
  by (cases x) (auto simp: inf_of_sign_def less_eq_jsnum_def[of _ NegInf] intro!: fl_ge_fixed)

lemma Fin_div_nonneg: "0 \<le> x \<Longrightarrow> 0 < d \<Longrightarrow> Fin 0 \<le> js_div (Fin x) (Fin d)"
  by (auto intro!: fl_ge_fixed)

lemma progress_nonneg:
  assumes "auction_ok a" "is_time t" "startTimestamp a \<le> t"
  shows "Fin 0 \<le> js_mul (js_div (js_sub t (startTimestamp a)) (duration a)) (Fin 100)"
proof -
  from assms(1) obtain s d where s: "startTimestamp a = Fin s" "0 \<le> s"
    and d: "duration a = Fin d" "0 < d" by (rule auction_okE)
  from assms(2) obtain t' where t: "t = Fin t'" "num_ok (Fin t')" by (rule is_timeE)
  from assms(3) s t have "s \<le> t'" by simp
  then obtain x where "js_sub t (startTimestamp a) = Fin x" "0 \<le> x"
    using elapsed_between[of s t'] s t by metis
  then show ?thesis using d by (simp add: Fin_mul_nonneg Fin_div_nonneg del: js_div.simps js_mul.simps)
qed

lemma js_mod_range: "0 \<le> x \<Longrightarrow> 0 < i \<Longrightarrow> \<exists>m. js_mod (Fin x) (Fin i) = Fin m \<and> 0 \<le> m \<and> m < i"
proof -
  assume x: "0 \<le> x" and i: "0 < i"
  have f: "of_int \<lfloor>x / i\<rfloor> \<le> x / i" "x / i < of_int \<lfloor>x / i\<rfloor> + 1" by linarith+
  have "i * of_int \<lfloor>x / i\<rfloor> \<le> x" using mult_left_mono[OF f(1), of i] i by simp
  moreover have "x < i * (of_int \<lfloor>x / i\<rfloor> + 1)" using mult_strict_left_mono[OF f(2) i] i by simp
  ultimately have "0 \<le> x - i * of_int \<lfloor>x / i\<rfloor> \<and> x - i * of_int \<lfloor>x / i\<rfloor> < i"
    by (simp add: algebra_simps)
  then show ?thesis using x i by (simp add: trunc_rat_def)
qed

lemma Fin_sandwich:
  assumes "Fin l \<le> x" "x \<le> Fin h"
  obtains u where "x = Fin u" "l \<le> u" "u \<le> h"
  using assms that by (cases x) (auto simp: less_eq_jsnum_def)

lemma not_NaN_ge: "Fin l \<le> x \<Longrightarrow> x \<noteq> NaN"
  by (cases x) (simp_all add: less_eq_jsnum_def)

lemma js_sub_not_NaN: "x \<noteq> NaN \<Longrightarrow> js_sub x (Fin t) \<noteq> NaN"
  by (cases x) (simp_all add: js_sub_def)

lemma scaled_rate:
  assumes "0 \<le> r" "r \<le> 10 ^ 15"
  shows "\<exists>k. bigint_of_num (js_floor (js_mul (Fin r) (Fin 1000000))) = Inr k \<and> 0 \<le> k
    \<and> js_floor (js_mul (Fin r) (Fin 1000000)) = Fin (of_int k)"
proof -
  have ok: "num_ok (Fin (10 ^ 21))" by code_simp
  have "0 \<le> r * 1000000" "r * 1000000 \<le> 10 ^ 21" using assms by simp_all
  then obtain x where "fl (r * 1000000) = Fin x" "0 \<le> x"
    using fl_between[of 0 "r * 1000000" "10 ^ 21"] ok num_ok_0 by metis
  then show ?thesis by simp
qed

text \<open>The factor of a fill as a rational function, and the parts of the competition score.\<close>

definition milli :: rat where
  "milli = rnd64 (1 / 1000)"

definition fill_factor :: "rat \<Rightarrow> rat" where
  "fill_factor p = rnd64 (1 + max 0 (rnd64 (rnd64 (rnd64 (p - 25) * milli) / 75)))"

definition progress :: "rat \<Rightarrow> rat \<Rightarrow> rat \<Rightarrow> rat" where
  "progress s d t = rnd64 (rnd64 (rnd64 (t - s) / d) * 100)"

definition score_of :: "rat \<Rightarrow> rat \<Rightarrow> rat" where
  "score_of g p = rnd64 (rnd64 (max 0 (rnd64 (100 - g)) * rnd64 (7 / 10)) + rnd64 (p * rnd64 (3 / 10)))"

lemma milli_num: "fl (1 / 1000) = Fin milli" and milli_range: "0 \<le> milli" "milli \<le> 1 / 500"
  by code_simp+

lemma bonus_range:
  assumes "0 \<le> p" "p \<le> 100"
  shows "- 25 \<le> rnd64 (p - 25)" "rnd64 (p - 25) \<le> 75"
    "- 1 \<le> rnd64 (rnd64 (p - 25) * milli)" "rnd64 (rnd64 (p - 25) * milli) \<le> 1"
    "- 1 \<le> rnd64 (rnd64 (rnd64 (p - 25) * milli) / 75)" "rnd64 (rnd64 (rnd64 (p - 25) * milli) / 75) \<le> 1"
proof -
  show a: "- 25 \<le> rnd64 (p - 25)" and b: "rnd64 (p - 25) \<le> 75"
    using rnd64_ge_int[of "- 25" "p - 25"] rnd64_le_int[of "p - 25" 75] assms by simp_all
  have "- 25 * milli \<le> rnd64 (p - 25) * milli" "rnd64 (p - 25) * milli \<le> 75 * milli"
    using a b milli_range(1) by (intro mult_right_mono; simp)+
  then have "- 1 \<le> rnd64 (p - 25) * milli" "rnd64 (p - 25) * milli \<le> 1"
    using milli_range by linarith+
  then show c: "- 1 \<le> rnd64 (rnd64 (p - 25) * milli)" and d: "rnd64 (rnd64 (p - 25) * milli) \<le> 1"
    using rnd64_ge_int[of "- 1"] rnd64_le_int[of _ 1] by simp_all
  then show "- 1 \<le> rnd64 (rnd64 (rnd64 (p - 25) * milli) / 75)"
    "rnd64 (rnd64 (rnd64 (p - 25) * milli) / 75) \<le> 1"
    using rnd64_ge_int[of "- 1" "rnd64 (rnd64 (p - 25) * milli) / 75"]
      rnd64_le_int[of "rnd64 (rnd64 (p - 25) * milli) / 75" 1] by simp_all
qed

lemma fill_factor_num:
  assumes "0 \<le> p" "p \<le> 100"
  shows "js_add (Fin 1) (js_max (Fin 0) (js_div (js_mul (js_sub (Fin p) (Fin 25)) (fl (1 / 1000))) (Fin 75)))
    = Fin (fill_factor p)"
proof -
  note b = bonus_range[OF assms]
  have 1: "js_sub (Fin p) (Fin 25) = Fin (rnd64 (p - 25))"
    using assms by (simp add: js_sub_def fl_small)
  have 2: "js_mul (Fin (rnd64 (p - 25))) (Fin milli) = Fin (rnd64 (rnd64 (p - 25) * milli))"
  proof -
    have "\<bar>rnd64 (p - 25) * milli\<bar> \<le> 75 * 1"
      unfolding abs_mult using b(1,2) milli_range by (intro mult_mono) auto
    then show ?thesis by (simp add: fl_small)
  qed
  have 3: "js_div (Fin (rnd64 (rnd64 (p - 25) * milli))) (Fin 75)
      = Fin (rnd64 (rnd64 (rnd64 (p - 25) * milli) / 75))"
    using b(3,4) by (simp add: fl_small)
  show ?thesis
    using b(5,6) by (simp add: milli_num 1 2 3 fl_small fill_factor_def del: js_mul.simps js_div.simps)
qed

lemma fill_factor_mono: "p \<le> q \<Longrightarrow> fill_factor p \<le> fill_factor q"
  unfolding fill_factor_def using milli_range
  by (intro b64.mono add_mono max.mono divide_right_mono mult_right_mono) simp_all

lemma fill_factor_small: "p \<le> 25 \<Longrightarrow> fill_factor p = 1"
  using fill_factor_mono[of p 25] rnd64_ge_int[of 1 "1 + max 0 (rnd64 (rnd64 (rnd64 (p - 25) * milli) / 75))"]
  by (simp add: fill_factor_def b64.zero b64.one)

lemma fill_factor_ge_1: "1 \<le> fill_factor p"
  unfolding fill_factor_def using rnd64_ge_int[of 1] by simp

lemma progress_range:
  assumes "0 \<le> s" "s \<le> t1" "t1 \<le> t2" "t2 - s \<le> d" "0 < d" "rnd64 d = d"
  shows "0 \<le> progress s d t1 \<and> progress s d t1 \<le> progress s d t2 \<and> progress s d t2 \<le> 100"
proof -
  have "rnd64 (t2 - s) \<le> d" using b64.le_fixed[OF assms(4,6)] .
  then have "rnd64 (rnd64 (t2 - s) / d) \<le> 1" using rnd64_le_int[of _ 1] assms(5) by simp
  then have "progress s d t2 \<le> 100"
    unfolding progress_def using rnd64_le_int[of _ 100] by simp
  moreover have "0 \<le> progress s d t1"
    unfolding progress_def using assms by (intro b64.nonneg) (simp add: b64.nonneg)
  moreover have "progress s d t1 \<le> progress s d t2"
    unfolding progress_def using assms by (intro b64.mono mult_right_mono divide_right_mono) simp_all
  ultimately show ?thesis by simp
qed

lemma progress_num:
  assumes "0 \<le> s" "s \<le> t" "t - s \<le> d" "0 < d" "rnd64 d = d" "t \<le> 9007199254740992"
  shows "js_mul (js_div (js_sub (Fin t) (Fin s)) (Fin d)) (Fin 100) = Fin (progress s d t)"
proof -
  have x: "0 \<le> rnd64 (t - s)" "rnd64 (t - s) \<le> d"
    using b64.le_fixed[OF assms(3,5)] b64.nonneg[of "t - s"] assms by simp_all
  then have y: "0 \<le> rnd64 (t - s) / d" "rnd64 (t - s) / d \<le> 1" using assms(4) by simp_all
  then have z: "0 \<le> rnd64 (rnd64 (t - s) / d)" "rnd64 (rnd64 (t - s) / d) \<le> 1"
    using b64.nonneg rnd64_le_int[of _ 1] by simp_all
  have 1: "js_sub (Fin t) (Fin s) = Fin (rnd64 (t - s))" using assms by (simp add: js_sub_def fl_small)
  have 2: "js_div (Fin (rnd64 (t - s))) (Fin d) = Fin (rnd64 (rnd64 (t - s) / d))"
    using fl_small[of "rnd64 (t - s) / d"] y assms(4) by simp
  show ?thesis unfolding 1 2 using z by (simp add: fl_small progress_def)
qed

lemma score_weights: "fl (7 / 10) = Fin (rnd64 (7 / 10))" "fl (3 / 10) = Fin (rnd64 (3 / 10))"
  "0 \<le> rnd64 (7 / 10)" "0 \<le> rnd64 (3 / 10)" "rnd64 (7 / 10) \<le> 1" "rnd64 (3 / 10) \<le> 1"
  "score_of 0 100 = 100"
  by code_simp+

lemma score_of_mono: "g1 \<le> g2 \<Longrightarrow> p \<le> q \<Longrightarrow> score_of g2 p \<le> score_of g1 q"
  unfolding score_of_def using score_weights
  by (intro b64.mono add_mono mult_right_mono max.mono) simp_all

lemma score_of_bounds:
  assumes "0 \<le> g" "0 \<le> p" "p \<le> 100" shows "0 \<le> score_of g p \<and> score_of g p \<le> 100"
proof -
  have "0 \<le> score_of g p" unfolding score_of_def using assms score_weights
    by (intro b64.nonneg add_nonneg_nonneg mult_nonneg_nonneg) simp_all
  with score_of_mono[of 0 g p 100] assms score_weights(7) show ?thesis by simp
qed

lemma score_num:
  assumes "0 \<le> g" "g \<le> 100" "0 \<le> p" "p \<le> 100"
  shows "js_add (js_mul (js_max (Fin 0) (js_sub (Fin 100) (Fin g))) (fl (7 / 10))) (js_mul (Fin p) (fl (3 / 10)))
    = Fin (score_of g p)"
proof -
  define m where "m = max 0 (rnd64 (100 - g))"
  have 1: "js_max (Fin 0) (js_sub (Fin 100) (Fin g)) = Fin m"
    using assms by (simp add: js_sub_def fl_small m_def)
  have m: "0 \<le> m" "m \<le> 100" using assms rnd64_le_int[of "100 - g" 100] by (simp_all add: m_def)
  have part: "0 \<le> x * w \<and> x * w \<le> 100" if "0 \<le> x" "x \<le> 100" "0 \<le> w" "w \<le> 1" for x w :: rat
    using that mult_mono[of x 100 w 1] by simp
  have b: "0 \<le> rnd64 (x * w) \<and> rnd64 (x * w) \<le> 100 \<and> js_mul (Fin x) (Fin w) = Fin (rnd64 (x * w))"
    if "0 \<le> x" "x \<le> 100" "0 \<le> w" "w \<le> 1" for x w :: rat
    using part[OF that] rnd64_le_int[of "x * w" 100] b64.nonneg[of "x * w"] fl_small[of "x * w"] by simp
  show ?thesis
    using b[OF m score_weights(3,5)] b[OF assms(3,4) score_weights(4,6)]
    by (simp add: 1 score_weights fl_small score_of_def m_def[symmetric] del: js_mul.simps)
qed

text \<open>The minimum return at a time, as the integer it prints.\<close>

lemma calculateMinReturn_value:
  assumes "auction_ok a" "is_time t" "Fin 0 \<le> endRate a" "startRate a \<le> Fin (10 ^ 15)" "0 \<le> n"
  obtains k where "js_floor (js_mul (getCurrentRate a t) (Fin 1000000)) = Fin (of_int k)" "0 \<le> k"
    "calculateMinReturn (show_int n) a t = Inr (show_int (n * k div 1000000))"
proof -
  note b = rate_between[OF assms(1,2)]
  have lo: "Fin 0 \<le> getCurrentRate a t" using assms(3) b(1) by (rule order_trans)
  have hi: "getCurrentRate a t \<le> Fin (10 ^ 15)" using b(2) assms(4) by (rule order_trans)
  obtain r where r: "getCurrentRate a t = Fin r" using lo hi by (rule Fin_sandwich)
  obtain k where "bigint_of_num (js_floor (js_mul (Fin r) (Fin 1000000))) = Inr k" "0 \<le> k"
    "js_floor (js_mul (Fin r) (Fin 1000000)) = Fin (of_int k)"
    using scaled_rate[of r] lo hi r by auto
  with that[of k] r assms(5) show ?thesis
    by (simp add: calculateMinReturn_def Let_def del: js_mul.simps js_floor.simps)
qed

subsection \<open>Properties\<close>

text \<open>A concrete auction for the witnesses: 500 falling to 450 in steps of 10 a minute.\<close>

definition demo_auction :: DutchAuction where
  "demo_auction = \<lparr>enabled = True, startTimestamp = Fin 1000, duration = Fin 300,
     startRate = Fin 500, endRate = Fin 450, decrementInterval = Fin 60, decrementAmount = Fin 10\<rparr>"

lemma demo_auction_ok: "auction_ok demo_auction"
  by code_simp

text \<open>
  C12. At every time the rate of a sound auction lies between its end rate and its start rate; it
  is the start rate before the auction and the end rate once it is over. The arithmetic is the
  rounded one of the code, and the step and the decrement are arbitrary.
\<close>

theorem getCurrentRate_bounds:
  assumes "auction_ok a" "is_time t"
  shows "endRate a \<le> getCurrentRate a t \<and> getCurrentRate a t \<le> startRate a \<and>
    (t < startTimestamp a \<longrightarrow> getCurrentRate a t = startRate a) \<and>
    (startTimestamp a \<le> t \<and> js_add (startTimestamp a) (duration a) \<le> t
      \<longrightarrow> getCurrentRate a t = endRate a)"
proof -
  obtain s d where "startTimestamp a = Fin s" "duration a = Fin d"
    using assms(1) by (rule auction_okE)
  then have "js_add (startTimestamp a) (duration a) \<noteq> NaN" by simp
  then show ?thesis
    using rate_between[OF assms] by (auto simp: getCurrentRate_cases js_le_iff)
qed

theorem getCurrentRate_bounds_witness:
  "endRate demo_auction \<le> getCurrentRate demo_auction (Fin 1130) \<and>
   getCurrentRate demo_auction (Fin 1130) = Fin 480"
proof -
  have t: "is_time (Fin 1130)" by code_simp
  have v: "getCurrentRate demo_auction (Fin 1130) = Fin 480" by code_simp
  show ?thesis using getCurrentRate_bounds[OF demo_auction_ok t] v by simp
qed

text \<open>
  C25. The rate of a sound auction never rises with time, so that an offer the auction accepts at
  one time is accepted at every later time.
\<close>

theorem getCurrentRate_antimono:
  assumes "auction_ok a" "is_time t1" "is_time t2" "t1 \<le> t2"
  shows "getCurrentRate a t2 \<le> getCurrentRate a t1 \<and>
    (isAcceptableOffer r a t1 \<longrightarrow> isAcceptableOffer r a t2)"
proof -
  note le = rate_falls[OF assms]
  from assms(1) obtain e where "endRate a = Fin e" by (rule auction_okE)
  then have "getCurrentRate a t2 \<noteq> NaN"
    using rate_between(1)[OF assms(1,3)] by (simp add: not_NaN_ge)
  with le show ?thesis by (auto simp: isAcceptableOffer_def js_le_iff)
qed

theorem getCurrentRate_antimono_witness:
  "isAcceptableOffer (Fin 485) demo_auction (Fin 1130) \<and>
   isAcceptableOffer (Fin 485) demo_auction (Fin 1200)"
proof -
  have t: "is_time (Fin 1130)" "is_time (Fin 1200)" "Fin 1130 \<le> Fin 1200" by (code_simp, code_simp, simp)
  have v: "isAcceptableOffer (Fin 485) demo_auction (Fin 1130)" by code_simp
  show ?thesis using getCurrentRate_antimono[OF demo_auction_ok t, of "Fin 485"] v by blast
qed

text \<open>
  C15. For a non-negative amount in decimal form and non-negative rates (at most \<open>10 ^ 15\<close>, so
  that the scaled rate is finite) the minimum return is computed without an error, falls with
  time, and never falls below the one of the end rate.
\<close>

theorem calculateMinReturn_falls:
  assumes "auction_ok a" "is_time t1" "is_time t2" "t1 \<le> t2" "0 \<le> n"
    and "Fin 0 \<le> endRate a" "startRate a \<le> Fin (10 ^ 15)"
  shows "\<exists>m1 m2 k. calculateMinReturn (show_int n) a t1 = Inr (show_int m1)
    \<and> calculateMinReturn (show_int n) a t2 = Inr (show_int m2) \<and> m2 \<le> m1
    \<and> js_floor (js_mul (endRate a) (Fin 1000000)) = Fin (of_int k) \<and> n * k div 1000000 \<le> m2"
proof -
  obtain k1 where k1: "js_floor (js_mul (getCurrentRate a t1) (Fin 1000000)) = Fin (of_int k1)"
    "calculateMinReturn (show_int n) a t1 = Inr (show_int (n * k1 div 1000000))"
    using calculateMinReturn_value[OF assms(1,2,6,7,5)] .
  obtain k2 where k2: "js_floor (js_mul (getCurrentRate a t2) (Fin 1000000)) = Fin (of_int k2)"
    "calculateMinReturn (show_int n) a t2 = Inr (show_int (n * k2 div 1000000))"
    using calculateMinReturn_value[OF assms(1,3,6,7,5)] .
  from assms(1) obtain r e where r: "startRate a = Fin r" and e: "endRate a = Fin e" "e \<le> r"
    by (rule auction_okE)
  have bounds: "e \<le> 10 ^ 15" "0 \<le> e" using assms(6,7) r e by auto
  then obtain k where k: "js_floor (js_mul (endRate a) (Fin 1000000)) = Fin (of_int k)"
    using scaled_rate[of e] e(1) by metis
  have mono: "js_floor (js_mul x (Fin 1000000)) \<le> js_floor (js_mul y (Fin 1000000))"
    if "x \<le> y" "Fin e \<le> x" "y \<le> Fin r" for x y
  proof -
    note xy = that
    obtain u where "x = Fin u" using xy(2) order_trans[OF xy(1,3)] by (rule Fin_sandwich)
    moreover obtain v where "y = Fin v" using order_trans[OF xy(2,1)] xy(3) by (rule Fin_sandwich)
    ultimately show ?thesis using xy(1) by (intro js_floor_mono) (simp add: fl_mono)
  qed
  have "(of_int k2 :: rat) \<le> of_int k1"
    using mono[OF rate_falls[OF assms(1-4)]] rate_between[OF assms(1,3)] rate_between[OF assms(1,2)]
      k1 k2 r e by simp
  moreover have "(of_int k :: rat) \<le> of_int k2"
    using mono[OF rate_between(1)[OF assms(1,3)]] rate_between[OF assms(1,3)] k k2 r e by simp
  ultimately have "n * k2 div 1000000 \<le> n * k1 div 1000000" "n * k div 1000000 \<le> n * k2 div 1000000"
    using assms(5) by (simp_all add: zdiv_mono1 mult_left_mono)
  with k1 k2 k show ?thesis by blast
qed

theorem calculateMinReturn_falls_witness:
  "calculateMinReturn ''1000'' demo_auction (Fin 1130) = Inr ''480000'' \<and>
   (\<exists>m1 m2. calculateMinReturn (show_int 1000) demo_auction (Fin 1130) = Inr (show_int m1) \<and>
     calculateMinReturn (show_int 1000) demo_auction (Fin 1300) = Inr (show_int m2) \<and> m2 \<le> m1)"
proof -
  have t: "is_time (Fin 1130)" "is_time (Fin 1300)" "Fin 1130 \<le> Fin 1300" "(0::int) \<le> 1000"
    by (code_simp, code_simp, simp, simp)
  have r: "Fin 0 \<le> endRate demo_auction" "startRate demo_auction \<le> Fin (10 ^ 15)"
    by (simp_all add: demo_auction_def)
  have v: "calculateMinReturn ''1000'' demo_auction (Fin 1130) = Inr ''480000''" by code_simp
  show ?thesis using calculateMinReturn_falls[OF demo_auction_ok t r] v by blast
qed

text \<open>
  The status of a sound auction is consistent: it is active exactly between its start and its
  end, the share that has passed is a percentage between 0 and 100, the time remaining is not
  negative, and an active auction announces the next drop within one step.
\<close>

theorem getAuctionStatus_consistent:
  assumes "auction_ok a" "is_time t"
  defines "st \<equiv> getAuctionStatus a t"
  shows "(isActive st \<longleftrightarrow> hasStarted st \<and> \<not> hasEnded st) \<and>
    Fin 0 \<le> percentComplete st \<and> percentComplete st \<le> Fin 100 \<and>
    Fin 0 \<le> timeRemaining st \<and>
    (isActive st \<longrightarrow> Fin 0 \<le> nextRateDropIn st \<and> nextRateDropIn st \<le> decrementInterval a) \<and>
    currentRate st = getCurrentRate a t"
proof -
  from assms(1) obtain s d where s: "startTimestamp a = Fin s" "0 \<le> s"
    and d: "duration a = Fin d" "0 < d" by (rule auction_okE)
  from assms(1) obtain i where i: "decrementInterval a = Fin i" "1 \<le> i" "num_ok (Fin i)"
    by (rule auction_okE)
  from assms(2) obtain t' where t: "t = Fin t'" "num_ok (Fin t')" by (rule is_timeE)
  have pct: "Fin 0 \<le> percentComplete st \<and> percentComplete st \<le> Fin 100"
  proof (cases "hasStarted st \<and> \<not> hasEnded st")
    case True
    then have st: "startTimestamp a \<le> t"
      by (auto simp: st_def getAuctionStatus_def Let_def js_le_iff)
    define p where "p = js_mul (js_div (js_sub t (startTimestamp a)) (duration a)) (Fin 100)"
    have p: "Fin 0 \<le> p"
      unfolding p_def using assms(1,2) st by (rule progress_nonneg)
    then have "Fin 0 \<le> js_min (Fin 100) p" "js_min (Fin 100) p \<le> Fin 100"
      using js_min_ge[of "Fin 0" "Fin 100" p] js_min_le[of "Fin 100" p] not_NaN_ge[OF p] by simp_all
    moreover have "percentComplete st = js_min (Fin 100) p"
      using True by (auto simp: st_def getAuctionStatus_def Let_def p_def)
    ultimately show ?thesis by simp
  next
    case False
    then show ?thesis by (auto simp: st_def getAuctionStatus_def Let_def)
  qed
  have rem: "Fin 0 \<le> timeRemaining st"
  proof -
    have "js_sub (js_add (startTimestamp a) (duration a)) t \<noteq> NaN"
      unfolding s(1) d(1) t(1) js_add.simps(1) by (rule js_sub_not_NaN) simp
    then have "Fin 0 \<le> js_max (Fin 0) (js_sub (js_add (startTimestamp a) (duration a)) t)"
      using js_max_ge by blast
    then show ?thesis by (simp only: st_def getAuctionStatus_def Let_def AuctionStatus.simps)
  qed
  have drop: "Fin 0 \<le> nextRateDropIn st \<and> nextRateDropIn st \<le> decrementInterval a" if act: "isActive st"
  proof -
    have "s \<le> t'" using act by (simp add: st_def getAuctionStatus_def Let_def s(1) t(1))
    then obtain x where "js_sub (Fin t') (Fin s) = Fin x" "0 \<le> x"
      using elapsed_between[OF s(2) _ t(2)] by blast
    then have x: "js_sub t (startTimestamp a) = Fin x" "0 \<le> x" by (simp_all only: s(1) t(1))
    obtain m where m: "js_mod (Fin x) (Fin i) = Fin m" "0 \<le> m" "m < i"
      using js_mod_range[OF x(2), of i] i(2) by auto
    have "nextRateDropIn st = fl (i - m)"
      using act x m i(1) by (simp add: st_def getAuctionStatus_def Let_def js_sub_def[of "Fin i"] del: js_mod.simps)
    moreover have "Fin 0 \<le> fl (i - m)" using m by (intro fl_ge_fixed) simp_all
    moreover have "fl (i - m) \<le> Fin i" using m i(3) by (intro fl_le_fixed) simp_all
    ultimately show ?thesis by (simp add: i)
  qed
  have "(isActive st \<longleftrightarrow> hasStarted st \<and> \<not> hasEnded st) \<and> currentRate st = getCurrentRate a t"
    by (simp add: st_def getAuctionStatus_def Let_def)
  with pct rem drop show ?thesis by blast
qed

theorem getAuctionStatus_consistent_witness:
  "isActive (getAuctionStatus demo_auction (Fin 1130)) \<and>
   nextRateDropIn (getAuctionStatus demo_auction (Fin 1130)) \<le> Fin 60 \<and>
   percentComplete (getAuctionStatus demo_auction (Fin 1130)) \<le> Fin 100"
proof -
  have t: "is_time (Fin 1130)" by code_simp
  have v: "isActive (getAuctionStatus demo_auction (Fin 1130))" by code_simp
  show ?thesis using getAuctionStatus_consistent[OF demo_auction_ok t] v
    by (simp add: demo_auction_def)
qed

text \<open>
  The rate for a fill: a fill of at most a quarter gets the current rate, larger fills get a
  bonus that grows with the fill, and the bonus of a full fill is one tenth of a percent.
\<close>

theorem getRateForFill_bonus:
  assumes "0 \<le> p" "p \<le> q" "q \<le> 100" "getCurrentRate a t = Fin r" "num_ok (Fin r)" "0 \<le> r"
  shows "getRateForFill a (Fin p) t \<le> getRateForFill a (Fin q) t \<and>
    (p \<le> 25 \<longrightarrow> getRateForFill a (Fin p) t = getCurrentRate a t) \<and>
    getCurrentRate a t \<le> getRateForFill a (Fin p) t \<and>
    getRateForFill a (Fin q) t \<le> js_mul (getCurrentRate a t) (fl (1001 / 1000))"
proof -
  have rate: "getRateForFill a (Fin x) t = fl (r * fill_factor x)" if "0 \<le> x" "x \<le> 100" for x
    using that assms(4) by (simp add: getRateForFill_def fill_factor_num)
  have "r * fill_factor p \<le> r * fill_factor q" "r * 1 \<le> r * fill_factor p"
    "r * fill_factor q \<le> r * fill_factor 100"
    using fill_factor_mono[of p q] fill_factor_mono[of q 100] fill_factor_ge_1[of p] assms
    by (intro mult_left_mono; simp)+
  then have "fl (r * fill_factor p) \<le> fl (r * fill_factor q)" "fl r \<le> fl (r * fill_factor p)"
    "fl (r * fill_factor q) \<le> fl (r * fill_factor 100)"
    by (simp_all add: fl_mono)
  moreover have "fl (1001 / 1000) = Fin (fill_factor 100)" by code_simp
  moreover have "fl r = Fin r" using assms(5) by (rule fl_fixed)
  ultimately show ?thesis
    using assms(1-4) by (auto simp: rate fill_factor_small)
qed

theorem getRateForFill_bonus_witness:
  "getCurrentRate demo_auction (Fin 1130) \<le> getRateForFill demo_auction (Fin 50) (Fin 1130) \<and>
   getRateForFill demo_auction (Fin 20) (Fin 1130) = Fin 480"
proof -
  have v: "getCurrentRate demo_auction (Fin 1130) = Fin 480" "num_ok (Fin 480)" by code_simp+
  show ?thesis
    using getRateForFill_bonus[of 50 50 demo_auction "Fin 1130" 480]
      getRateForFill_bonus[of 20 20 demo_auction "Fin 1130" 480] v by simp
qed

text \<open>
  The competition score of a fill inside the auction window is between 0 and 100; it falls
  with the time of the fill and grows with the filled percentage.
\<close>

theorem calculateCompetitionScore_range:
  assumes "startTimestamp a = Fin s" "duration a = Fin d" "0 < d" "0 \<le> s"
    and "s \<le> t1" "t1 \<le> t2" "t2 - s \<le> d" "t2 \<le> 9007199254740992" "d \<le> 9007199254740992"
    and "0 \<le> p" "p \<le> q" "q \<le> 100" "rnd64 d = d"
  shows "Fin 0 \<le> calculateCompetitionScore res (Fin t2) (Fin p) a \<and>
    calculateCompetitionScore res (Fin t2) (Fin p) a \<le> calculateCompetitionScore res' (Fin t1) (Fin q) a \<and>
    calculateCompetitionScore res' (Fin t1) (Fin q) a \<le> Fin 100"
proof -
  have prog: "0 \<le> progress s d t1" "progress s d t1 \<le> progress s d t2" "progress s d t2 \<le> 100"
    using progress_range[of s t1 t2 d] assms by simp_all
  have score: "calculateCompetitionScore x (Fin t) (Fin u) a = Fin (score_of (progress s d t) u)"
    if "t = t1 \<or> t = t2" "0 \<le> u" "u \<le> 100" for x t u
    using that assms prog progress_num[of s t d]
    by (auto simp: calculateCompetitionScore_def score_num simp del: js_mul.simps js_div.simps js_add.simps)
  have "0 \<le> score_of (progress s d t2) p"
    "score_of (progress s d t2) p \<le> score_of (progress s d t1) q" "score_of (progress s d t1) q \<le> 100"
    using score_of_mono[of "progress s d t1" "progress s d t2" p q]
      score_of_bounds[of "progress s d t2" p] score_of_bounds[of "progress s d t1" q] prog assms by simp_all
  then show ?thesis using assms by (simp add: score)
qed

theorem calculateCompetitionScore_range_witness:
  "Fin 0 \<le> calculateCompetitionScore ''r1'' (Fin 1200) (Fin 50) demo_auction \<and>
   calculateCompetitionScore ''r1'' (Fin 1200) (Fin 50) demo_auction
     \<le> calculateCompetitionScore ''r2'' (Fin 1100) (Fin 75) demo_auction"
proof -
  have "rnd64 300 = 300" by code_simp
  then show ?thesis
    using calculateCompetitionScore_range[of demo_auction 1000 300 1100 1200 50 75 "''r1''" "''r2''"]
    by (simp add: demo_auction_def)
qed

end
