(* ===== verification/PartialFill.thy ===== *)
theory PartialFill
  imports OrderTypes
begin

section \<open>Secrets and amounts of partial fills\<close>

text \<open>
  The class \<^verbatim>\<open>PartialFillSecretsManager\<close> of \<^verbatim>\<open>backend/order-engine/src/utils/partialFillSecrets.ts\<close>.
  The functions of \<^verbatim>\<open>ethers\<close> and of \<^verbatim>\<open>merkletreejs\<close> are arguments: \<open>keccak256\<close>, \<open>concat_bytes\<close>,
  \<open>getBigInt\<close>, \<open>ethers_id\<close>, and for the tree over given leaves \<open>getHexRoot\<close> and \<open>getHexProof\<close>.
  The random bytes are arguments as well. An index past the end of an array reads \<^verbatim>\<open>undefined\<close>,
  which is \<open>None\<close>.
\<close>

subsection \<open>Definitions\<close>

text \<open>The chain of secrets: each is the hash of its predecessor and a fresh nonce.\<close>

fun derive_secrets :: "(string \<Rightarrow> string) \<Rightarrow> (string \<Rightarrow> string \<Rightarrow> string) \<Rightarrow> string \<Rightarrow> string list \<Rightarrow> string list"
where
  "derive_secrets keccak256 concat_bytes prevSecret [] = []"
| "derive_secrets keccak256 concat_bytes prevSecret (salt # salts) =
     (let childSecret = keccak256 (concat_bytes prevSecret salt)
      in childSecret # derive_secrets keccak256 concat_bytes childSecret salts)"

definition fill_thresholds :: "nat \<Rightarrow> jsnum list" where
  "fill_thresholds parts =
     map (\<lambda>i. js_div (js_mul (Fin (of_nat i)) (Fin 100)) (Fin (of_nat parts))) [1..<Suc parts]"

text \<open>\<open>nonces i\<close> are the random bytes drawn in round \<open>i\<close> of the loop.\<close>

definition generateSecrets ::
  "(string \<Rightarrow> string) \<Rightarrow> (string \<Rightarrow> string \<Rightarrow> string) \<Rightarrow> (string list \<Rightarrow> string) \<Rightarrow>
   (string list \<Rightarrow> string \<Rightarrow> string list) \<Rightarrow> string \<Rightarrow> (nat \<Rightarrow> string) \<Rightarrow> nat \<Rightarrow> PartialFillSecrets"
where
  "generateSecrets keccak256 concat_bytes getHexRoot getHexProof rootSecret nonces parts =
     (let secretCount = parts + 1;
          secs = rootSecret #
            derive_secrets keccak256 concat_bytes rootSecret (map nonces [1..<secretCount]);
          secretHashes = map keccak256 secs;
          proofs = map (getHexProof secretHashes) secretHashes
      in \<lparr>merkleRoot = getHexRoot secretHashes, secrets = secs, merkleProofs = proofs,
          fillThresholds = fill_thresholds parts\<rparr>)"

fun getSecretIndex :: "jsnum \<Rightarrow> jsnum list \<Rightarrow> nat" where
  "getSecretIndex cumulativeFill [] = 0"
| "getSecretIndex cumulativeFill (threshold # rest) =
     (if js_le cumulativeFill threshold then 0
      else Suc (getSecretIndex cumulativeFill rest))"

text \<open>\<open>verify proof leaf root\<close> is the method of an empty tree with sorted pairs.\<close>

definition verifySecret ::
  "(string \<Rightarrow> string) \<Rightarrow> (string list \<Rightarrow> string \<Rightarrow> string \<Rightarrow> bool) \<Rightarrow> string \<Rightarrow> string \<Rightarrow> string list \<Rightarrow> bool"
where
  "verifySecret keccak256 verify_sorted secret treeRoot proof =
     (let secretHash = keccak256 secret in verify_sorted proof secretHash treeRoot)"

definition nth_opt :: "'a list \<Rightarrow> nat \<Rightarrow> 'a option" where
  "nth_opt xs i = (if i < length xs then Some (xs ! i) else None)"

definition getSecretForFill ::
  "string list \<Rightarrow> jsnum \<Rightarrow> jsnum \<Rightarrow> jsnum list \<Rightarrow> string option \<times> nat" where
  "getSecretForFill secs currentFillPercentage newFillPercentage thresholds =
     (let cumulativeFill = js_add currentFillPercentage newFillPercentage;
          index = getSecretIndex cumulativeFill thresholds
      in (nth_opt secs index, index))"

definition calculatePartialAmount :: "(string \<Rightarrow> int res) \<Rightarrow> string \<Rightarrow> jsnum \<Rightarrow> string res" where
  "calculatePartialAmount getBigInt totalAmount pct =
     bind_res (getBigInt totalAmount) (\<lambda>total.
     bind_res (bigint_of_num (js_floor (js_mul pct (Fin 100)))) (\<lambda>basis.
     bind_res (big_div (total * basis) 10000) (\<lambda>partial.
     Inr (show_int partial))))"

definition generatePartialEscrowId :: "(string \<Rightarrow> string) \<Rightarrow> string \<Rightarrow> nat \<Rightarrow> string" where
  "generatePartialEscrowId ethers_id baseOrderId fillIndex =
     ethers_id (baseOrderId @ ''-partial-'' @ show_nat fillIndex)"

subsection \<open>Choosing a secret\<close>

lemma getSecretIndex_le: "getSecretIndex c ts \<le> length ts"
  by (induction ts) simp_all

lemma getSecretIndex_passed: "i < getSecretIndex c ts \<Longrightarrow> \<not> js_le c (ts ! i)"
  by (induction ts arbitrary: i) (auto simp: nth_Cons split: if_splits nat.splits)

lemma getSecretIndex_hit: "getSecretIndex c ts < length ts \<Longrightarrow> js_le c (ts ! getSecretIndex c ts)"
  by (induction ts) auto

lemma getSecretIndex_mono: "c \<le> c' \<Longrightarrow> c' \<noteq> NaN \<Longrightarrow> getSecretIndex c ts \<le> getSecretIndex c' ts"
  by (induction ts) (auto simp: js_le_iff)

lemma getSecretIndex_least:
  assumes "i < length ts" "js_le c (ts ! i)" shows "getSecretIndex c ts \<le> i"
  using getSecretIndex_passed[of i c ts] assms by (meson not_le)

lemma length_derive_secrets [simp]: "length (derive_secrets k cb s ns) = length ns"
  by (induction ns arbitrary: s) (simp_all add: Let_def)

lemma length_fill_thresholds [simp]: "length (fill_thresholds n) = n"
  by (simp add: fill_thresholds_def)

lemma length_generated_secrets [simp]:
  "length (secrets (generateSecrets k cb r p s ns n)) = Suc n"
  "fillThresholds (generateSecrets k cb r p s ns n) = fill_thresholds n"
  by (simp_all add: generateSecrets_def Let_def)

lemma derive_secrets_chain:
  "Suc i < length (s # derive_secrets k cb s ns) \<Longrightarrow>
   (s # derive_secrets k cb s ns) ! Suc i = k (cb ((s # derive_secrets k cb s ns) ! i) (ns ! i))"
  by (induction ns arbitrary: s i) (auto simp: Let_def nth_Cons split: nat.splits)

subsection \<open>Thresholds\<close>

lemma rnd64_strict:
  assumes "1 \<le> x" "x + 1 \<le> y" "y \<le> 100"
  shows "rnd64 x < rnd64 y"
proof -
  have err: "\<bar>rnd64 z - z\<bar> \<le> 1 / 4" if "1 \<le> z" "z \<le> 100" for z
  proof -
    have "\<not> bexp z < 0"
    proof
      assume "bexp z < 0"
      then have "(2::rat) powi (bexp z + 1) \<le> 2 powi 0" by (intro power_int_increasing) auto
      with bexp_bounds[of z] that show False by simp
    qed
    then have "ulp z \<le> \<bar>z\<bar> / 2 ^ 52" using that by (intro ulp_le_relative) auto
    also have "\<dots> \<le> 100 / 2 ^ 52" using that by (intro divide_right_mono) auto
    finally show ?thesis using rnd64_error[of z] by simp
  qed
  show ?thesis using err[of x] err[of y] assms by linarith
qed

lemma fill_threshold_value:
  assumes "k < n" "n \<le> 100"
  shows "fill_thresholds n ! k = Fin (rnd64 (of_nat (Suc k) * 100 / of_nat n))"
    "1 \<le> (of_nat (Suc k) * 100 / of_nat n :: rat)" "(of_nat (Suc k) * 100 / of_nat n :: rat) \<le> 100"
proof -
  have k: "Suc k \<le> n" "0 < n" using assms by simp_all
  show lo: "1 \<le> (of_nat (Suc k) * 100 / of_nat n :: rat)"
    using assms k by (simp add: le_divide_eq)
  have "(of_nat (Suc k) :: rat) \<le> of_nat n" using k by (simp only: of_nat_le_iff)
  then show hi: "(of_nat (Suc k) * 100 / of_nat n :: rat) \<le> 100"
    using k by (simp add: divide_le_eq)
  have "fl (of_nat (Suc k) * 100) = fl (of_int (int (Suc k) * 100))" by simp
  also have "\<dots> = Fin (of_int (int (Suc k) * 100))"
    using assms by (intro fl_of_int) simp
  finally have m: "js_mul (Fin (of_nat (Suc k))) (Fin 100) = Fin (of_nat (Suc k) * 100)" by simp
  have "fill_thresholds n ! k = js_div (js_mul (Fin (of_nat (Suc k))) (Fin 100)) (Fin (of_nat n))"
    using assms(1) by (simp add: fill_thresholds_def del: upt_Suc of_nat_Suc)
  then show "fill_thresholds n ! k = Fin (rnd64 (of_nat (Suc k) * 100 / of_nat n))"
    unfolding m using fl_small[of "of_nat (Suc k) * 100 / of_nat n", OF _ order_trans[OF hi]]
      order_trans[OF _ lo, of "- 9007199254740992"] k by (simp del: of_nat_Suc)
qed

lemma fill_thresholds_strict:
  assumes "j < k" "k < n" "n \<le> 100"
  shows "\<not> js_le (fill_thresholds n ! k) (fill_thresholds n ! j)"
proof -
  have "Suc j * 100 + n \<le> Suc k * 100" using assms by simp
  then have "(of_nat (Suc j * 100 + n) :: rat) \<le> of_nat (Suc k * 100)" by (simp only: of_nat_le_iff)
  then have "(of_nat (Suc j) * 100 + of_nat n :: rat) \<le> of_nat (Suc k) * 100"
    by (simp only: of_nat_mult of_nat_add of_nat_numeral)
  then have "(of_nat (Suc j) * 100 + of_nat n :: rat) / of_nat n \<le> of_nat (Suc k) * 100 / of_nat n"
    by (rule divide_right_mono) simp
  moreover have "(of_nat (Suc j) * 100 + of_nat n :: rat) / of_nat n = of_nat (Suc j) * 100 / of_nat n + 1"
    using assms by (simp add: add_divide_distrib)
  ultimately have "rnd64 (of_nat (Suc j) * 100 / of_nat n) < rnd64 (of_nat (Suc k) * 100 / of_nat n)"
    using fill_threshold_value[of j n] fill_threshold_value[of k n] assms by (intro rnd64_strict) simp_all
  then show ?thesis using fill_threshold_value(1)[of j n] fill_threshold_value(1)[of k n] assms by simp
qed

subsection \<open>Amounts\<close>

text \<open>The basis points a percentage is cut to.\<close>

definition basis_points :: "rat \<Rightarrow> int" where
  "basis_points p = \<lfloor>rnd64 (p * 100)\<rfloor>"

lemma basis_points_range: "0 \<le> p \<Longrightarrow> p \<le> 100 \<Longrightarrow> 0 \<le> basis_points p \<and> basis_points p \<le> 10000"
  unfolding basis_points_def using b64.nonneg[of "p * 100"] rnd64_le_int[of "p * 100" 10000]
  by (simp add: floor_le_iff)

lemma basis_points_mono: "p \<le> q \<Longrightarrow> basis_points p \<le> basis_points q"
  unfolding basis_points_def by (intro floor_mono b64.mono) simp

lemma basis_points_of_int: "\<bar>k\<bar> \<le> 1000000 \<Longrightarrow> basis_points (of_int k) = k * 100"
proof -
  assume "\<bar>k\<bar> \<le> 1000000"
  then have "rnd64 (of_int (k * 100)) = of_int (k * 100)" by (intro b64.exact_int) simp
  then have "basis_points (of_int k) = \<lfloor>of_int (k * 100) :: rat\<rfloor>" by (simp add: basis_points_def)
  then show ?thesis by (simp only: floor_of_int)
qed

lemma calculatePartialAmount_value:
  assumes "getBigInt T = Inr n" "0 \<le> n" "0 \<le> p" "p \<le> 100"
  shows "calculatePartialAmount getBigInt T (Fin p) = Inr (show_int (n * basis_points p div 10000))"
proof -
  have "js_mul (Fin p) (Fin 100) = Fin (rnd64 (p * 100))" using assms fl_small[of "p * 100"] by simp
  then show ?thesis
    using assms basis_points_range[of p]
    by (simp add: calculatePartialAmount_def basis_points_def del: js_mul.simps)
qed

lemma split_shares:
  fixes n :: int
  assumes "0 \<le> n" "\<forall>k \<in> set ks. 0 \<le> k"
  shows "(\<Sum>k\<leftarrow>ks. n * k div 10000) \<le> n * sum_list ks div 10000"
    "n * sum_list ks div 10000 \<le> (\<Sum>k\<leftarrow>ks. n * k div 10000) + int (length ks)"
proof -
  have "10000 * (\<Sum>k\<leftarrow>ks. n * k div 10000) \<le> n * sum_list ks"
    by (induction ks) (simp_all add: distrib_left add_mono)
  then show "(\<Sum>k\<leftarrow>ks. n * k div 10000) \<le> n * sum_list ks div 10000" by linarith
  have "n * sum_list ks \<le> 10000 * (\<Sum>k\<leftarrow>ks. n * k div 10000) + 9999 * int (length ks)"
  proof (induction ks)
    case (Cons k ks)
    have "n * k \<le> 10000 * (n * k div 10000) + 9999" by linarith
    with Cons show ?case by (simp add: distrib_left)
  qed simp
  then show "n * sum_list ks div 10000 \<le> (\<Sum>k\<leftarrow>ks. n * k div 10000) + int (length ks)" by linarith
qed

subsection \<open>Escrow ids\<close>

lemma append_digits_inject:
  assumes "a @ CHR ''-'' # ds = b @ CHR ''-'' # es" "\<forall>c \<in> set ds. is_digit c" "\<forall>c \<in> set es. is_digit c"
  shows "a = b \<and> ds = es"
proof -
  have nd: "\<not> is_digit (CHR ''-'')" by code_simp
  have "takeWhile is_digit (rev (a @ CHR ''-'' # ds)) = rev ds"
    if "\<forall>c \<in> set ds. is_digit c" for a ds
    using that nd takeWhile_append2[of "rev ds" is_digit "CHR ''-'' # rev a"] by simp
  from this[of ds a] this[of es b] assms show ?thesis by simp
qed

subsection \<open>Properties\<close>

text \<open>
  C30. The secrets generated for an order of \<open>n\<close> parts (at most a hundred) and the choice of a
  secret agree: there are \<open>n + 1\<close> secrets, so that every cumulative percentage selects one, and a
  fill that reaches the threshold of part \<open>k\<close> selects the secret number \<open>k\<close> and none before it.
\<close>

theorem generateSecrets_covers_fills:
  assumes "n \<le> 100"
    and g_def: "g = generateSecrets keccak256 concat_bytes getHexRoot getHexProof rootSecret salts n"
  shows "length (secrets g) = n + 1 \<and>
    (\<forall>cur new. \<exists>x. fst (getSecretForFill (secrets g) cur new (fillThresholds g)) = Some x) \<and>
    (\<forall>k < n. getSecretIndex (fillThresholds g ! k) (fillThresholds g) = k)"
proof (intro conjI allI impI)
  show "length (secrets g) = n + 1" by (simp add: g_def)
  show "\<exists>x. fst (getSecretForFill (secrets g) cur new (fillThresholds g)) = Some x" for cur new
    using getSecretIndex_le[of "js_add cur new" "fill_thresholds n"]
    by (simp add: g_def getSecretForFill_def Let_def nth_opt_def)
  fix k assume k: "k < n"
  have "getSecretIndex (fill_thresholds n ! k) (fill_thresholds n) \<le> k"
    using k fill_threshold_value(1)[OF k assms(1)] by (intro getSecretIndex_least) simp_all
  moreover have "\<not> getSecretIndex (fill_thresholds n ! k) (fill_thresholds n) < k"
    using getSecretIndex_hit[of "fill_thresholds n ! k" "fill_thresholds n"] k
      fill_thresholds_strict[OF _ k assms(1)] by auto
  ultimately show "getSecretIndex (fillThresholds g ! k) (fillThresholds g) = k" by (simp add: g_def)
qed

theorem generateSecrets_covers_fills_witness:
  "getSecretIndex (fill_thresholds 4 ! 2) (fill_thresholds 4) = 2 \<and>
   fill_thresholds 4 = [Fin 25, Fin 50, Fin 75, Fin 100]"
proof -
  have "fill_thresholds 4 = [Fin 25, Fin 50, Fin 75, Fin 100]" by code_simp
  then show ?thesis
    using generateSecrets_covers_fills[OF _ refl, of 4 id "(@)" concat "\<lambda>ls x. []" "''s''" "\<lambda>i. ''n''"] by simp
qed

text \<open>
  C29. Partial amounts: for a total \<open>n\<close> and percentages between 0 and 100 every partial amount is
  computed without an error, the amounts of fills whose basis points sum to at most 10000 never
  exceed the total, a full fill is the total, and fills that sum to exactly 10000 basis points lose at
  most one unit each to rounding.
\<close>

theorem calculatePartialAmount_conserves:
  assumes "getBigInt T = Inr n" "0 \<le> n" "\<forall>p \<in> set ps. 0 \<le> p \<and> p \<le> 100"
    and "(\<Sum>p\<leftarrow>ps. basis_points p) \<le> 10000"
  shows "\<exists>ms. map (\<lambda>p. calculatePartialAmount getBigInt T (Fin p)) ps = map (\<lambda>m. Inr (show_int m)) ms
    \<and> (\<forall>m \<in> set ms. 0 \<le> m) \<and> sum_list ms \<le> n
    \<and> ((\<Sum>p\<leftarrow>ps. basis_points p) = 10000 \<longrightarrow> n \<le> sum_list ms + int (length ps))
    \<and> calculatePartialAmount getBigInt T (Fin 100) = Inr (show_int n)"
proof (intro exI conjI impI)
  let ?ms = "map (\<lambda>p. n * basis_points p div 10000) ps"
  have b: "0 \<le> basis_points p" if "p \<in> set ps" for p using basis_points_range assms(3) that by blast
  show "map (\<lambda>p. calculatePartialAmount getBigInt T (Fin p)) ps = map (\<lambda>m. Inr (show_int m)) ?ms"
    using calculatePartialAmount_value[of getBigInt T n] assms(1-3) by simp
  show "\<forall>m \<in> set ?ms. 0 \<le> m" using b assms(2) by (auto intro!: divide_nonneg_nonneg simp: pos_imp_zdiv_nonneg_iff)
  have ks: "\<forall>k \<in> set (map basis_points ps). 0 \<le> k" using b by simp
  have "n * (\<Sum>p\<leftarrow>ps. basis_points p) div 10000 \<le> n * 10000 div 10000"
    using assms(2,4) by (intro zdiv_mono1 mult_left_mono) simp_all
  then show "sum_list ?ms \<le> n"
    using split_shares(1)[OF assms(2) ks] by (simp add: comp_def)
  show "n \<le> sum_list ?ms + int (length ps)" if "(\<Sum>p\<leftarrow>ps. basis_points p) = 10000"
    using split_shares(2)[OF assms(2) ks] that by (simp add: comp_def)
  show "calculatePartialAmount getBigInt T (Fin 100) = Inr (show_int n)"
    using calculatePartialAmount_value[of getBigInt T n 100] assms(1,2) basis_points_of_int[of 100] by simp
qed

theorem calculatePartialAmount_conserves_witness:
  "calculatePartialAmount js_BigInt ''1001'' (Fin 25) = Inr ''250'' \<and>
   calculatePartialAmount js_BigInt ''1001'' (Fin 100) = Inr ''1001''"
proof -
  have v: "js_BigInt ''1001'' = Inr 1001" "basis_points 25 = 2500" "show_int 1001 = ''1001''"
    "calculatePartialAmount js_BigInt ''1001'' (Fin 25) = Inr ''250''" by code_simp+
  show ?thesis
    using calculatePartialAmount_conserves[of js_BigInt "''1001''" 1001 "[25, 25, 25, 25]"] v by auto
qed

text \<open>
  C23. Two partial escrows have the same id only when they are the same fill of the same order, or
  when the hash behind \<open>ethers.id\<close> has a collision.
\<close>

theorem generatePartialEscrowId_unique:
  assumes "generatePartialEscrowId ethers_id b i = generatePartialEscrowId ethers_id c j"
  shows "(b = c \<and> i = j) \<or> (\<exists>x y. x \<noteq> y \<and> ethers_id x = ethers_id y)"
proof (cases "b @ ''-partial-'' @ show_nat i = c @ ''-partial-'' @ show_nat j")
  case True
  then have "(b @ ''-partial'') @ CHR ''-'' # show_nat i = (c @ ''-partial'') @ CHR ''-'' # show_nat j" by simp
  then have "b @ ''-partial'' = c @ ''-partial'' \<and> show_nat i = show_nat j"
    by (rule append_digits_inject) (auto dest: show_nat_digits)
  then show ?thesis using show_int_inject[of "int i" "int j"] by (simp add: show_int_def)
next
  case False
  with assms show ?thesis unfolding generatePartialEscrowId_def by blast
qed

theorem generatePartialEscrowId_unique_witness:
  "generatePartialEscrowId id ''o1'' 3 = generatePartialEscrowId id ''o1'' (2 + 1) \<and>
   generatePartialEscrowId id ''o1'' 12 \<noteq> generatePartialEscrowId id ''o1'' 2"
  using generatePartialEscrowId_unique[of id "''o1''" 3 "''o1''" "2 + 1"]
    generatePartialEscrowId_unique[of id "''o1''" 12 "''o1''" 2] by (auto simp: eval_nat_numeral)

end
