(* ===== verification/Signature.thy ===== *)
theory Signature
  imports OrderTypes
begin

section \<open>Order signatures\<close>

text \<open>
  \<^verbatim>\<open>backend/order-engine/src/utils/signature.ts\<close>. The recovery of a signer from typed data
  (\<^verbatim>\<open>ethers.verifyTypedData\<close>), the hash and the ABI encoder are arguments and may fail; the typed data
  itself, its domain and its two schemas, is built here as the code builds it.
\<close>

datatype eip_value = EStr string | ENum jsnum | EBool bool

record EIP712Domain =
  domain_name :: string
  domain_version :: string
  domain_chainId :: int

definition EIP712_DOMAIN :: EIP712Domain where
  "EIP712_DOMAIN = \<lparr>domain_name = ''FusionPlusAptos'', domain_version = ''1'', domain_chainId = 11155111\<rparr>"

definition ORDER_TYPE :: "(string \<times> string) list" where
  "ORDER_TYPE =
     [(''fromChain'', ''string''), (''toChain'', ''string''), (''fromToken'', ''string''),
      (''toToken'', ''string''), (''fromAmount'', ''uint256''), (''minToAmount'', ''uint256''),
      (''maker'', ''string''), (''receiver'', ''string''), (''deadline'', ''uint256''),
      (''nonce'', ''uint256''), (''partialFillAllowed'', ''bool'')]"

definition ORDER_TYPE_WITH_PERMIT :: "(string \<times> string) list" where
  "ORDER_TYPE_WITH_PERMIT =
     [(''fromChain'', ''string''), (''toChain'', ''string''), (''fromToken'', ''string''),
      (''toToken'', ''string''), (''fromAmount'', ''uint256''), (''minToAmount'', ''uint256''),
      (''maker'', ''string''), (''receiver'', ''string''), (''deadline'', ''uint256''),
      (''nonce'', ''uint256''), (''partialFillAllowed'', ''bool''), (''permitHash'', ''bytes32'')]"

fun show_chain :: "Chain \<Rightarrow> string" where
  "show_chain ETHEREUM = ''ETHEREUM''"
| "show_chain APTOS = ''APTOS''"

text \<open>The eleven signed properties of an order, in the order of the object literal.\<close>

definition signed_values :: "'a CreateOrderDto_scheme \<Rightarrow> (string \<times> eip_value) list" where
  "signed_values order =
     [(''fromChain'', EStr (show_chain (fromChain order))), (''toChain'', EStr (show_chain (toChain order))),
      (''fromToken'', EStr (fromToken order)), (''toToken'', EStr (toToken order)),
      (''fromAmount'', EStr (fromAmount order)), (''minToAmount'', EStr (minToAmount order)),
      (''maker'', EStr (maker order)), (''receiver'', EStr (receiver order)),
      (''deadline'', ENum (deadline order)), (''nonce'', EStr (nonce order)),
      (''partialFillAllowed'', EBool (partialFillAllowed order))]"

type_synonym verifier =
  "EIP712Domain \<Rightarrow> (string \<times> string) list \<Rightarrow> (string \<times> eip_value) list \<Rightarrow> string \<Rightarrow> string res"

definition validateEthereumSignature ::
  "verifier \<Rightarrow> (string \<Rightarrow> string) \<Rightarrow> (Permit \<Rightarrow> string res) \<Rightarrow> 'a CreateOrderDto_scheme \<Rightarrow> bool"
where
  "validateEthereumSignature verifyTypedData keccak256 encodePermit order =
     (case (case permit order of
              None \<Rightarrow> verifyTypedData EIP712_DOMAIN ORDER_TYPE (signed_values order) (signature order)
            | Some pm \<Rightarrow> bind_res (encodePermit pm) (\<lambda>bytes.
                verifyTypedData EIP712_DOMAIN ORDER_TYPE_WITH_PERMIT
                  (signed_values order @ [(''permitHash'', EStr (keccak256 bytes))]) (signature order)))
      of Inl e \<Rightarrow> False
       | Inr recoveredAddress \<Rightarrow> toLowerCase recoveredAddress = toLowerCase (maker order))"

definition validateAptosSignature :: "'a CreateOrderDto_scheme \<Rightarrow> bool" where
  "validateAptosSignature order \<longleftrightarrow> signature order = ''0x00''"

definition validateOrderSignature ::
  "verifier \<Rightarrow> (string \<Rightarrow> string) \<Rightarrow> (Permit \<Rightarrow> string res) \<Rightarrow> 'a CreateOrderDto_scheme \<Rightarrow> bool"
where
  "validateOrderSignature verifyTypedData keccak256 encodePermit order =
     (if (fromChain order = APTOS \<or> toChain order = APTOS) \<and> signature order = ''0x00'' then True
      else if fromChain order = ETHEREUM
        then validateEthereumSignature verifyTypedData keccak256 encodePermit order
      else if fromChain order = APTOS then validateAptosSignature order
      else False)"

definition generateOrderHash ::
  "(string \<Rightarrow> string) \<Rightarrow> (eip_value list \<Rightarrow> string res) \<Rightarrow> 'a CreateOrderDto_scheme \<Rightarrow> string res"
where
  "generateOrderHash keccak256 encodeTuple order =
     bind_res (encodeTuple (map snd (signed_values order))) (\<lambda>bytes. Inr (keccak256 bytes))"

subsection \<open>Properties\<close>

text \<open>
  C37. What an accepted signature means. An order between Ethereum accounts is accepted exactly
  when the typed data of its schema recovers to its maker, up to the case of the address. An order
  that touches Aptos is accepted with the marker \<open>0x00\<close> whoever its maker is, and an order from
  Aptos in no other way.
\<close>

theorem validateOrderSignature_iff:
  "validateOrderSignature verifyTypedData keccak256 encodePermit order \<longleftrightarrow>
   ((fromChain order = APTOS \<or> toChain order = APTOS) \<and> signature order = ''0x00'') \<or>
   (fromChain order = ETHEREUM \<and>
    (\<exists>types vals signer.
       (case permit order of
          None \<Rightarrow> types = ORDER_TYPE \<and> vals = signed_values order
        | Some pm \<Rightarrow> types = ORDER_TYPE_WITH_PERMIT \<and> (\<exists>bytes. encodePermit pm = Inr bytes \<and>
            vals = signed_values order @ [(''permitHash'', EStr (keccak256 bytes))])) \<and>
       map fst vals = map fst types \<and>
       verifyTypedData EIP712_DOMAIN types vals (signature order) = Inr signer \<and>
       toLowerCase signer = toLowerCase (maker order)))"
proof -
  have keys: "map fst (signed_values order) = map fst ORDER_TYPE"
    "map fst ORDER_TYPE_WITH_PERMIT = map fst ORDER_TYPE @ [''permitHash'']"
    by (simp_all add: signed_values_def ORDER_TYPE_def ORDER_TYPE_WITH_PERMIT_def)
  show ?thesis
  proof (cases "permit order")
    case None
    then show ?thesis
      by (cases "fromChain order")
        (auto simp: validateOrderSignature_def validateEthereumSignature_def validateAptosSignature_def keys
          split: sum.splits)
  next
    case (Some pm)
    then show ?thesis
      by (cases "fromChain order"; cases "encodePermit pm")
        (auto simp: validateOrderSignature_def validateEthereumSignature_def validateAptosSignature_def keys
          split: sum.splits)
  qed
qed

text \<open>
  The signature covers eleven properties and the permit, and nothing else: replacing the hash
  locks, the auction, the partial fill secrets or the gasless data of an accepted order leaves it
  accepted.
\<close>

theorem validateOrderSignature_unsigned_fields:
  "validateOrderSignature verifyTypedData keccak256 encodePermit
     (order\<lparr>secretHash := h, secretHashes := hs, partialFillSecrets := ps, dutchAuction := au,
       partialFillEnabled := pe, maxParts := mp, activeResolvers := ar, permitSignature := psig,
       gasless := g, gaslessData := gd\<rparr>)
   = validateOrderSignature verifyTypedData keccak256 encodePermit order"
  by (cases "permit order")
    (simp_all add: validateOrderSignature_def validateEthereumSignature_def validateAptosSignature_def
      signed_values_def split: sum.splits)

end
