(* ===== verification/OrderService.thy ===== *)
theory OrderService
  imports OrderTypes Signature
begin

section \<open>The order book\<close>

text \<open>
  The class \<^verbatim>\<open>OrderService\<close> of \<^verbatim>\<open>backend/order-engine/src/services/OrderService.ts\<close>: its two maps, and
  the events it has emitted, oldest first. A method takes the state and returns its result, or the
  error it throws, with the state it leaves, so that what was written before a throw stays
  written. The id drawn by \<^verbatim>\<open>uuidv4()\<close>, the time (one instant per call, in milliseconds) and the
  verdict of \<open>validateOrderSignature\<close> are arguments.
\<close>

subsection \<open>State and events\<close>

datatype EngineEvent =
    newOrder Order
  | orderFill Order Fill
  | fillStatusUpdate Order Fill
  | orderCancelled Order
  | orderUpdate Order
  | orderExpired Order

record engine =
  orders :: "(string, Order) jsmap"
  ordersByMaker :: "(string, string jsset) jsmap"
  emitted :: "EngineEvent list"

definition engine_init :: engine where
  "engine_init = \<lparr>orders = [], ordersByMaker = [], emitted = []\<rparr>"

definition emit :: "EngineEvent \<Rightarrow> engine \<Rightarrow> engine" where
  "emit ev s = s\<lparr>emitted := emitted s @ [ev]\<rparr>"

definition put_order :: "Order \<Rightarrow> string \<Rightarrow> engine \<Rightarrow> engine" where
  "put_order order orderId s = s\<lparr>orders := map_set (orders s) orderId order\<rparr>"

subsection \<open>Creating and reading orders\<close>

definition createOrder :: "bool \<Rightarrow> int \<Rightarrow> string \<Rightarrow> CreateOrderDto \<Rightarrow> engine \<Rightarrow> Order res \<times> engine" where
  "createOrder isValid now uuid dto s =
     (if \<not> isValid then (Inl (Error ''Invalid order signature''), s)
      else if js_lt (js_mul (deadline dto) (Fin 1000)) (Fin (of_int now))
        then (Inl (Error ''Order deadline has passed''), s)
      else
        let order = CreateOrderDto.extend dto
              (Order.fields uuid PENDING ''0'' (Fin 0) now now []);
            ids = (case map_get (ordersByMaker s) (maker dto) of None \<Rightarrow> [] | Some ids \<Rightarrow> ids)
        in (Inr order, emit (newOrder order)
             (s\<lparr>orders := map_set (orders s) uuid order,
                ordersByMaker := map_set (ordersByMaker s) (maker dto) (set_add ids uuid)\<rparr>)))"

definition getOrder :: "string \<Rightarrow> engine \<Rightarrow> Order option" where
  "getOrder orderId s = map_get (orders s) orderId"

definition getOrdersByMaker :: "string \<Rightarrow> engine \<Rightarrow> Order list" where
  "getOrdersByMaker mk s =
     List.map_filter (\<lambda>i. map_get (orders s) i)
       (case map_get (ordersByMaker s) mk of None \<Rightarrow> [] | Some ids \<Rightarrow> ids)"

definition getActiveOrders :: "engine \<Rightarrow> Order list" where
  "getActiveOrders s =
     filter (\<lambda>order. order_status order = PENDING \<or> order_status order = PARTIALLY_FILLED)
       (map_values (orders s))"

subsection \<open>Fills\<close>

text \<open>The two reductions over the fills of an order.\<close>

fun total_percentage :: "jsnum \<Rightarrow> Fill list \<Rightarrow> jsnum" where
  "total_percentage acc [] = acc"
| "total_percentage acc (f # fs) =
     total_percentage (js_add acc (case fillPercentage f of None \<Rightarrow> Fin 0 | Some p \<Rightarrow> js_or0 p)) fs"

fun total_amount :: "string \<Rightarrow> Fill list \<Rightarrow> string res" where
  "total_amount acc [] = Inr acc"
| "total_amount acc (f # fs) =
     bind_res (js_BigInt acc) (\<lambda>a. bind_res (js_BigInt (fill_amount f)) (\<lambda>b.
     total_amount (show_int (a + b)) fs))"

text \<open>
  The filled amount and percentage after a fill has been appended: the error, if one is thrown,
  and the order with the properties assigned so far.
\<close>

definition update_filled :: "Order \<Rightarrow> js_error option \<times> Order" where
  "update_filled order =
     (if fills order \<noteq> [] then
        if fromChain order \<noteq> toChain order \<and> (\<exists>f \<in> set (fills order). fillPercentage f \<noteq> None) then
          let order1 = order\<lparr>filledPercentage := js_min (total_percentage (Fin 0) (fills order)) (Fin 100)\<rparr>
          in case bind_res (js_BigInt (fromAmount order)) (\<lambda>total.
                  bind_res (bigint_of_num (js_floor (filledPercentage order1))) (\<lambda>pct.
                  big_div (total * pct) 100)) of
               Inl e \<Rightarrow> (Some e, order1)
             | Inr amount \<Rightarrow> (None, order1\<lparr>filledAmount := show_int amount\<rparr>)
        else
          case total_amount ''0'' (fills order) of
            Inl e \<Rightarrow> (Some e, order)
          | Inr totalFilled \<Rightarrow>
              let order1 = order\<lparr>filledAmount := totalFilled\<rparr>
              in case bind_res (js_BigInt totalFilled) (\<lambda>total.
                      bind_res (js_BigInt (fromAmount order)) (\<lambda>from.
                      big_div (total * 100) from)) of
                   Inl e \<Rightarrow> (Some e, order1)
                 | Inr pct \<Rightarrow> (None, order1\<lparr>filledPercentage := num_of_bigint pct\<rparr>)
      else (None, order\<lparr>filledAmount := ''0'', filledPercentage := Fin 0\<rparr>))"

definition update_status :: "Order \<Rightarrow> Order" where
  "update_status order =
     (if filledAmount order = fromAmount order then order\<lparr>order_status := FILLED\<rparr>
      else if filledAmount order \<noteq> ''0'' then order\<lparr>order_status := PARTIALLY_FILLED\<rparr>
      else order)"

definition make_fill :: "int \<Rightarrow> string \<Rightarrow> string \<Rightarrow> FillData \<Rightarrow> Fill" where
  "make_fill now uuid orderId fill = FillData.extend fill (Fill.fields uuid orderId now now)"

definition createFill :: "int \<Rightarrow> string \<Rightarrow> string \<Rightarrow> FillData \<Rightarrow> engine \<Rightarrow> Fill res \<times> engine" where
  "createFill now uuid orderId fill s =
     (case map_get (orders s) orderId of
        None \<Rightarrow> (Inl (Error ''Order not found''), s)
      | Some order \<Rightarrow>
          if order_status order = FILLED \<or> order_status order = CANCELLED
            then (Inl (Error ''Order is not fillable''), s)
          else
            let newFill = make_fill now uuid orderId fill;
                order1 = order\<lparr>fills := fills order @ [newFill], updatedAt := now\<rparr>
            in case update_filled order1 of
                 (Some e, order2) \<Rightarrow> (Inl e, put_order order2 orderId s)
               | (None, order2) \<Rightarrow>
                   let order3 = update_status order2
                   in (Inr newFill, emit (orderFill order3 newFill) (put_order order3 orderId s)))"

text \<open>The hash of a transaction is taken over when it is given and not empty.\<close>

definition given :: "string option \<Rightarrow> string option \<Rightarrow> string option" where
  "given h old = (case h of None \<Rightarrow> old | Some x \<Rightarrow> if x = '''' then old else Some x)"

fun update_first :: "('a \<Rightarrow> bool) \<Rightarrow> ('a \<Rightarrow> 'a) \<Rightarrow> 'a list \<Rightarrow> 'a list" where
  "update_first P g [] = []"
| "update_first P g (x # xs) = (if P x then g x # xs else x # update_first P g xs)"

definition patch_fill :: "int \<Rightarrow> string \<Rightarrow> string option \<Rightarrow> string option \<Rightarrow> Fill \<Rightarrow> Fill" where
  "patch_fill now st srcHash dstHash f =
     f\<lparr>fill_status := st, fill_updatedAt := now,
       sourceChainTxHash := given srcHash (sourceChainTxHash f),
       destChainTxHash := given dstHash (destChainTxHash f)\<rparr>"

definition updateFillStatus ::
  "int \<Rightarrow> string \<Rightarrow> string \<Rightarrow> string \<Rightarrow> string option \<Rightarrow> string option \<Rightarrow> engine \<Rightarrow> unit res \<times> engine" where
  "updateFillStatus now orderId fillId st srcHash dstHash s =
     (case map_get (orders s) orderId of
        None \<Rightarrow> (Inl (Error ''Order not found''), s)
      | Some order \<Rightarrow>
          (case List.find (\<lambda>f. fill_id f = fillId) (fills order) of
             None \<Rightarrow> (Inl (Error ''Fill not found''), s)
           | Some fill \<Rightarrow>
               let fill1 = patch_fill now st srcHash dstHash fill;
                   order1 = order\<lparr>fills := update_first (\<lambda>f. fill_id f = fillId)
                       (patch_fill now st srcHash dstHash) (fills order), updatedAt := now\<rparr>
               in (Inr (), emit (fillStatusUpdate order1 fill1) (put_order order1 orderId s))))"

subsection \<open>Cancelling, overriding, expiring\<close>

definition cancelOrder :: "int \<Rightarrow> string \<Rightarrow> string \<Rightarrow> engine \<Rightarrow> unit res \<times> engine" where
  "cancelOrder now orderId mk s =
     (case map_get (orders s) orderId of
        None \<Rightarrow> (Inl (Error ''Order not found''), s)
      | Some order \<Rightarrow>
          if maker order \<noteq> mk then (Inl (Error ''Only maker can cancel order''), s)
          else if order_status order = FILLED then (Inl (Error ''Cannot cancel filled order''), s)
          else
            let order1 = order\<lparr>order_status := CANCELLED, updatedAt := now\<rparr>
            in (Inr (), emit (orderCancelled order1) (put_order order1 orderId s)))"

definition updateOrderFilledPercentage :: "int \<Rightarrow> string \<Rightarrow> jsnum \<Rightarrow> engine \<Rightarrow> unit res \<times> engine" where
  "updateOrderFilledPercentage now orderId percentage s =
     (case map_get (orders s) orderId of
        None \<Rightarrow> (Inl (Error ''Order not found''), s)
      | Some order \<Rightarrow>
          let order1 = order\<lparr>filledPercentage := percentage, updatedAt := now\<rparr>;
              order2 = (if js_le (Fin 100) percentage then order1\<lparr>order_status := FILLED\<rparr>
                else if js_lt (Fin 0) percentage then order1\<lparr>order_status := PARTIALLY_FILLED\<rparr>
                else order1)
          in (Inr (), emit (orderUpdate order2) (put_order order2 orderId s)))"

definition expired_at :: "int \<Rightarrow> Order \<Rightarrow> bool" where
  "expired_at now order \<longleftrightarrow>
     order_status order = PENDING \<and> js_lt (js_mul (deadline order) (Fin 1000)) (Fin (of_int now))"

definition expire :: "int \<Rightarrow> Order \<Rightarrow> Order" where
  "expire now order = order\<lparr>order_status := EXPIRED, updatedAt := now\<rparr>"

fun cleanup_loop :: "int \<Rightarrow> (string, Order) jsmap \<Rightarrow> (string, Order) jsmap \<times> EngineEvent list" where
  "cleanup_loop now [] = ([], [])"
| "cleanup_loop now ((k, order) # rest) =
     (let (rest1, evs) = cleanup_loop now rest
      in if expired_at now order
         then ((k, expire now order) # rest1, orderExpired (expire now order) # evs)
         else ((k, order) # rest1, evs))"

definition cleanupExpiredOrders :: "int \<Rightarrow> engine \<Rightarrow> engine" where
  "cleanupExpiredOrders now s =
     (let (os, evs) = cleanup_loop now (orders s)
      in s\<lparr>orders := os, emitted := emitted s @ evs\<rparr>)"

subsection \<open>Runs of the service\<close>

datatype engine_call =
    CallCreate bool int string CreateOrderDto
  | CallFill int string string FillData
  | CallFillStatus int string string string "string option" "string option"
  | CallCancel int string string
  | CallPercentage int string jsnum
  | CallCleanup int

fun engine_step :: "engine \<Rightarrow> engine_call \<Rightarrow> engine" where
  "engine_step s (CallCreate valid now uuid dto) = snd (createOrder valid now uuid dto s)"
| "engine_step s (CallFill now uuid orderId fill) = snd (createFill now uuid orderId fill s)"
| "engine_step s (CallFillStatus now orderId fillId st h1 h2) =
     snd (updateFillStatus now orderId fillId st h1 h2 s)"
| "engine_step s (CallCancel now orderId mk) = snd (cancelOrder now orderId mk s)"
| "engine_step s (CallPercentage now orderId p) = snd (updateOrderFilledPercentage now orderId p s)"
| "engine_step s (CallCleanup now) = cleanupExpiredOrders now s"

text \<open>The ids drawn are fresh.\<close>

fun engine_ok :: "engine \<Rightarrow> engine_call \<Rightarrow> bool" where
  "engine_ok s (CallCreate valid now uuid dto) = (map_get (orders s) uuid = None)"
| "engine_ok s (CallFill now uuid orderId fill) =
     (case map_get (orders s) orderId of None \<Rightarrow> True
      | Some order \<Rightarrow> uuid \<notin> fill_id ` set (fills order))"
| "engine_ok s _ = True"

inductive engine_reachable :: "engine \<Rightarrow> bool" where
  reach_init: "engine_reachable engine_init"
| reach_step: "engine_reachable s \<Longrightarrow> engine_ok s c \<Longrightarrow> engine_reachable (engine_step s c)"

subsection \<open>The invariant\<close>

definition order_ok :: "string \<Rightarrow> Order \<Rightarrow> bool" where
  "order_ok k order \<longleftrightarrow> order_id order = k \<and> distinct (map fill_id (fills order)) \<and>
     (\<forall>f \<in> set (fills order). fill_orderId f = k)"

definition ids_of :: "string \<Rightarrow> engine \<Rightarrow> string list" where
  "ids_of mk s = (case map_get (ordersByMaker s) mk of None \<Rightarrow> [] | Some ids \<Rightarrow> ids)"

definition index_ok :: "engine \<Rightarrow> bool" where
  "index_ok s \<longleftrightarrow> (\<forall>mk. distinct (ids_of mk s) \<and>
     set (ids_of mk s) = {k. \<exists>order. map_get (orders s) k = Some order \<and> maker order = mk})"

definition engine_inv :: "engine \<Rightarrow> bool" where
  "engine_inv s \<longleftrightarrow> map_wf (orders s) \<and> map_wf (ordersByMaker s) \<and>
     jsm.all_entries order_ok (orders s) \<and> index_ok s"

lemma emit_simps [simp]:
  "orders (emit ev s) = orders s" "ordersByMaker (emit ev s) = ordersByMaker s"
  "emitted (emit ev s) = emitted s @ [ev]"
  by (simp_all add: emit_def)

lemma put_order_simps [simp]:
  "orders (put_order v k s) = map_set (orders s) k v"
  "ordersByMaker (put_order v k s) = ordersByMaker s" "emitted (put_order v k s) = emitted s"
  by (simp_all add: put_order_def)

lemma engine_inv_emit [simp]: "engine_inv (emit ev s) = engine_inv s"
  by (simp add: engine_inv_def index_ok_def ids_of_def)

text \<open>Rewriting a stored order keeps the invariant when its maker stays.\<close>

lemma engine_inv_put:
  assumes "engine_inv s" "map_get (orders s) k = Some old" "order_ok k new" "maker new = maker old"
  shows "engine_inv (put_order new k s)"
proof -
  have "{j. \<exists>v. map_get (map_set (orders s) k new) j = Some v \<and> maker v = mk}
      = {j. \<exists>v. map_get (orders s) j = Some v \<and> maker v = mk}" for mk
    using assms(2,4) by auto
  then have "index_ok (put_order new k s) = index_ok s"
    by (simp add: index_ok_def ids_of_def)
  with assms show ?thesis
    by (simp add: engine_inv_def jsm.all_entries_put)
qed

text \<open>What an order keeps through every call: its terms, its id, its date, and the fills it has.\<close>

definition order_evolves :: "Order \<Rightarrow> Order \<Rightarrow> bool" where
  "order_evolves v w \<longleftrightarrow> CreateOrderDto.truncate w = CreateOrderDto.truncate v \<and>
     order_id w = order_id v \<and> createdAt w = createdAt v \<and>
     (\<exists>new. map fill_id (fills w) = map fill_id (fills v) @ new)"

lemma order_evolves_refl [simp]: "order_evolves v v"
  by (simp add: order_evolves_def)

lemma order_evolves_trans: "order_evolves u v \<Longrightarrow> order_evolves v w \<Longrightarrow> order_evolves u w"
  by (auto simp: order_evolves_def)

lemma truncate_maker: "CreateOrderDto.truncate w = CreateOrderDto.truncate v \<Longrightarrow>
   maker w = maker v \<and> fromAmount w = fromAmount v \<and> deadline w = deadline v"
  by (simp add: CreateOrderDto.truncate_def)

lemma order_evolves_maker: "order_evolves v w \<Longrightarrow> maker w = maker v"
  by (auto simp only: order_evolves_def dest: truncate_maker)

lemma truncate_update [simp]:
  "CreateOrderDto.truncate (v\<lparr>order_status := a\<rparr>) = CreateOrderDto.truncate v"
  "CreateOrderDto.truncate (v\<lparr>filledAmount := b\<rparr>) = CreateOrderDto.truncate v"
  "CreateOrderDto.truncate (v\<lparr>filledPercentage := c\<rparr>) = CreateOrderDto.truncate v"
  "CreateOrderDto.truncate (v\<lparr>updatedAt := d\<rparr>) = CreateOrderDto.truncate v"
  "CreateOrderDto.truncate (v\<lparr>fills := e\<rparr>) = CreateOrderDto.truncate v"
  by (simp_all add: CreateOrderDto.truncate_def)

lemma update_filled_frame:
  "update_filled v = (e, w) \<Longrightarrow> CreateOrderDto.truncate w = CreateOrderDto.truncate v
    \<and> order_id w = order_id v \<and> createdAt w = createdAt v \<and> fills w = fills v
    \<and> order_status w = order_status v \<and> updatedAt w = updatedAt v"
  by (auto simp: update_filled_def Let_def split: if_splits sum.splits)

lemma update_status_frame [simp]:
  "CreateOrderDto.truncate (update_status v) = CreateOrderDto.truncate v"
  "order_id (update_status v) = order_id v" "createdAt (update_status v) = createdAt v"
  "fills (update_status v) = fills v" "filledAmount (update_status v) = filledAmount v"
  "filledPercentage (update_status v) = filledPercentage v" "updatedAt (update_status v) = updatedAt v"
  by (simp_all add: update_status_def)

lemma map_update_first: "(\<And>x. P x \<Longrightarrow> h (g x) = h x) \<Longrightarrow> map h (update_first P g xs) = map h xs"
  by (induction xs) auto

lemma ball_update_first:
  "(\<And>x. P x \<Longrightarrow> Q x \<Longrightarrow> Q (g x)) \<Longrightarrow> \<forall>x \<in> set xs. Q x \<Longrightarrow> \<forall>x \<in> set (update_first P g xs). Q x"
  by (induction xs) auto

lemma update_first_distinct:
  "distinct (map h xs) \<Longrightarrow> update_first (\<lambda>x. h x = i) g xs = map (\<lambda>x. if h x = i then g x else x) xs"
  by (induction xs) (auto intro!: map_idI[symmetric] simp: rev_image_eqI)

lemma patch_fill_simps [simp]:
  "fill_id (patch_fill now st a b f) = fill_id f"
  "fill_orderId (patch_fill now st a b f) = fill_orderId f"
  "fill_amount (patch_fill now st a b f) = fill_amount f"
  "fillPercentage (patch_fill now st a b f) = fillPercentage f"
  "fill_status (patch_fill now st a b f) = st"
  by (simp_all add: patch_fill_def)

lemma make_fill_simps [simp]:
  "fill_id (make_fill now i k d) = i" "fill_orderId (make_fill now i k d) = k"
  "fill_amount (make_fill now i k d) = fill_amount d"
  "fillPercentage (make_fill now i k d) = fillPercentage d"
  by (simp_all add: make_fill_def FillData.extend_def Fill.fields_def)

text \<open>The effect of a call on the stored orders: one order rewritten, or one added, or an expiry.\<close>

lemma cleanup_loop_eq:
  "cleanup_loop now m = (map (\<lambda>(k, v). (k, if expired_at now v then expire now v else v)) m,
     map (\<lambda>v. orderExpired (expire now v)) (filter (expired_at now) (map_values m)))"
  by (induction m) (auto simp: Let_def)

lemma cleanup_get:
  "map_get (orders (cleanupExpiredOrders now s)) k =
     map_option (\<lambda>v. if expired_at now v then expire now v else v) (map_get (orders s) k)"
  by (simp add: cleanupExpiredOrders_def cleanup_loop_eq map_of_map)

lemma cleanup_keys: "map_keys (orders (cleanupExpiredOrders now s)) = map_keys (orders s)"
  by (simp add: cleanupExpiredOrders_def cleanup_loop_eq comp_def case_prod_unfold)

lemma expire_evolves [simp]: "order_evolves v (expire now v)"
  by (simp add: order_evolves_def expire_def)

text \<open>Most calls leave the orders alone or rewrite one of them within its terms.\<close>

definition rewrites_one :: "engine \<Rightarrow> engine \<Rightarrow> bool" where
  "rewrites_one s t \<longleftrightarrow> ordersByMaker t = ordersByMaker s \<and>
     (orders t = orders s \<or> (\<exists>k v w. map_get (orders s) k = Some v \<and> orders t = map_set (orders s) k w
        \<and> order_evolves v w \<and> (order_ok k v \<longrightarrow> order_ok k w)))"

lemma rewrites_one_refl [simp]: "rewrites_one s s"
  by (simp add: rewrites_one_def)

lemma rewrites_one_put:
  "map_get (orders s) k = Some v \<Longrightarrow> order_evolves v w \<Longrightarrow> (order_ok k v \<Longrightarrow> order_ok k w) \<Longrightarrow>
   rewrites_one s (put_order w k s)"
  by (auto simp: rewrites_one_def)

lemma rewrites_one_emit [simp]: "rewrites_one s (emit ev t) = rewrites_one s t"
  by (simp add: rewrites_one_def)

lemma rewrites_one_inv: "rewrites_one s t \<Longrightarrow> engine_inv s \<Longrightarrow> engine_inv t"
proof -
  assume "rewrites_one s t" and inv: "engine_inv s"
  then have same: "ordersByMaker t = ordersByMaker s" by (simp add: rewrites_one_def)
  from \<open>rewrites_one s t\<close> consider "orders t = orders s"
    | k v w where "map_get (orders s) k = Some v" "orders t = map_set (orders s) k w"
        "order_evolves v w" "order_ok k v \<longrightarrow> order_ok k w"
    unfolding rewrites_one_def by blast
  then show ?thesis
  proof cases
    case 1
    with same inv show ?thesis by (simp add: engine_inv_def index_ok_def ids_of_def)
  next
    case 2
    have "order_ok k w" using 2 inv by (auto simp: engine_inv_def dest: jsm.all_entries_get)
    then have "engine_inv (put_order w k s)"
      using engine_inv_put[OF inv 2(1)] order_evolves_maker[OF 2(3)] by simp
    with 2(2) same show ?thesis by (simp add: engine_inv_def index_ok_def ids_of_def)
  qed
qed

lemma rewrites_one_evolves:
  "rewrites_one s t \<Longrightarrow> map_get (orders s) k = Some v \<Longrightarrow>
   \<exists>w. map_get (orders t) k = Some w \<and> order_evolves v w"
  by (auto simp: rewrites_one_def)

lemma createFill_rewrites:
  assumes "engine_ok s (CallFill now uuid k d)"
  shows "rewrites_one s (snd (createFill now uuid k d s))"
proof (cases "map_get (orders s) k")
  case (Some v)
  let ?v1 = "v\<lparr>fills := fills v @ [make_fill now uuid k d], updatedAt := now\<rparr>"
  obtain e w where u: "update_filled ?v1 = (e, w)" by fastforce
  note f = update_filled_frame[OF u]
  have "order_evolves v x" "order_ok k v \<longrightarrow> order_ok k x" if "x = w \<or> x = update_status w" for x
    using that f assms Some by (auto simp: order_evolves_def order_ok_def)
  then show ?thesis
    using Some u by (auto simp: createFill_def Let_def rewrites_one_put split: option.splits)
qed (simp add: createFill_def)

lemma updateFillStatus_rewrites: "rewrites_one s (snd (updateFillStatus now k i st a b s))"
proof (cases "map_get (orders s) k")
  case (Some v)
  let ?w = "v\<lparr>fills := update_first (\<lambda>f. fill_id f = i) (patch_fill now st a b) (fills v), updatedAt := now\<rparr>"
  have ids: "map fill_id (fills ?w) = map fill_id (fills v)" by (simp add: map_update_first)
  have "(\<forall>f \<in> set (fills v). fill_orderId f = k) \<longrightarrow> (\<forall>f \<in> set (fills ?w). fill_orderId f = k)"
    using ball_update_first[of "\<lambda>f. fill_id f = i" "\<lambda>f. fill_orderId f = k" "patch_fill now st a b" "fills v"]
    by simp
  with ids have "order_evolves v ?w" "order_ok k v \<longrightarrow> order_ok k ?w"
    by (simp_all add: order_evolves_def order_ok_def)
  then show ?thesis
    using Some by (auto simp: updateFillStatus_def Let_def rewrites_one_put split: option.splits)
qed (simp add: updateFillStatus_def)

lemma cancelOrder_rewrites: "rewrites_one s (snd (cancelOrder now k mk s))"
  by (auto simp: cancelOrder_def Let_def order_evolves_def order_ok_def
      intro!: rewrites_one_put split: option.splits)

lemma updateOrderFilledPercentage_rewrites:
  "rewrites_one s (snd (updateOrderFilledPercentage now k p s))"
  by (auto simp: updateOrderFilledPercentage_def Let_def order_evolves_def order_ok_def
      intro!: rewrites_one_put split: option.splits)

lemmas calls_rewrite = createFill_rewrites updateFillStatus_rewrites cancelOrder_rewrites
  updateOrderFilledPercentage_rewrites

lemma createOrder_dto:
  "maker (CreateOrderDto.extend dto m) = maker dto"
  "CreateOrderDto.truncate (CreateOrderDto.extend dto m) = dto"
  "deadline (CreateOrderDto.extend dto m) = deadline dto"
  by (simp_all add: CreateOrderDto.extend_def CreateOrderDto.truncate_def)

lemma new_order_simps [simp]:
  "order_id (CreateOrderDto.extend dto (Order.fields i st fa fp c u fs)) = i"
  "order_status (CreateOrderDto.extend dto (Order.fields i st fa fp c u fs)) = st"
  "filledAmount (CreateOrderDto.extend dto (Order.fields i st fa fp c u fs)) = fa"
  "filledPercentage (CreateOrderDto.extend dto (Order.fields i st fa fp c u fs)) = fp"
  "createdAt (CreateOrderDto.extend dto (Order.fields i st fa fp c u fs)) = c"
  "fills (CreateOrderDto.extend dto (Order.fields i st fa fp c u fs)) = fs"
  by (simp_all add: CreateOrderDto.extend_def Order.fields_def)

lemma createOrder_inv:
  assumes inv: "engine_inv s" and new: "map_get (orders s) uuid = None"
  shows "engine_inv (snd (createOrder valid now uuid dto s))"
proof (cases "\<not> valid \<or> js_lt (js_mul (deadline dto) (Fin 1000)) (Fin (of_int now))")
  case False
  define v where "v = CreateOrderDto.extend dto (Order.fields uuid PENDING ''0'' (Fin 0) now now [])"
  define t where "t = snd (createOrder valid now uuid dto s)"
  have t: "orders t = map_set (orders s) uuid v"
    "ordersByMaker t = map_set (ordersByMaker s) (maker dto) (set_add (ids_of (maker dto) s) uuid)"
    using False by (auto simp: t_def v_def createOrder_def Let_def ids_of_def)
  have ids: "ids_of mk t = (if mk = maker dto then set_add (ids_of mk s) uuid else ids_of mk s)" for mk
    using t(2) by (simp add: ids_of_def)
  have mk: "maker v = maker dto" by (simp add: v_def createOrder_dto)
  have "{k. \<exists>w. map_get (orders t) k = Some w \<and> maker w = mk}
      = {k. \<exists>w. map_get (orders s) k = Some w \<and> maker w = mk} \<union> (if mk = maker dto then {uuid} else {})" for mk
    using new mk by (auto simp: t(1))
  then have "index_ok t"
    using inv by (simp add: engine_inv_def index_ok_def ids)
  moreover have "order_ok uuid v" by (simp add: order_ok_def v_def)
  ultimately have "engine_inv t"
    using inv by (simp add: engine_inv_def t jsm.all_entries_put)
  then show ?thesis by (simp add: t_def)
qed (use inv in \<open>auto simp: createOrder_def\<close>)

lemma cleanup_inv: "engine_inv s \<Longrightarrow> engine_inv (cleanupExpiredOrders now s)"
proof -
  assume inv: "engine_inv s"
  let ?t = "cleanupExpiredOrders now s"
  have wf: "map_wf (orders ?t)" using inv by (simp add: engine_inv_def map_wf_def cleanup_keys)
  have same: "ordersByMaker ?t = ordersByMaker s"
    by (simp add: cleanupExpiredOrders_def cleanup_loop_eq)
  have mk: "maker (expire now v) = maker v" "order_ok k (expire now v) = order_ok k v" for k v
    by (simp_all add: expire_def order_ok_def)
  have "jsm.all_entries order_ok (orders ?t)"
    using inv by (auto simp: engine_inv_def jsm.all_entries_def cleanup_get mk)
  moreover have "(\<exists>v. map_get (orders ?t) k = Some v \<and> maker v = m)
      = (\<exists>v. map_get (orders s) k = Some v \<and> maker v = m)" for k m
    by (cases "map_get (orders s) k") (simp_all add: cleanup_get mk)
  ultimately show ?thesis
    using inv wf same by (simp add: engine_inv_def index_ok_def ids_of_def)
qed

lemma engine_step_inv: "engine_inv s \<Longrightarrow> engine_ok s c \<Longrightarrow> engine_inv (engine_step s c)"
  by (cases c) (simp_all add: createOrder_inv cleanup_inv calls_rewrite[THEN rewrites_one_inv])

lemma engine_step_evolves:
  "engine_ok s c \<Longrightarrow> map_get (orders s) k = Some v \<Longrightarrow>
   \<exists>w. map_get (orders (engine_step s c)) k = Some w \<and> order_evolves v w"
  by (cases c)
    (auto simp: createOrder_def Let_def cleanup_get intro!: calls_rewrite[THEN rewrites_one_evolves])

lemma engine_init_inv: "engine_inv engine_init"
  by (simp add: engine_inv_def engine_init_def index_ok_def ids_of_def jsm.all_entries_def)

interpretation engine_m: machine engine_step engine_ok engine_inv
  by unfold_locales (rule engine_step_inv)

lemma engine_reachable_inv: "engine_reachable s \<Longrightarrow> engine_inv s"
  by (induction rule: engine_reachable.induct) (simp_all add: engine_init_inv engine_step_inv)

subsection \<open>Lemmas for the filled amount\<close>

text \<open>The integer an amount denotes, when it denotes one.\<close>

definition amount_of :: "string \<Rightarrow> int" where
  "amount_of a = (case js_BigInt a of Inl _ \<Rightarrow> 0 | Inr n \<Rightarrow> n)"

lemma total_amount_sum:
  "\<forall>f \<in> set fs. is_ok (js_BigInt (fill_amount f)) \<Longrightarrow>
   total_amount (show_int a) fs = Inr (show_int (a + (\<Sum>f\<leftarrow>fs. amount_of (fill_amount f))))"
proof (induction fs arbitrary: a)
  case (Cons f fs)
  then obtain b where "js_BigInt (fill_amount f) = Inr b" by (cases "js_BigInt (fill_amount f)") auto
  with Cons show ?case by (simp add: amount_of_def add.assoc)
qed simp

lemma total_amount_error:
  "f \<in> set fs \<Longrightarrow> js_BigInt (fill_amount f) = Inl e \<Longrightarrow> \<exists>e'. total_amount (show_int a) fs = Inl e'"
proof (induction fs arbitrary: a)
  case (Cons g fs)
  then show ?case by (cases "js_BigInt (fill_amount g)") auto
qed simp

definition percentage_ok :: "Fill \<Rightarrow> bool" where
  "percentage_ok f \<longleftrightarrow> (case fillPercentage f of None \<Rightarrow> True | Some p \<Rightarrow> Fin 0 \<le> p)"

lemma nonneg_add: "Fin 0 \<le> a \<Longrightarrow> Fin 0 \<le> b \<Longrightarrow> Fin 0 \<le> js_add a b"
  by (cases a; cases b) (auto simp: less_eq_jsnum_def[of _ NegInf] intro!: fl_ge_fixed)

lemma nonneg_or0: "Fin 0 \<le> p \<Longrightarrow> Fin 0 \<le> js_or0 p"
  by (simp add: js_or0_def)

lemma total_percentage_nonneg:
  "Fin 0 \<le> a \<Longrightarrow> \<forall>f \<in> set fs. percentage_ok f \<Longrightarrow> Fin 0 \<le> total_percentage a fs"
proof (induction fs arbitrary: a)
  case (Cons f fs)
  have "Fin 0 \<le> js_add a (case fillPercentage f of None \<Rightarrow> Fin 0 | Some p \<Rightarrow> js_or0 p)"
    using Cons.prems by (auto simp: percentage_ok_def nonneg_or0 split: option.splits intro!: nonneg_add)
  with Cons show ?case by simp
qed simp

lemma capped_percentage:
  assumes "Fin 0 \<le> x" obtains p where "js_min x (Fin 100) = Fin p" "0 \<le> p" "p \<le> 100"
    "p = 100 \<longleftrightarrow> Fin 100 \<le> x"
proof (cases x)
  case (Fin r)
  then show ?thesis using that[of "min r 100"] assms by (auto simp: min_def)
qed (use assms that[of 100] in \<open>simp_all add: js_min_def less_eq_jsnum_def\<close>)

text \<open>The share of an amount at a whole percentage below 100 is below the amount.\<close>

lemma share_full_iff:
  fixes n :: int
  assumes "0 < n" "0 \<le> p" "p \<le> 100"
  shows "n * \<lfloor>p\<rfloor> div 100 = n \<longleftrightarrow> (p::rat) = 100" "n * \<lfloor>p\<rfloor> div 100 \<le> n" "0 \<le> n * \<lfloor>p\<rfloor> div 100"
proof -
  have f: "0 \<le> \<lfloor>p\<rfloor>" "\<lfloor>p\<rfloor> \<le> 100" using assms by (simp_all add: floor_le_iff)
  then have "n * \<lfloor>p\<rfloor> \<le> n * 100" using assms(1) by (intro mult_left_mono) simp_all
  then show "n * \<lfloor>p\<rfloor> div 100 \<le> n" by linarith
  show "0 \<le> n * \<lfloor>p\<rfloor> div 100" using f assms(1) by (simp add: pos_imp_zdiv_nonneg_iff)
  have "n * \<lfloor>p\<rfloor> div 100 < n" if "p \<noteq> 100"
  proof -
    have "\<lfloor>p\<rfloor> \<le> 99" using that assms(3) by linarith
    then have "n * \<lfloor>p\<rfloor> \<le> n * 99" using assms(1) by (intro mult_left_mono) simp_all
    then show ?thesis using assms(1) by linarith
  qed
  then show "n * \<lfloor>p\<rfloor> div 100 = n \<longleftrightarrow> p = 100" by (cases "p = 100") simp_all
qed

text \<open>Reading and dividing integers fails only with the errors of the language.\<close>

lemma js_BigInt_not_Error: "js_BigInt a \<noteq> Inl (Error m)"
  by (auto simp: js_BigInt_def split: option.splits)

lemma bigint_of_num_not_Error: "bigint_of_num x \<noteq> Inl (Error m)"
  by (cases x) auto

lemma big_div_not_Error: "big_div a b \<noteq> Inl (Error m)"
  by (simp add: big_div_def)

lemma bind_not_Error:
  "r \<noteq> Inl (Error m) \<Longrightarrow> (\<And>x. f x \<noteq> Inl (Error m)) \<Longrightarrow> bind_res r f \<noteq> Inl (Error m)"
  by (cases r) auto

lemmas big_errors = js_BigInt_not_Error bigint_of_num_not_Error big_div_not_Error

lemma total_amount_not_Error: "total_amount a fs \<noteq> Inl (Error m)"
proof (induction fs arbitrary: a)
  case (Cons f fs)
  show ?case unfolding total_amount.simps by (intro bind_not_Error big_errors Cons.IH)
qed simp

lemma update_filled_not_Error: "fst (update_filled v) \<noteq> Some (Error m)"
proof -
  have 1: "bind_res (js_BigInt a) (\<lambda>t. bind_res (bigint_of_num x) (\<lambda>p. big_div (t * p) 100)) \<noteq> Inl (Error m)"
    and 2: "bind_res (js_BigInt a) (\<lambda>t. bind_res (js_BigInt b) (\<lambda>f. big_div (t * 100) f)) \<noteq> Inl (Error m)"
    for a b x by (intro bind_not_Error big_errors)+
  show ?thesis
    using 1 2 total_amount_not_Error
    by (auto simp: update_filled_def Let_def split: if_splits sum.splits)
qed

text \<open>An open order and an appended fill: what \<open>createFill\<close> returns and stores.\<close>

lemma createFill_open:
  assumes "getOrder k s = Some v" "order_status v \<noteq> FILLED" "order_status v \<noteq> CANCELLED"
    and "v1 = v\<lparr>fills := fills v @ [make_fill now i k d], updatedAt := now\<rparr>"
    and "update_filled v1 = (e, w)"
  shows "createFill now i k d s = (case e of
      Some err \<Rightarrow> (Inl err, put_order w k s)
    | None \<Rightarrow> (Inr (make_fill now i k d),
        emit (orderFill (update_status w) (make_fill now i k d)) (put_order (update_status w) k s)))"
  using assms by (auto simp: createFill_def getOrder_def Let_def split: option.splits)

lemma getOrder_put [simp]:
  "getOrder j (put_order w k s) = (if j = k then Some w else getOrder j s)"
  by (simp add: getOrder_def)

lemma getOrder_emit [simp]: "getOrder j (emit ev s) = getOrder j s"
  by (simp add: getOrder_def)

subsection \<open>Closed orders\<close>

text \<open>An order that is filled or cancelled, with what it had been filled with.\<close>

definition closed_as :: "OrderStatus \<Rightarrow> string \<Rightarrow> string list \<Rightarrow> string \<Rightarrow> engine \<Rightarrow> bool" where
  "closed_as st amount ids k s \<longleftrightarrow> (st = FILLED \<or> st = CANCELLED) \<and>
     (\<exists>v. getOrder k s = Some v \<and> order_status v = st \<and> filledAmount v = amount \<and> map fill_id (fills v) = ids)"

text \<open>The calls that may occur apart from an override of the percentage of the order.\<close>

fun no_override :: "string \<Rightarrow> engine_call \<Rightarrow> bool" where
  "no_override k (CallPercentage now j p) = (j \<noteq> k)"
| "no_override k _ = True"

lemma closed_step:
  assumes "closed_as st amount ids k s" "engine_ok s c" "no_override k c"
  shows "closed_as st amount ids k (engine_step s c)"
proof -
  obtain v where v: "map_get (orders s) k = Some v" "order_status v = st" "st = FILLED \<or> st = CANCELLED"
    "filledAmount v = amount" "map fill_id (fills v) = ids"
    using assms(1) by (auto simp: closed_as_def getOrder_def)
  show ?thesis
  proof (cases c)
    case (CallCreate valid now uuid dto)
    with v assms(2) show ?thesis by (auto simp: closed_as_def getOrder_def createOrder_def Let_def)
  next
    case (CallFill now uuid j d)
    with v show ?thesis
      by (cases "j = k") (auto simp: closed_as_def getOrder_def createFill_def Let_def split: option.splits prod.splits)
  next
    case (CallFillStatus now j i st' a b)
    with v show ?thesis
      by (cases "j = k") (auto simp: closed_as_def getOrder_def updateFillStatus_def Let_def map_update_first split: option.splits)
  next
    case (CallCancel now j mk)
    with v show ?thesis
      by (cases "j = k") (auto simp: closed_as_def getOrder_def cancelOrder_def Let_def split: option.splits)
  next
    case (CallPercentage now j p)
    with v assms(3) show ?thesis
      by (auto simp: closed_as_def getOrder_def updateOrderFilledPercentage_def Let_def split: option.splits)
  next
    case (CallCleanup now)
    with v show ?thesis by (auto simp: closed_as_def getOrder_def cleanup_get expired_at_def)
  qed
qed

interpretation closed_m: stable_machine engine_step "\<lambda>s c. engine_ok s c \<and> no_override k c" engine_inv
  "closed_as st amount ids k" for k st amount ids
  by unfold_locales (auto intro: engine_step_inv closed_step)

subsection \<open>Properties\<close>

text \<open>A concrete order and fill for the witnesses.\<close>

definition demo_dto :: CreateOrderDto where
  "demo_dto = \<lparr>fromChain = ETHEREUM, toChain = APTOS, fromToken = ''WETH'', toToken = ''APT'',
     fromAmount = ''1000'', minToAmount = ''500'', maker = ''0xAlice'', receiver = ''0xA1'',
     signature = ''0x00'', deadline = Fin 2000, nonce = ''1'', partialFillAllowed = True,
     partialFillEnabled = True, secretHash = None, secretHashes = None, partialFillSecrets = None,
     maxParts = None, activeResolvers = None, dutchAuction = None, permit = None,
     permitSignature = None, gasless = None, gaslessData = None\<rparr>"

definition demo_fill :: "string \<Rightarrow> jsnum option \<Rightarrow> FillData" where
  "demo_fill amt pct = \<lparr>fill_resolver = ''r1'', fill_amount = amt, fillPercentage = pct,
     cumulativePercentage = None, cumulativeFillPercentage = None, fill_secretHash = ''0xh'',
     secretIndex = None, merkleProof = None, merkleIndex = None, partialSecret = None,
     actualEscrowId = None, sourceChainTxHash = None, destChainTxHash = None, fill_status = ''PENDING''\<rparr>"

definition demo_engine :: engine where
  "demo_engine = engine_step engine_init (CallCreate True 1000000 ''o1'' demo_dto)"

lemma demo_engine_reachable: "engine_reachable demo_engine"
  unfolding demo_engine_def by (intro reach_step reach_init) (simp add: engine_init_def)

text \<open>
  C10. The terms of an order are immutable: whatever calls the service receives after an order was
  created, the order stays in the book with the request it was created from, its id, its creation
  date and every fill it had, in their order.
\<close>

theorem order_terms_immutable:
  assumes "engine_reachable s" "legal_run engine_step engine_ok s calls" "getOrder k s = Some v"
  shows "\<exists>w. getOrder k (foldl engine_step s calls) = Some w \<and> order_evolves v w"
proof -
  let ?R = "\<lambda>s t. \<forall>v. getOrder k s = Some v \<longrightarrow> (\<exists>w. getOrder k t = Some w \<and> order_evolves v w)"
  have "?R s (foldl engine_step s calls)"
  proof (rule engine_m.run_rel[where R = ?R])
    show "?R t (engine_step t c)" if "engine_ok t c" for t c
      using engine_step_evolves[OF that] by (simp add: getOrder_def)
  qed (use assms engine_reachable_inv order_evolves_trans in \<open>simp_all, blast\<close>)
  with assms(3) show ?thesis by blast
qed

theorem order_terms_immutable_witness:
  "\<exists>w. getOrder ''o1'' (foldl engine_step demo_engine
      [CallFill 1500000 ''f1'' ''o1'' (demo_fill ''10'' (Some (Fin 25))), CallCancel 1600000 ''o1'' ''0xAlice''])
    = Some w \<and> CreateOrderDto.truncate w = demo_dto \<and> order_status w = CANCELLED"
proof -
  let ?calls = "[CallFill 1500000 ''f1'' ''o1'' (demo_fill ''10'' (Some (Fin 25))), CallCancel 1600000 ''o1'' ''0xAlice'']"
  have l: "legal_run engine_step engine_ok demo_engine ?calls" by code_simp
  have g: "map_option CreateOrderDto.truncate (getOrder ''o1'' demo_engine) = Some demo_dto"
    "map_option order_status (getOrder ''o1'' (foldl engine_step demo_engine ?calls)) = Some CANCELLED"
    by code_simp+
  then obtain v where v: "getOrder ''o1'' demo_engine = Some v" "CreateOrderDto.truncate v = demo_dto" by auto
  from order_terms_immutable[OF demo_engine_reachable l v(1)] v(2) g(2) show ?thesis
    by (auto simp: order_evolves_def)
qed

text \<open>
  The index by maker is exact in every reachable state: asking for the orders of a maker
  returns each stored order of that maker once, and nothing else.
\<close>

theorem getOrdersByMaker_exact:
  assumes "engine_reachable s"
  shows "distinct (map order_id (getOrdersByMaker mk s)) \<and>
    set (getOrdersByMaker mk s) = {v \<in> set (map_values (orders s)). maker v = mk}"
proof -
  have inv: "engine_inv s" using assms by (rule engine_reachable_inv)
  define ids where "ids = ids_of mk s"
  have ids: "distinct ids" "set ids = {k. \<exists>v. map_get (orders s) k = Some v \<and> maker v = mk}"
    using inv by (simp_all add: engine_inv_def index_ok_def ids_def)
  have g: "getOrdersByMaker mk s = List.map_filter (\<lambda>i. map_get (orders s) i) ids"
    by (simp add: getOrdersByMaker_def ids_def ids_of_def)
  have id: "map_get (orders s) k = Some v \<Longrightarrow> order_id v = k" for k v
    using inv by (auto simp: engine_inv_def order_ok_def dest: jsm.all_entries_get)
  have "map order_id (List.map_filter (\<lambda>i. map_get (orders s) i) js) = js"
    if "set js \<subseteq> set ids" for js
    using that by (induction js) (auto simp: List.map_filter_simps ids(2) id)
  then have d: "distinct (map order_id (getOrdersByMaker mk s))" using g ids(1) by simp
  have "set (getOrdersByMaker mk s) = {v. \<exists>k. map_get (orders s) k = Some v \<and> maker v = mk}"
    unfolding g List.map_filter_def using ids(2) by force
  also have "\<dots> = {v \<in> set (map_values (orders s)). maker v = mk}"
    using inv by (force simp: engine_inv_def map_get_in)
  finally show ?thesis using d by simp
qed

theorem getOrdersByMaker_exact_witness:
  "map order_id (getOrdersByMaker ''0xAlice'' demo_engine) = [''o1''] \<and>
   set (getOrdersByMaker ''0xBob'' demo_engine) = {v \<in> set (map_values (orders demo_engine)). maker v = ''0xBob''}"
proof -
  have "map order_id (getOrdersByMaker ''0xAlice'' demo_engine) = [''o1'']" by code_simp
  then show ?thesis using getOrdersByMaker_exact[OF demo_engine_reachable] by simp
qed

text \<open>
  Creating an order: it fails, and changes nothing, exactly when the signature is invalid or
  the deadline has passed; otherwise the stored order is the request with a pending, empty fill
  state, it can be read back, it is announced, and the other orders are untouched.
\<close>

theorem createOrder_spec:
  fixes valid :: bool
  assumes "createOrder valid now uuid dto s = (r, t)"
  shows "(case r of
      Inl e \<Rightarrow> t = s \<and> (\<not> valid \<and> e = Error ''Invalid order signature'' \<or>
        valid \<and> js_lt (js_mul (deadline dto) (Fin 1000)) (Fin (of_int now)) \<and> e = Error ''Order deadline has passed'')
    | Inr v \<Rightarrow> valid \<and> \<not> js_lt (js_mul (deadline dto) (Fin 1000)) (Fin (of_int now)) \<and>
        CreateOrderDto.truncate v = dto \<and> order_id v = uuid \<and> order_status v = PENDING \<and>
        filledAmount v = ''0'' \<and> fills v = [] \<and> createdAt v = now \<and>
        getOrder uuid t = Some v \<and> v \<in> set (getOrdersByMaker (maker dto) t) \<and>
        emitted t = emitted s @ [newOrder v] \<and> (\<forall>k. k \<noteq> uuid \<longrightarrow> getOrder k t = getOrder k s))"
proof (cases "\<not> valid \<or> js_lt (js_mul (deadline dto) (Fin 1000)) (Fin (of_int now))")
  case False
  define v where "v = CreateOrderDto.extend dto (Order.fields uuid PENDING ''0'' (Fin 0) now now [])"
  from False assms have r: "r = Inr v"
    and t: "orders t = map_set (orders s) uuid v" "emitted t = emitted s @ [newOrder v]"
      "map_get (ordersByMaker t) (maker dto) = Some (set_add (ids_of (maker dto) s) uuid)"
    by (auto simp: v_def createOrder_def Let_def ids_of_def)
  have g: "map_get (orders t) uuid = Some v" by (simp add: t(1))
  have "v \<in> set (getOrdersByMaker (maker dto) t)"
    unfolding getOrdersByMaker_def List.map_filter_def t(3) using g by force
  then show ?thesis using False by (simp add: r t getOrder_def v_def createOrder_dto)
next
  case True
  then show ?thesis using assms by (cases valid) (auto simp: createOrder_def)
qed

theorem createOrder_spec_witness:
  "map_option order_status (getOrder ''o2'' (snd (createOrder True 1000000 ''o2'' demo_dto demo_engine))) = Some PENDING \<and>
   fst (createOrder True 2000001 ''o2'' demo_dto demo_engine) = Inl (Error ''Order deadline has passed'') \<and>
   snd (createOrder True 2000001 ''o2'' demo_dto demo_engine) = demo_engine"
proof -
  have v: "fst (createOrder True 2000001 ''o2'' demo_dto demo_engine) = Inl (Error ''Order deadline has passed'')"
    "\<not> js_lt (js_mul (deadline demo_dto) (Fin 1000)) (Fin (of_int 1000000))"
    by code_simp+
  have "is_ok (fst (createOrder True 1000000 ''o2'' demo_dto demo_engine))"
    using v(2) by (simp add: createOrder_def Let_def)
  then obtain x where "fst (createOrder True 1000000 ''o2'' demo_dto demo_engine) = Inr x"
    by (cases "fst (createOrder True 1000000 ''o2'' demo_dto demo_engine)") auto
  then show ?thesis
    using v(1) createOrder_spec[OF prod.collapse[symmetric], of True 1000000 "''o2''" demo_dto demo_engine]
      createOrder_spec[OF prod.collapse[symmetric], of True 2000001 "''o2''" demo_dto demo_engine] by simp
qed

text \<open>
  C11. A fill of an open cross-chain order: with a readable positive order amount in decimal form
  and percentages that are not negative, the call succeeds whatever the amounts of the fills are;
  the filled percentage is the sum of the fills' percentages capped at 100, the filled amount is
  that share of the order and never more than the order, and the order is filled exactly when the
  percentage has reached 100.
\<close>

theorem createFill_cross_chain:
  assumes v: "getOrder k s = Some v" "order_status v \<noteq> FILLED" "order_status v \<noteq> CANCELLED"
    and x: "fromChain v \<noteq> toChain v" "fillPercentage d = Some p" "Fin 0 \<le> p"
    and a: "fromAmount v = show_int n" "0 < n" "\<forall>f \<in> set (fills v). percentage_ok f"
  shows "\<exists>w q. createFill now i k d s = (Inr (make_fill now i k d),
        emit (orderFill w (make_fill now i k d)) (put_order w k s)) \<and>
      fills w = fills v @ [make_fill now i k d] \<and>
      filledPercentage w = Fin q \<and> 0 \<le> q \<and> q \<le> 100 \<and>
      Fin q = js_min (total_percentage (Fin 0) (fills w)) (Fin 100) \<and>
      filledAmount w = show_int (n * \<lfloor>q\<rfloor> div 100) \<and> n * \<lfloor>q\<rfloor> div 100 \<le> n \<and>
      (order_status w = FILLED \<longleftrightarrow> q = 100)"
proof -
  let ?fs = "fills v @ [make_fill now i k d]"
  let ?v1 = "v\<lparr>fills := ?fs, updatedAt := now\<rparr>"
  have "Fin 0 \<le> total_percentage (Fin 0) ?fs"
    using a(3) x by (intro total_percentage_nonneg) (auto simp: percentage_ok_def)
  then obtain q where q: "js_min (total_percentage (Fin 0) ?fs) (Fin 100) = Fin q" "0 \<le> q" "q \<le> 100"
    by (rule capped_percentage)
  have fl0: "0 \<le> \<lfloor>q\<rfloor>" using q by simp
  let ?w = "?v1\<lparr>filledPercentage := Fin q, filledAmount := show_int (n * \<lfloor>q\<rfloor> div 100)\<rparr>"
  have u: "update_filled ?v1 = (None, ?w)"
    using x a q fl0 by (simp add: update_filled_def Let_def)
  note share = share_full_iff[OF a(2) q(2,3)]
  have st: "order_status (update_status ?w) = FILLED \<longleftrightarrow> q = 100"
    using v a(1) share(1) by (auto simp: update_status_def)
  show ?thesis
    using createFill_open[OF v refl u] st share q
    by (intro exI[of _ "update_status ?w"] exI[of _ q]) simp
qed

theorem createFill_cross_chain_witness:
  "\<exists>w. getOrder ''o1'' (snd (createFill 1500000 ''f1'' ''o1'' (demo_fill ''10'' (Some (Fin 100))) demo_engine)) = Some w
    \<and> filledAmount w = ''1000'' \<and> order_status w = FILLED"
proof -
  have c: "map_option (\<lambda>v. (order_status v, fromChain v, toChain v, fromAmount v, fills v)) (getOrder ''o1'' demo_engine)
      = Some (PENDING, ETHEREUM, APTOS, show_int 1000, [])"
    "show_int 1000 = ''1000''"
    "map_option filledPercentage (getOrder ''o1'' (snd (createFill 1500000 ''f1'' ''o1'' (demo_fill ''10'' (Some (Fin 100))) demo_engine))) = Some (Fin 100)"
    by code_simp+
  then obtain v where v: "getOrder ''o1'' demo_engine = Some v" by auto
  from createFill_cross_chain[OF v, of "demo_fill ''10'' (Some (Fin 100))" "Fin 100" 1000 1500000 "''f1''"] c v
  show ?thesis by (auto simp: demo_fill_def)
qed

text \<open>
  A fill of an open order within one chain: with readable amounts and a readable non-zero
  order amount the call succeeds, the filled amount is the sum of the amounts of all fills, the
  percentage is computed from it, and the order is filled exactly when the sum, in decimal form,
  is the order's amount as written. Nothing bounds the sum by the order.
\<close>

theorem createFill_same_chain:
  assumes v: "getOrder k s = Some v" "order_status v \<noteq> FILLED" "order_status v \<noteq> CANCELLED"
    and x: "fromChain v = toChain v" "js_BigInt (fromAmount v) = Inr n" "0 < n"
    and a: "\<forall>f \<in> set (fills v @ [make_fill now i k d]). is_ok (js_BigInt (fill_amount f)) \<and> 0 \<le> amount_of (fill_amount f)"
    and filled_def: "filled = (\<Sum>f\<leftarrow>fills v @ [make_fill now i k d]. amount_of (fill_amount f))"
  shows "\<exists>w. createFill now i k d s = (Inr (make_fill now i k d),
        emit (orderFill w (make_fill now i k d)) (put_order w k s)) \<and>
      fills w = fills v @ [make_fill now i k d] \<and> filledAmount w = show_int filled \<and>
      filledPercentage w = num_of_bigint (filled * 100 div n) \<and>
      (order_status w = FILLED \<longleftrightarrow> show_int filled = fromAmount v)"
proof -
  let ?fs = "fills v @ [make_fill now i k d]"
  let ?v1 = "v\<lparr>fills := ?fs, updatedAt := now\<rparr>"
  have t: "total_amount ''0'' ?fs = Inr (show_int filled)"
    using total_amount_sum[of ?fs 0] a by (simp add: filled_def show_int_0[THEN iffD2])
  have nn: "0 \<le> filled" unfolding filled_def using a by (intro sum_list_nonneg) auto
  let ?w = "?v1\<lparr>filledAmount := show_int filled, filledPercentage := num_of_bigint (filled * 100 div n)\<rparr>"
  have u: "update_filled ?v1 = (None, ?w)"
    using x t nn by (simp add: update_filled_def Let_def)
  have st: "order_status (update_status ?w) = FILLED \<longleftrightarrow> show_int filled = fromAmount v"
    using v by (auto simp: update_status_def)
  show ?thesis
    using createFill_open[OF v refl u] st by (intro exI[of _ "update_status ?w"]) simp
qed

theorem createFill_same_chain_witness:
  "\<exists>s w. getOrder ''o1'' s = Some w \<and> filledAmount w = ''1500'' \<and> fromAmount w = ''1000'' \<and> order_status w = PARTIALLY_FILLED"
proof -
  let ?s = "engine_step engine_init (CallCreate True 1000000 ''o1'' (demo_dto\<lparr>toChain := ETHEREUM, signature := ''0xsig''\<rparr>))"
  let ?t = "snd (createFill 1500000 ''f1'' ''o1'' (demo_fill ''1500'' None) ?s)"
  have c: "map_option (\<lambda>v. (order_status v, fromChain v, toChain v, fromAmount v, fills v)) (getOrder ''o1'' ?s)
      = Some (PENDING, ETHEREUM, ETHEREUM, ''1000'', [])"
    "js_BigInt ''1000'' = Inr 1000" "js_BigInt ''1500'' = Inr 1500" "show_int 1500 = ''1500''"
    "map_option order_status (getOrder ''o1'' ?t) = Some PARTIALLY_FILLED"
    "map_option fromAmount (getOrder ''o1'' ?t) = Some ''1000''"
    by code_simp+
  from c(1) obtain v where v: "getOrder ''o1'' ?s = Some v" by auto
  have am: "fill_amount (make_fill 1500000 ''f1'' ''o1'' (demo_fill ''1500'' None)) = ''1500''"
    by (simp add: demo_fill_def)
  from createFill_same_chain[OF v, of 1000 1500000 "''f1''" "demo_fill ''1500'' None" 1500] v c am
  obtain w where "getOrder ''o1'' ?t = Some w" "filledAmount w = ''1500''"
    by (auto simp: amount_of_def)
  with c(5,6) show ?thesis by (intro exI[of _ ?t] exI[of _ w]) simp
qed

text \<open>
  C26. A filled or cancelled order stays so: no sequence of creations, fills, fill updates,
  cancellations and clean-ups, nor an override of another order's percentage, changes its status,
  its filled amount or its list of fills.
\<close>

theorem closed_orders_stay_closed:
  assumes "engine_reachable s" "closed_as st amount ids k s"
    and "legal_run engine_step (\<lambda>s c. engine_ok s c \<and> no_override k c) s calls"
  shows "closed_as st amount ids k (foldl engine_step s calls)"
  using closed_m.run_stable[OF engine_reachable_inv[OF assms(1)] assms(3,2)] .

theorem closed_orders_stay_closed_witness:
  "closed_as CANCELLED ''0'' [] ''o1'' (foldl engine_step (engine_step demo_engine (CallCancel 1200000 ''o1'' ''0xAlice''))
     [CallFill 1500000 ''f1'' ''o1'' (demo_fill ''10'' (Some (Fin 100))), CallCleanup 3000000])"
proof -
  let ?s = "engine_step demo_engine (CallCancel 1200000 ''o1'' ''0xAlice'')"
  have r: "engine_reachable ?s" by (intro reach_step demo_engine_reachable) simp
  have "map_option (\<lambda>v. (order_status v, filledAmount v, map fill_id (fills v))) (getOrder ''o1'' ?s) = Some (CANCELLED, ''0'', [])"
    by code_simp
  then have c: "closed_as CANCELLED ''0'' [] ''o1'' ?s" by (auto simp: closed_as_def)
  have l: "legal_run engine_step (\<lambda>s c. engine_ok s c \<and> no_override ''o1'' c) ?s
     [CallFill 1500000 ''f1'' ''o1'' (demo_fill ''10'' (Some (Fin 100))), CallCleanup 3000000]" by code_simp
  show ?thesis by (rule closed_orders_stay_closed[OF r c l])
qed

text \<open>
  The override of the percentage has no guard on the status: reporting a percentage strictly
  between 0 and 100 reopens any order, cancelled and filled ones included, so that a fill is again
  not rejected as not fillable.
\<close>

theorem percentage_override_reopens:
  assumes "getOrder k s = Some v" "0 < p" "p < 100"
    and t_def: "t = snd (updateOrderFilledPercentage now k (Fin p) s)"
  shows "(\<exists>w. getOrder k t = Some w \<and> order_status w = PARTIALLY_FILLED \<and> filledPercentage w = Fin p \<and>
      filledAmount w = filledAmount v \<and> fills w = fills v) \<and>
    fst (createFill now' i k d t) \<noteq> Inl (Error ''Order is not fillable'')"
proof -
  let ?w = "v\<lparr>filledPercentage := Fin p, updatedAt := now, order_status := PARTIALLY_FILLED\<rparr>"
  have t: "getOrder k t = Some ?w"
    using assms by (simp add: t_def updateOrderFilledPercentage_def getOrder_def Let_def)
  obtain e w where u: "update_filled (?w\<lparr>fills := fills ?w @ [make_fill now' i k d], updatedAt := now'\<rparr>) = (e, w)"
    by fastforce
  have "e \<noteq> Some (Error m)" for m
    using u update_filled_not_Error by (metis fst_conv)
  then have "fst (createFill now' i k d t) \<noteq> Inl (Error ''Order is not fillable'')"
    using createFill_open[OF t _ _ refl u] by (cases e) auto
  with t show ?thesis by simp
qed

theorem percentage_override_reopens_witness:
  "let s = engine_step demo_engine (CallCancel 1200000 ''o1'' ''0xAlice'');
       t = snd (updateOrderFilledPercentage 1300000 ''o1'' (Fin 50) s)
   in map_option order_status (getOrder ''o1'' s) = Some CANCELLED \<and>
      map_option order_status (getOrder ''o1'' t) = Some PARTIALLY_FILLED"
proof -
  let ?s = "engine_step demo_engine (CallCancel 1200000 ''o1'' ''0xAlice'')"
  have c: "map_option order_status (getOrder ''o1'' ?s) = Some CANCELLED" by code_simp
  then obtain v where v: "getOrder ''o1'' ?s = Some v" by auto
  from c percentage_override_reopens[OF v _ _ refl, of 50 1300000 0 "''f1''" "demo_fill ''10'' None"]
  show ?thesis by (auto simp: Let_def)
qed

text \<open>
  Cancelling succeeds exactly for an existing order that is not filled and for its own maker;
  a refused cancellation changes nothing, a successful one takes the order out of the active
  orders and leaves the others as they were.
\<close>

theorem cancelOrder_authorised:
  assumes "engine_reachable s" "cancelOrder now k mk s = (r, t)"
  shows "(r = Inr () \<longleftrightarrow> (\<exists>v. getOrder k s = Some v \<and> maker v = mk \<and> order_status v \<noteq> FILLED)) \<and>
    (r \<noteq> Inr () \<longrightarrow> t = s) \<and>
    (r = Inr () \<longrightarrow> (\<exists>v. getOrder k t = Some v \<and> order_status v = CANCELLED) \<and>
      k \<notin> order_id ` set (getActiveOrders t) \<and> (\<forall>j. j \<noteq> k \<longrightarrow> getOrder j t = getOrder j s))"
proof -
  have inv: "engine_inv t"
    using rewrites_one_inv[OF cancelOrder_rewrites engine_reachable_inv[OF assms(1)], of now k mk] assms(2) by simp
  have "k \<notin> order_id ` set (getActiveOrders t)" if "getOrder k t = Some v" "order_status v = CANCELLED" for v
  proof
    assume "k \<in> order_id ` set (getActiveOrders t)"
    then obtain j w where w: "(j, w) \<in> set (orders t)" "order_id w = k" "order_status w \<noteq> CANCELLED"
      by (auto simp: getActiveOrders_def)
    then have "map_get (orders t) j = Some w" using inv by (simp add: engine_inv_def map_get_in)
    moreover from this have "j = k" using inv w(2)
      by (auto simp: engine_inv_def order_ok_def dest: jsm.all_entries_get)
    ultimately show False using that w(3) by (simp add: getOrder_def)
  qed
  with assms(2) show ?thesis
    by (auto simp: cancelOrder_def getOrder_def Let_def split: option.splits if_splits)
qed

theorem cancelOrder_authorised_witness:
  "fst (cancelOrder 1200000 ''o1'' ''0xMallory'' demo_engine) = Inl (Error ''Only maker can cancel order'') \<and>
   snd (cancelOrder 1200000 ''o1'' ''0xMallory'' demo_engine) = demo_engine"
proof -
  have c: "fst (cancelOrder 1200000 ''o1'' ''0xMallory'' demo_engine) = Inl (Error ''Only maker can cancel order'')"
    by code_simp
  with cancelOrder_authorised[OF demo_engine_reachable prod.collapse[symmetric], of 1200000 "''o1''" "''0xMallory''"]
  show ?thesis by simp
qed

text \<open>
  The clean-up is exact: it expires the pending orders whose deadline has passed, announces
  each of them, leaves every other order as it was, and a second run at the same time finds nothing
  left to expire.
\<close>

theorem cleanupExpiredOrders_exact:
  "(\<forall>k. getOrder k (cleanupExpiredOrders now s) =
      map_option (\<lambda>v. if expired_at now v then v\<lparr>order_status := EXPIRED, updatedAt := now\<rparr> else v) (getOrder k s)) \<and>
    emitted (cleanupExpiredOrders now s) = emitted s @
      map (\<lambda>v. orderExpired (v\<lparr>order_status := EXPIRED, updatedAt := now\<rparr>)) (filter (expired_at now) (map_values (orders s))) \<and>
    cleanupExpiredOrders now (cleanupExpiredOrders now s) = cleanupExpiredOrders now s \<and>
    filter (expired_at now) (getActiveOrders (cleanupExpiredOrders now s)) = []"
proof -
  have no: "\<not> expired_at now (if expired_at now v then expire now v else v)" for v
    by (simp add: expired_at_def expire_def)
  have os: "orders (cleanupExpiredOrders now s) = map (\<lambda>(k, v). (k, if expired_at now v then expire now v else v)) (orders s)"
    by (simp add: cleanupExpiredOrders_def cleanup_loop_eq)
  have none: "filter (expired_at now) (map_values (orders (cleanupExpiredOrders now s))) = []"
    unfolding os using no by (auto simp: filter_empty_conv)
  have "map (\<lambda>(k, v). (k, if expired_at now v then expire now v else v)) m = m"
    if "filter (expired_at now) (map_values m) = []" for m
    using that by (induction m) (auto split: if_splits)
  from this[OF none] have "cleanupExpiredOrders now (cleanupExpiredOrders now s) = cleanupExpiredOrders now s"
    using none by (simp add: cleanupExpiredOrders_def cleanup_loop_eq)
  moreover have "filter (expired_at now) (getActiveOrders (cleanupExpiredOrders now s)) = []"
    using none by (auto simp: getActiveOrders_def filter_empty_conv)
  moreover have "emitted (cleanupExpiredOrders now s) = emitted s @
      map (\<lambda>v. orderExpired (v\<lparr>order_status := EXPIRED, updatedAt := now\<rparr>)) (filter (expired_at now) (map_values (orders s)))"
    by (simp add: cleanupExpiredOrders_def cleanup_loop_eq expire_def)
  ultimately show ?thesis
    by (simp add: getOrder_def cleanup_get expire_def cong: if_cong)
qed

text \<open>
  A fill with an unreadable amount poisons an order within one chain: the call throws, but the
  fill has already been appended, and from then on every further fill of the order throws as well.
\<close>

theorem unreadable_fill_poisons_order:
  assumes v: "getOrder k s = Some v" "order_status v \<noteq> FILLED" "order_status v \<noteq> CANCELLED"
    and x: "fromChain v = toChain v" "js_BigInt (fill_amount d) = Inl e"
    and t_def: "t = snd (createFill now i k d s)"
  shows "(\<exists>err. fst (createFill now i k d s) = Inl err) \<and>
    (\<exists>w. getOrder k t = Some w \<and> fills w = fills v @ [make_fill now i k d] \<and> order_status w = order_status v) \<and>
    (\<exists>err. fst (createFill now' i' k d' t) = Inl err)"
proof -
  have bad: "\<exists>err. update_filled u = (Some err, u)"
    if "make_fill now i k d \<in> set (fills u)" "fromChain u = toChain u" for u
    using total_amount_error[of "make_fill now i k d" "fills u" e 0] that x(2)
    by (auto simp: update_filled_def show_int_0[THEN iffD2])
  let ?w = "v\<lparr>fills := fills v @ [make_fill now i k d], updatedAt := now\<rparr>"
  obtain e1 where e1: "update_filled ?w = (Some e1, ?w)" using bad[of ?w] x(1) by auto
  have c: "createFill now i k d s = (Inl e1, put_order ?w k s)" using createFill_open[OF v refl e1] by simp
  let ?u = "?w\<lparr>fills := fills ?w @ [make_fill now' i' k d'], updatedAt := now'\<rparr>"
  obtain e2 where e2: "update_filled ?u = (Some e2, ?u)" using bad[of ?u] x(1) by auto
  have g: "getOrder k t = Some ?w" by (simp add: t_def c)
  have "fst (createFill now' i' k d' t) = Inl e2"
    using createFill_open[OF g _ _ refl e2] v by simp
  with c g show ?thesis by auto
qed

theorem unreadable_fill_poisons_order_witness:
  "\<exists>s err. fst (createFill 1600000 ''f2'' ''o1'' (demo_fill ''1'' None) s) = Inl err"
proof -
  let ?s = "engine_step engine_init (CallCreate True 1000000 ''o1'' (demo_dto\<lparr>toChain := ETHEREUM, signature := ''0xsig''\<rparr>))"
  let ?d = "demo_fill ''1.5'' None"
  have c: "map_option (\<lambda>v. (order_status v, fromChain v, toChain v)) (getOrder ''o1'' ?s) = Some (PENDING, ETHEREUM, ETHEREUM)"
    "\<not> is_ok (js_BigInt ''1.5'')"
    by code_simp+
  then obtain v e where v: "getOrder ''o1'' ?s = Some v" and e: "js_BigInt ''1.5'' = Inl e"
    by (cases "js_BigInt ''1.5''") auto
  from unreadable_fill_poisons_order[OF v _ _ _ _ refl, of ?d e 1500000 "''f1''" 1600000 "''f2''" "demo_fill ''1'' None"] c e v
  show ?thesis by (auto simp: demo_fill_def)
qed

text \<open>
  The status of an order changes only in the ways of the table: a fill takes an order that is
  neither filled nor cancelled to partially filled or filled, a cancellation by its maker takes an
  order that is not filled to cancelled, the clean-up takes a pending order to expired, and the
  override takes any order to partially filled or filled.
\<close>

theorem status_transitions:
  assumes "engine_ok s c" "getOrder k s = Some v" "getOrder k (engine_step s c) = Some w"
  shows "order_status w = order_status v \<or>
    (case c of
       CallCreate valid now uuid dto \<Rightarrow> False
     | CallFill now uuid j d \<Rightarrow> j = k \<and> order_status v \<noteq> FILLED \<and> order_status v \<noteq> CANCELLED \<and>
         (order_status w = PARTIALLY_FILLED \<or> order_status w = FILLED)
     | CallFillStatus now j i st a b \<Rightarrow> False
     | CallCancel now j mk \<Rightarrow> j = k \<and> mk = maker v \<and> order_status v \<noteq> FILLED \<and> order_status w = CANCELLED
     | CallPercentage now j p \<Rightarrow> j = k \<and> (order_status w = PARTIALLY_FILLED \<or> order_status w = FILLED)
     | CallCleanup now \<Rightarrow> order_status v = PENDING \<and> order_status w = EXPIRED)"
proof (cases c)
  case (CallFill now uuid j d)
  show ?thesis
  proof (cases "j = k \<and> order_status v \<noteq> FILLED \<and> order_status v \<noteq> CANCELLED")
    case True
    obtain e u where u: "update_filled (v\<lparr>fills := fills v @ [make_fill now uuid j d], updatedAt := now\<rparr>) = (e, u)"
      by fastforce
    have "order_status u = order_status v" using update_filled_frame[OF u] by simp
    moreover have "w = u \<or> w = update_status u"
      using createFill_open[OF _ _ _ refl u] True assms CallFill by (cases e) auto
    ultimately show ?thesis using True by (auto simp: CallFill update_status_def)
  next
    case False
    then show ?thesis
      using assms CallFill
      by (auto simp: createFill_def getOrder_def Let_def split: option.splits prod.splits if_splits)
  qed
next
  case (CallCreate valid now uuid dto)
  then show ?thesis using assms by (auto simp: createOrder_def getOrder_def Let_def split: if_splits)
next
  case (CallFillStatus now j i st a b)
  then show ?thesis using assms
    by (auto simp: updateFillStatus_def getOrder_def Let_def split: option.splits if_splits)
next
  case (CallCancel now j mk)
  then show ?thesis using assms
    by (auto simp: cancelOrder_def getOrder_def Let_def split: option.splits if_splits)
next
  case (CallPercentage now j p)
  then show ?thesis using assms
    by (auto simp: updateOrderFilledPercentage_def getOrder_def Let_def split: option.splits if_splits)
next
  case (CallCleanup now)
  then show ?thesis using assms
    by (auto simp: getOrder_def cleanup_get expire_def expired_at_def split: if_splits)
qed

theorem status_transitions_witness:
  "map_option order_status (getOrder ''o1'' (engine_step demo_engine (CallCleanup 2000001))) = Some EXPIRED"
proof -
  have c: "engine_ok demo_engine (CallCleanup 2000001)" by simp
  have g: "map_option order_status (getOrder ''o1'' demo_engine) = Some PENDING"
    "map_option order_status (getOrder ''o1'' (engine_step demo_engine (CallCleanup 2000001))) \<noteq> Some PENDING"
    "getOrder ''o1'' (engine_step demo_engine (CallCleanup 2000001)) \<noteq> None"
    by code_simp+
  then obtain v w where v: "getOrder ''o1'' demo_engine = Some v"
    "getOrder ''o1'' (engine_step demo_engine (CallCleanup 2000001)) = Some w" by auto
  from status_transitions[OF c v] v g show ?thesis by auto
qed

text \<open>
  Patching a fill changes that fill only: an unknown order or fill is refused without a change;
  otherwise the fill with the id gets the status, keeps its amount and its percentage and every
  transaction hash that the patch does not replace, and all other fills, the filled amount and the
  status of the order stay.
\<close>

theorem updateFillStatus_local:
  assumes "engine_reachable s" "updateFillStatus now k i st a b s = (r, t)"
  shows "(r = Inr () \<longleftrightarrow> (\<exists>v. getOrder k s = Some v \<and> i \<in> fill_id ` set (fills v))) \<and>
    (r \<noteq> Inr () \<longrightarrow> t = s) \<and>
    (r = Inr () \<longrightarrow> (\<exists>v w. getOrder k s = Some v \<and> getOrder k t = Some w \<and>
      fills w = map (\<lambda>f. if fill_id f = i then patch_fill now st a b f else f) (fills v) \<and>
      filledAmount w = filledAmount v \<and> filledPercentage w = filledPercentage v \<and>
      order_status w = order_status v))"
proof (cases "getOrder k s")
  case (Some v)
  have "distinct (map fill_id (fills v))"
    using engine_reachable_inv[OF assms(1)] Some
    by (auto simp: engine_inv_def order_ok_def getOrder_def dest: jsm.all_entries_get)
  then have m: "update_first (\<lambda>f. fill_id f = i) (patch_fill now st a b) (fills v)
      = map (\<lambda>f. if fill_id f = i then patch_fill now st a b f else f) (fills v)"
    by (rule update_first_distinct)
  show ?thesis
  proof (cases "List.find (\<lambda>f. fill_id f = i) (fills v)")
    case None
    then have "i \<notin> fill_id ` set (fills v)" by (auto simp: find_None_iff)
    with None Some assms(2) show ?thesis by (auto simp: updateFillStatus_def getOrder_def)
  next
    case (Some f)
    then have "i \<in> fill_id ` set (fills v)" by (auto dest: find_Some_in)
    with Some \<open>getOrder k s = Some v\<close> assms(2) m show ?thesis
      by (auto simp: updateFillStatus_def getOrder_def Let_def)
  qed
qed (use assms(2) in \<open>auto simp: updateFillStatus_def getOrder_def\<close>)

theorem updateFillStatus_local_witness:
  "\<exists>t. updateFillStatus 1300000 ''o1'' ''nofill'' ''COMPLETED'' None None demo_engine = (Inl (Error ''Fill not found''), t) \<and>
    t = demo_engine"
proof -
  let ?c = "updateFillStatus 1300000 ''o1'' ''nofill'' ''COMPLETED'' None None demo_engine"
  have "fst ?c = Inl (Error ''Fill not found'')" by code_simp
  then obtain t where t: "?c = (Inl (Error ''Fill not found''), t)" by (cases ?c) auto
  then show ?thesis using updateFillStatus_local[OF demo_engine_reachable t] by auto
qed

end
