(* ===== verification/JSValue.thy ===== *)
theory JSValue
  imports JSNumber JSText
begin

section \<open>Untyped values\<close>

text \<open>
  Values of type \<^verbatim>\<open>any\<close>: the payloads of socket messages and HTTP bodies. Reading a property of
  \<^verbatim>\<open>undefined\<close> or \<^verbatim>\<open>null\<close> throws a \<open>TypeError\<close>, reading a missing property gives \<^verbatim>\<open>undefined\<close>.
\<close>

datatype jsval = JUndef | JNull | JBool bool | JNum jsnum | JBig int | JStr string
  | JArr "jsval list" | JObj "(string \<times> jsval) list"

fun truthy :: "jsval \<Rightarrow> bool" where
  "truthy JUndef = False"
| "truthy JNull = False"
| "truthy (JBool b) = b"
| "truthy (JNum x) = (x \<noteq> NaN \<and> x \<noteq> Fin 0)"
| "truthy (JBig n) = (n \<noteq> 0)"
| "truthy (JStr s) = (s \<noteq> '''')"
| "truthy (JArr xs) = True"
| "truthy (JObj ps) = True"

definition obj_get :: "(string \<times> jsval) list \<Rightarrow> string \<Rightarrow> jsval" where
  "obj_get ps k = (case map_of ps k of None \<Rightarrow> JUndef | Some v \<Rightarrow> v)"

text \<open>\<^verbatim>\<open>v.k\<close> for the property names the programs read.\<close>

fun get_prop :: "jsval \<Rightarrow> string \<Rightarrow> jsval res" where
  "get_prop JUndef k = Inl (TypeError (''Cannot read properties of undefined (reading '' @ k @ '')''))"
| "get_prop JNull k = Inl (TypeError (''Cannot read properties of null (reading '' @ k @ '')''))"
| "get_prop (JObj ps) k = Inr (obj_get ps k)"
| "get_prop _ k = Inr JUndef"

text \<open>\<^verbatim>\<open>v?.k\<close>: no error on \<^verbatim>\<open>undefined\<close> or \<^verbatim>\<open>null\<close>.\<close>

fun opt_prop :: "jsval \<Rightarrow> string \<Rightarrow> jsval" where
  "opt_prop (JObj ps) k = obj_get ps k"
| "opt_prop _ k = JUndef"

lemma get_prop_opt: "get_prop v k = Inr x \<Longrightarrow> opt_prop v k = x"
  by (cases v) auto

lemma get_prop_Inl: "get_prop v k = Inl e \<Longrightarrow> opt_prop v k = JUndef"
  by (cases v) auto

text \<open>\<^verbatim>\<open>a || b\<close>.\<close>

definition js_or :: "jsval \<Rightarrow> jsval \<Rightarrow> jsval" where
  "js_or a b = (if truthy a then a else b)"

subsection \<open>Conversion to a string\<close>

text \<open>
  A number prints with the fewest digits that read back as the number: \<open>digits_at k x\<close> is the
  nearest integer with the \<open>k\<close> leading digits of \<open>x\<close>, where \<open>10 ^ dec_exp x\<close> is the first power of
  ten above \<open>x\<close>.
\<close>

definition pow10 :: "int \<Rightarrow> rat" where
  "pow10 e = (if 0 \<le> e then of_int (10 ^ nat e) else 1 / of_int (10 ^ nat (- e)))"

fun dec_up :: "nat \<Rightarrow> rat \<Rightarrow> int \<Rightarrow> int" where
  "dec_up 0 x e = e"
| "dec_up (Suc fuel) x e = (if x < pow10 e then e else dec_up fuel x (e + 1))"

fun dec_down :: "nat \<Rightarrow> rat \<Rightarrow> int \<Rightarrow> int" where
  "dec_down 0 x e = e"
| "dec_down (Suc fuel) x e = (if pow10 (e - 1) \<le> x then e else dec_down fuel x (e - 1))"

definition dec_exp :: "rat \<Rightarrow> int" where
  "dec_exp x = (if x < 1 then dec_down 330 x 0 else dec_up 330 x 0)"

definition digits_at :: "int \<Rightarrow> rat \<Rightarrow> int" where
  "digits_at k x = rne (x / pow10 (dec_exp x - k))"

fun shortest :: "nat \<Rightarrow> int \<Rightarrow> rat \<Rightarrow> int" where
  "shortest 0 k x = k"
| "shortest (Suc fuel) k x =
     (if rnd64 (of_int (digits_at k x) * pow10 (dec_exp x - k)) = x then k else shortest fuel (k + 1) x)"

definition show_pos_num :: "rat \<Rightarrow> string" where
  "show_pos_num x =
     (let k = shortest 16 1 x;
          n = dec_exp x;
          ds = show_int (digits_at k x);
          kk = int (length ds);
          expo = (\<lambda>e. ''e'' @ (if 0 \<le> e then ''+'' else ''-'') @ show_int \<bar>e\<bar>)
      in if kk \<le> n \<and> n \<le> 21 then ds @ replicate (nat (n - kk)) (CHR ''0'')
         else if 0 < n \<and> n \<le> 21 then take (nat n) ds @ ''.'' @ drop (nat n) ds
         else if - 6 < n \<and> n \<le> 0 then ''0.'' @ replicate (nat (- n)) (CHR ''0'') @ ds
         else if kk = 1 then ds @ expo (n - 1)
         else take 1 ds @ ''.'' @ drop 1 ds @ expo (n - 1))"

fun show_num :: "jsnum \<Rightarrow> string" where
  "show_num (Fin x) =
     (if x = 0 then ''0'' else if x < 0 then ''-'' @ show_pos_num (- x) else show_pos_num x)"
| "show_num PosInf = ''Infinity''"
| "show_num NegInf = ''-Infinity''"
| "show_num NaN = ''NaN''"

text \<open>An array joins its elements with commas, the missing ones as the empty string.\<close>

fun join_with :: "string \<Rightarrow> string list \<Rightarrow> string" where
  "join_with sep [] = ''''"
| "join_with sep [x] = x"
| "join_with sep (x # xs) = x @ sep @ join_with sep xs"

fun to_string :: "jsval \<Rightarrow> string" where
  "to_string JUndef = ''undefined''"
| "to_string JNull = ''null''"
| "to_string (JBool b) = (if b then ''true'' else ''false'')"
| "to_string (JNum x) = show_num x"
| "to_string (JBig n) = show_int n"
| "to_string (JStr s) = s"
| "to_string (JArr xs) = join_with '','' (map (\<lambda>v. if v = JUndef \<or> v = JNull then '''' else to_string v) xs)"
| "to_string (JObj ps) = ''[object Object]''"

subsection \<open>Reading numbers\<close>

text \<open>The longest prefix of digits, as its value with the number of digits, and the rest.\<close>

fun digits_prefix :: "int \<Rightarrow> int \<Rightarrow> int \<Rightarrow> string \<Rightarrow> int \<times> int \<times> string" where
  "digits_prefix r acc n [] = (acc, n, [])"
| "digits_prefix r acc n (c # cs) =
     (case digit_val r c of
        None \<Rightarrow> (acc, n, c # cs)
      | Some d \<Rightarrow> digits_prefix r (acc * r + d) (n + 1) cs)"

fun strip_sign :: "string \<Rightarrow> int \<times> string" where
  "strip_sign [] = (1, [])"
| "strip_sign (c # cs) = (if c = CHR ''-'' then (- 1, cs) else if c = CHR ''+'' then (1, cs) else (1, c # cs))"

definition js_parseInt :: "string \<Rightarrow> jsnum" where
  "js_parseInt s =
     (let (sg, t) = strip_sign (dropWhile is_space s);
          (r, u) = (if startsWith t ''0x'' \<or> startsWith t ''0X'' then (16, drop 2 t) else (10, t));
          (v, n, rest) = digits_prefix r 0 0 u
      in if n = 0 then NaN else fl (of_int (sg * v)))"

text \<open>A decimal literal: digits, an optional fraction, an optional exponent.\<close>

definition read_exponent :: "string \<Rightarrow> int" where
  "read_exponent t =
     (case t of
        c # cs \<Rightarrow>
          if c = CHR ''e'' \<or> c = CHR ''E'' then
            let (sg, u) = strip_sign cs; (v, n, rest) = digits_prefix 10 0 0 u
            in if n = 0 then 0 else sg * v
          else 0
      | [] \<Rightarrow> 0)"

definition js_parseFloat :: "string \<Rightarrow> jsnum" where
  "js_parseFloat s =
     (let (sg, t) = strip_sign (dropWhile is_space s)
      in if startsWith t ''Infinity'' then (if sg = 1 then PosInf else NegInf)
      else
        let (ip, n1, u) = digits_prefix 10 0 0 t;
            (m, n2, w) = (case u of
                c # cs \<Rightarrow> if c = CHR ''.'' then digits_prefix 10 ip 0 cs else (ip, 0, u)
              | [] \<Rightarrow> (ip, 0, u))
        in if n1 + n2 = 0 then NaN
           else fl (of_int (sg * m) * pow10 (read_exponent w - n2)))"

text \<open>The address constant of \<^verbatim>\<open>ethers\<close> that stands for the native currency.\<close>

definition ZeroAddress :: string where
  "ZeroAddress = ''0x'' @ replicate 40 (CHR ''0'')"

lemma parse_examples:
  "js_parseInt ''150000000abc'' = Fin 150000000" "js_parseFloat ''1.5'' = Fin (3 / 2)"
  "js_parseFloat '' -2e3'' = Fin (- 2000)" "js_parseInt '''' = NaN"
  by code_simp+


lemma show_num_examples: "show_num (Fin 480) = ''480''" "show_num (fl (1 / 10)) = ''0.1''"
  by code_simp+

end
