(* ===== verification/OrderApi.thy ===== *)
theory OrderApi
  imports OrderService JSValue
begin

section \<open>The HTTP interface of the order engine\<close>

text \<open>
  The routes of \<^verbatim>\<open>backend/order-engine/src/api/routes/orders.ts\<close>: one constructor of \<open>request\<close> per route
  with what its handler reads of the request, one branch of \<open>handle_request\<close> per handler. The schema
  check \<^verbatim>\<open>CreateOrderSchema.parse\<close> is the argument \<open>parse_order\<close>; its failure carries the issues it
  reports. What a call draws from outside (id, time, verdict on the signature) is in \<open>api_env\<close>.
  The bodies posted for fills have the declared shape.
\<close>

record api_env =
  env_now :: int
  env_uuid :: string
  env_valid :: "CreateOrderDto \<Rightarrow> bool"
  parse_order :: "jsval \<Rightarrow> jsval + CreateOrderDto"

datatype request =
    PostOrder jsval
  | GetOrder string
  | GetOrdersByMaker string
  | GetActive
  | PostCancel string "string option"
  | PostFill string FillData
  | PatchFill string string string "string option" "string option"

datatype body =
    DataOrder Order
  | DataOrders "Order list"
  | DataFill Fill
  | Success
  | Failure string
  | ValidationFailure jsval

record response =
  http_status :: nat
  http_body :: body

definition respond :: "nat \<Rightarrow> body \<Rightarrow> response" where
  "respond st b = \<lparr>http_status = st, http_body = b\<rparr>"

text \<open>
  Every error the service throws is an instance of \<^verbatim>\<open>Error\<close>, so the last branch of a handler's catch
  clause has no counterpart.
\<close>

definition failure :: "js_error \<Rightarrow> response" where
  "failure e = respond 400 (Failure (message e))"

definition post_order :: "api_env \<Rightarrow> jsval \<Rightarrow> engine \<Rightarrow> response \<times> engine" where
  "post_order env body s =
     (case parse_order env body of
        Inl issues \<Rightarrow> (respond 400 (ValidationFailure issues), s)
      | Inr orderDto \<Rightarrow>
          (case createOrder (env_valid env orderDto) (env_now env) (env_uuid env) orderDto s of
             (Inr order, t) \<Rightarrow> (respond 200 (DataOrder order), t)
           | (Inl e, t) \<Rightarrow> (failure e, t)))"

definition get_order :: "string \<Rightarrow> engine \<Rightarrow> response" where
  "get_order orderId s =
     (case getOrder orderId s of
        None \<Rightarrow> respond 404 (Failure ''Order not found'')
      | Some order \<Rightarrow> respond 200 (DataOrder order))"

definition post_cancel :: "api_env \<Rightarrow> string \<Rightarrow> string option \<Rightarrow> engine \<Rightarrow> response \<times> engine" where
  "post_cancel env orderId mk s =
     (case mk of
        None \<Rightarrow> (respond 400 (Failure ''Maker address required''), s)
      | Some m \<Rightarrow>
          if m = '''' then (respond 400 (Failure ''Maker address required''), s)
          else (case cancelOrder (env_now env) orderId m s of
             (Inr _, t) \<Rightarrow> (respond 200 Success, t)
           | (Inl e, t) \<Rightarrow> (failure e, t)))"

definition post_fill :: "api_env \<Rightarrow> string \<Rightarrow> FillData \<Rightarrow> engine \<Rightarrow> response \<times> engine" where
  "post_fill env orderId fill s =
     (case createFill (env_now env) (env_uuid env) orderId fill s of
        (Inr f, t) \<Rightarrow> (respond 200 (DataFill f), t)
      | (Inl e, t) \<Rightarrow> (failure e, t))"

definition patch_fill_route ::
  "api_env \<Rightarrow> string \<Rightarrow> string \<Rightarrow> string \<Rightarrow> string option \<Rightarrow> string option \<Rightarrow> engine \<Rightarrow> response \<times> engine" where
  "patch_fill_route env orderId fillId st srcHash dstHash s =
     (case updateFillStatus (env_now env) orderId fillId st srcHash dstHash s of
        (Inr _, t) \<Rightarrow> (respond 200 Success, t)
      | (Inl e, t) \<Rightarrow> (failure e, t))"

fun handle_request :: "api_env \<Rightarrow> request \<Rightarrow> engine \<Rightarrow> response \<times> engine" where
  "handle_request env (PostOrder body) s = post_order env body s"
| "handle_request env (GetOrder orderId) s = (get_order orderId s, s)"
| "handle_request env (GetOrdersByMaker mk) s = (respond 200 (DataOrders (getOrdersByMaker mk s)), s)"
| "handle_request env GetActive s = (respond 200 (DataOrders (getActiveOrders s)), s)"
| "handle_request env (PostCancel orderId mk) s = post_cancel env orderId mk s"
| "handle_request env (PostFill orderId fill) s = post_fill env orderId fill s"
| "handle_request env (PatchFill orderId fillId st srcHash dstHash) s =
     patch_fill_route env orderId fillId st srcHash dstHash s"

subsection \<open>Requests as calls of the service\<close>

text \<open>The call a request makes, if it makes one that can change the book.\<close>

fun call_of :: "api_env \<Rightarrow> request \<Rightarrow> engine_call option" where
  "call_of env (PostOrder body) =
     (case parse_order env body of Inl _ \<Rightarrow> None
      | Inr dto \<Rightarrow> Some (CallCreate (env_valid env dto) (env_now env) (env_uuid env) dto))"
| "call_of env (PostCancel orderId mk) =
     (case mk of None \<Rightarrow> None | Some m \<Rightarrow> if m = '''' then None else Some (CallCancel (env_now env) orderId m))"
| "call_of env (PostFill orderId fill) = Some (CallFill (env_now env) (env_uuid env) orderId fill)"
| "call_of env (PatchFill orderId fillId st a b) = Some (CallFillStatus (env_now env) orderId fillId st a b)"
| "call_of env _ = None"


text \<open>
  Status codes: a request is answered with 200, 400 or 404; 404 only for reading an unknown
  order. The answer to a stored order read by its id is the order, and what is answered to a
  successful creation can be read back at once under the id it carries.
\<close>

theorem handle_request_answers:
  assumes "handle_request env rq s = (resp, t)"
  shows "http_status resp \<in> {200, 400, 404} \<and>
    (http_status resp = 404 \<longleftrightarrow> (\<exists>k. rq = GetOrder k \<and> getOrder k s = None)) \<and>
    (\<forall>body v. rq = PostOrder body \<and> resp = respond 200 (DataOrder v) \<longrightarrow>
      handle_request env' (GetOrder (order_id v)) t = (respond 200 (DataOrder v), t))"
proof (cases rq)
  case (PostOrder body)
  show ?thesis
  proof (cases "parse_order env body")
    case (Inr dto)
    obtain r u where c: "createOrder (env_valid env dto) (env_now env) (env_uuid env) dto s = (r, u)" by fastforce
    show ?thesis
    proof (cases r)
      case (Inr v)
      with c have "getOrder (env_uuid env) u = Some v" "order_id v = env_uuid env"
        by (auto simp: createOrder_def getOrder_def Let_def split: if_splits)
      then show ?thesis
        using assms PostOrder Inr c \<open>parse_order env body = Inr dto\<close>
        by (auto simp: post_order_def respond_def get_order_def)
    qed (use assms PostOrder c Inr in \<open>auto simp: post_order_def respond_def failure_def\<close>)
  qed (use assms PostOrder in \<open>auto simp: post_order_def respond_def\<close>)
qed (use assms in \<open>auto simp: get_order_def post_cancel_def post_fill_def patch_fill_route_def
      respond_def failure_def split: sum.splits option.splits prod.splits if_splits\<close>)

theorem handle_request_answers_witness:
  "http_status (fst (handle_request \<lparr>env_now = 1000000, env_uuid = ''o2'', env_valid = \<lambda>d. True,
      parse_order = \<lambda>b. Inl b\<rparr> (GetOrder ''nope'') demo_engine)) = 404"
proof -
  have n: "getOrder ''nope'' demo_engine = None" by code_simp
  show ?thesis
    using handle_request_answers[OF prod.collapse[symmetric], of "\<lparr>env_now = 1000000, env_uuid = ''o2'',
      env_valid = \<lambda>d. True, parse_order = \<lambda>b. Inl b\<rparr>" "GetOrder ''nope''" demo_engine] n by blast
qed

end
