(* ===== verification/OrderSocket.thy ===== *)
theory OrderSocket
  imports OrderService JSValue
begin

section \<open>The socket server of the order engine\<close>

text \<open>
  \<^verbatim>\<open>backend/order-engine/src/websocket/orderSocket.ts\<close> and the timer of \<^verbatim>\<open>index.ts\<close>. The server holds
  the book, the rooms its sockets have joined and what it has sent, oldest first. A message of a
  client is its event with its payload; \<^verbatim>\<open>order:new\<close>, whose payload the handler uses as an order,
  has a constructor of its own. A handler returns the error it throws, which is not caught.
\<close>

datatype target = AllClients | ToRoom string | ToSocket string

datatype payload = PVal jsval | POrder Order | POrderFill Order Fill | PCreated string | PError string

record server =
  srv_engine :: engine
  rooms :: "(string, string jsset) jsmap"
  sent :: "(target \<times> string \<times> payload) list"

datatype client_msg = Msg string jsval | OrderNew CreateOrderDto

subsection \<open>Events of the service\<close>

text \<open>The listeners registered on the service; \<^verbatim>\<open>orderUpdate\<close> has none.\<close>

fun broadcast_of :: "EngineEvent \<Rightarrow> (target \<times> string \<times> payload) list" where
  "broadcast_of (newOrder order) = [(AllClients, ''order:new'', POrder order)]"
| "broadcast_of (orderFill order fill) = [(AllClients, ''order:fill'', POrderFill order fill)]"
| "broadcast_of (fillStatusUpdate order fill) = [(AllClients, ''fill:statusUpdate'', POrderFill order fill)]"
| "broadcast_of (orderCancelled order) = [(AllClients, ''order:cancelled'', POrder order)]"
| "broadcast_of (orderExpired order) = [(AllClients, ''order:expired'', POrder order)]"
| "broadcast_of (orderUpdate order) = []"

text \<open>Running a method of the service sends what its listeners send.\<close>

definition with_engine :: "(engine \<Rightarrow> 'a \<times> engine) \<Rightarrow> server \<Rightarrow> 'a \<times> server" where
  "with_engine f s =
     (let (r, e) = f (srv_engine s);
          news = drop (length (emitted (srv_engine s))) (emitted e)
      in (r, s\<lparr>srv_engine := e, sent := sent s @ concat (map broadcast_of news)\<rparr>))"

definition send :: "target \<Rightarrow> string \<Rightarrow> payload \<Rightarrow> server \<Rightarrow> server" where
  "send tgt ev p s = s\<lparr>sent := sent s @ [(tgt, ev, p)]\<rparr>"

definition room_of :: "string \<Rightarrow> server \<Rightarrow> string jsset" where
  "room_of room s = (case map_get (rooms s) room of None \<Rightarrow> [] | Some ss \<Rightarrow> ss)"

definition join_room :: "string \<Rightarrow> string \<Rightarrow> server \<Rightarrow> server" where
  "join_room sock room s = s\<lparr>rooms := map_set (rooms s) room (set_add (room_of room s) sock)\<rparr>"

definition leave_room :: "string \<Rightarrow> string \<Rightarrow> server \<Rightarrow> server" where
  "leave_room sock room s = s\<lparr>rooms := map_set (rooms s) room (set_remove (room_of room s) sock)\<rparr>"

subsection \<open>Messages of clients\<close>

text \<open>The relayed events, each with the event sent to the room of the order.\<close>

definition relays :: "(string \<times> string) list" where
  "relays =
     [(''escrow:destination:created'', ''order:escrowCreated''),
      (''escrow:source:created'', ''order:sourceEscrowCreated''),
      (''escrow:secretRevealed'', ''order:secretRevealed''),
      (''escrow:source:withdrawn'', ''order:sourceWithdrawn''),
      (''swap:completed'', ''order:completed''),
      (''order:failed'', ''order:failed''),
      (''order:signed'', ''order:signed''),
      (''order:signed:sponsored:v2'', ''order:signed:sponsored:v2''),
      (''order:signed:sponsored:v3'', ''order:signed:sponsored:v3''),
      (''order:signed:with:permit'', ''order:signed:with:permit''),
      (''secret:request'', ''secret:request''),
      (''secret:reveal'', ''secret:reveal'')]"

definition relay :: "string \<Rightarrow> string \<Rightarrow> jsval \<Rightarrow> server \<Rightarrow> unit res \<times> server" where
  "relay ev roomEvent data s =
     (let s1 = send AllClients ev (PVal data) s
      in case get_prop data ''orderId'' of
           Inl e \<Rightarrow> (Inl e, s1)
         | Inr orderId \<Rightarrow>
             (Inr (), if truthy orderId
                then send (ToRoom (''order:'' @ to_string orderId)) roomEvent (PVal data) s1 else s1))"

text \<open>
  The percentage of a reported partial fill overrides the one of the order. The reports of the
  resolvers carry numbers; any other value is read as NaN here.
\<close>

fun percentage_of :: "jsval \<Rightarrow> jsnum" where
  "percentage_of (JNum x) = x"
| "percentage_of _ = NaN"

definition partial_fill_created :: "int \<Rightarrow> jsval \<Rightarrow> server \<Rightarrow> unit res \<times> server" where
  "partial_fill_created now data s =
     (case get_prop data ''orderId'' of
        Inl e \<Rightarrow> (Inl e, s)
      | Inr orderId \<Rightarrow>
          let s1 = (if truthy orderId \<and> opt_prop data ''cumulativePercentage'' \<noteq> JUndef
                then snd (with_engine (updateOrderFilledPercentage now (to_string orderId)
                  (percentage_of (opt_prop data ''cumulativePercentage''))) s)
                else s)
          in (Inr (), send AllClients ''partial:fill:created'' (PVal data) s1))"

definition on_message ::
  "(CreateOrderDto \<Rightarrow> bool) \<Rightarrow> int \<Rightarrow> string \<Rightarrow> string \<Rightarrow> client_msg \<Rightarrow> server \<Rightarrow> unit res \<times> server" where
  "on_message valid now uuid sock msg s =
     (case msg of
        OrderNew order \<Rightarrow>
          (case with_engine (createOrder (valid order) now uuid order) s of
             (Inr createdOrder, s1) \<Rightarrow>
               (Inr (), send (ToSocket sock) ''order:created'' (PCreated (order_id createdOrder)) s1)
           | (Inl e, s1) \<Rightarrow> (Inr (), send (ToSocket sock) ''error'' (PError (message e)) s1))
      | Msg ev data \<Rightarrow>
          if ev = ''subscribe:order'' then (Inr (), join_room sock (''order:'' @ to_string data) s)
          else if ev = ''unsubscribe:order'' then (Inr (), leave_room sock (''order:'' @ to_string data) s)
          else if ev = ''subscribe:maker'' then (Inr (), join_room sock (''maker:'' @ to_string data) s)
          else if ev = ''unsubscribe:maker'' then (Inr (), leave_room sock (''maker:'' @ to_string data) s)
          else if ev = ''subscribe:active'' then (Inr (), join_room sock ''active:orders'' s)
          else if ev = ''partial:fill:created'' then partial_fill_created now data s
          else if ev = ''partial:fill:completed'' \<or> ev = ''order:update''
            then (Inr (), send AllClients ev (PVal data) s)
          else (case map_of relays ev of
                  Some roomEvent \<Rightarrow> relay ev roomEvent data s
                | None \<Rightarrow> (Inr (), s)))"

text \<open>The clean-up timer.\<close>

definition on_timer :: "int \<Rightarrow> server \<Rightarrow> server" where
  "on_timer now s = snd (with_engine (\<lambda>e. ((), cleanupExpiredOrders now e)) s)"

subsection \<open>Lemmas\<close>

lemma send_simps [simp]:
  "srv_engine (send t ev p s) = srv_engine s" "rooms (send t ev p s) = rooms s"
  "sent (send t ev p s) = sent s @ [(t, ev, p)]"
  by (simp_all add: send_def)

lemma room_simps [simp]:
  "srv_engine (join_room a b s) = srv_engine s" "srv_engine (leave_room a b s) = srv_engine s"
  "sent (join_room a b s) = sent s" "sent (leave_room a b s) = sent s"
  by (simp_all add: join_room_def leave_room_def)

lemma with_engine_emitting:
  "f (srv_engine s) = (r, e) \<Longrightarrow> emitted e = emitted (srv_engine s) @ evs \<Longrightarrow>
   with_engine f s = (r, s\<lparr>srv_engine := e, sent := sent s @ concat (map broadcast_of evs)\<rparr>)"
  by (simp add: with_engine_def)

text \<open>The call of the book a message makes, if any.\<close>

fun message_call :: "(CreateOrderDto \<Rightarrow> bool) \<Rightarrow> int \<Rightarrow> string \<Rightarrow> client_msg \<Rightarrow> engine_call option" where
  "message_call valid now uuid (OrderNew order) = Some (CallCreate (valid order) now uuid order)"
| "message_call valid now uuid (Msg ev data) =
     (if ev = ''partial:fill:created'' \<and> truthy (opt_prop data ''orderId'') \<and>
         opt_prop data ''cumulativePercentage'' \<noteq> JUndef
      then Some (CallPercentage now (to_string (opt_prop data ''orderId''))
        (percentage_of (opt_prop data ''cumulativePercentage''))) else None)"

lemma relay_engine [simp]: "srv_engine (snd (relay ev r d s)) = srv_engine s"
  by (simp add: relay_def Let_def split: sum.splits)

lemma with_engine_srv [simp]: "srv_engine (snd (with_engine f s)) = snd (f (srv_engine s))"
  by (simp add: with_engine_def Let_def case_prod_unfold)

lemma partial_fill_created_engine:
  "srv_engine (snd (partial_fill_created now d s)) =
     (case message_call valid now uuid (Msg ''partial:fill:created'' d) of
        None \<Rightarrow> srv_engine s | Some c \<Rightarrow> engine_step (srv_engine s) c)"
  by (auto simp: partial_fill_created_def Let_def dest: get_prop_opt get_prop_Inl split: sum.splits)

subsection \<open>Properties\<close>


text \<open>
  A relayed event goes to every client unchanged and under its own name, and, when it names an
  order, once more to the room of that order; nothing else is sent, and the rooms stay.
\<close>

theorem relay_sends:
  assumes "(ev, roomEvent) \<in> set relays" "get_prop data ''orderId'' = Inr k"
  shows "on_message valid now uuid sock (Msg ev data) s = (Inr (),
    s\<lparr>sent := sent s @ [(AllClients, ev, PVal data)] @
      (if truthy k then [(ToRoom (''order:'' @ to_string k), roomEvent, PVal data)] else [])\<rparr>)"
proof -
  have "map_of relays ev = Some roomEvent"
    using assms(1) by (intro map_of_is_SomeI) (simp_all add: relays_def)
  moreover have "ev \<notin> {''subscribe:order'', ''unsubscribe:order'', ''subscribe:maker'', ''unsubscribe:maker'',
      ''subscribe:active'', ''partial:fill:created'', ''partial:fill:completed'', ''order:update''}"
    using assms(1) by (auto simp: relays_def)
  ultimately show ?thesis
    using assms(2) by (auto simp: on_message_def relay_def Let_def send_def)
qed

theorem relay_sends_witness:
  "sent (snd (on_message (\<lambda>d. True) 0 ''u'' ''sock1'' (Msg ''secret:reveal'' (JObj [(''orderId'', JStr ''o1'')]))
      \<lparr>srv_engine = engine_init, rooms = [], sent = []\<rparr>))
    = [(AllClients, ''secret:reveal'', PVal (JObj [(''orderId'', JStr ''o1'')])),
       (ToRoom ''order:o1'', ''secret:reveal'', PVal (JObj [(''orderId'', JStr ''o1'')]))]"
proof -
  have r: "(''secret:reveal'', ''secret:reveal'') \<in> set relays" by code_simp
  have g: "get_prop (JObj [(''orderId'', JStr ''o1'')]) ''orderId'' = Inr (JStr ''o1'')" by code_simp
  show ?thesis by (simp add: relay_sends[OF r g])
qed

text \<open>
  Every change of the book is announced once to all clients, except an override of a percentage:
  the service announces it under a name no listener is registered for, so no client is told that
  the status of the order has changed.
\<close>

theorem book_changes_announced:
  fixes valid :: "CreateOrderDto \<Rightarrow> bool"
  shows "(fst (createOrder b now uuid dto (srv_engine s)) = Inr v \<longrightarrow>
      sent (snd (with_engine (createOrder b now uuid dto) s)) = sent s @ [(AllClients, ''order:new'', POrder v)]) \<and>
    (fst (createFill now uuid k d (srv_engine s)) = Inr f \<longrightarrow>
      (\<exists>w. getOrder k (snd (createFill now uuid k d (srv_engine s))) = Some w \<and>
        sent (snd (with_engine (createFill now uuid k d) s)) = sent s @ [(AllClients, ''order:fill'', POrderFill w f)])) \<and>
    sent (snd (with_engine (updateOrderFilledPercentage now k p) s)) = sent s"
proof (intro conjI impI)
  assume "fst (createOrder b now uuid dto (srv_engine s)) = Inr v"
  then show "sent (snd (with_engine (createOrder b now uuid dto) s)) = sent s @ [(AllClients, ''order:new'', POrder v)]"
    by (auto simp: createOrder_def with_engine_def Let_def split: if_splits)
next
  assume a: "fst (createFill now uuid k d (srv_engine s)) = Inr f"
  then obtain w where "createFill now uuid k d (srv_engine s) = (Inr f, emit (orderFill w f) (put_order w k (srv_engine s)))"
    by (auto simp: createFill_def Let_def split: option.splits prod.splits if_splits)
  then show "\<exists>w. getOrder k (snd (createFill now uuid k d (srv_engine s))) = Some w \<and>
        sent (snd (with_engine (createFill now uuid k d) s)) = sent s @ [(AllClients, ''order:fill'', POrderFill w f)]"
    by (simp add: with_engine_def)
next
  show "sent (snd (with_engine (updateOrderFilledPercentage now k p) s)) = sent s"
    by (simp add: updateOrderFilledPercentage_def with_engine_def Let_def split: option.splits)
qed

theorem book_changes_announced_witness:
  "\<exists>v. sent (snd (with_engine (createOrder True 1000000 ''o1'' demo_dto) \<lparr>srv_engine = engine_init, rooms = [], sent = []\<rparr>))
    = [(AllClients, ''order:new'', POrder v)]"
proof -
  let ?s = "\<lparr>srv_engine = engine_init, rooms = [], sent = []\<rparr>"
  have "is_ok (fst (createOrder True 1000000 ''o1'' demo_dto (srv_engine ?s)))" by code_simp
  then obtain v where "fst (createOrder True 1000000 ''o1'' demo_dto (srv_engine ?s)) = Inr v"
    by (cases "fst (createOrder True 1000000 ''o1'' demo_dto (srv_engine ?s))") auto
  with book_changes_announced[of True 1000000 "''o1''" demo_dto ?s v] show ?thesis by auto
qed

end
