(* ===== verification/Relayer.thy ===== *)
theory Relayer
  imports JSValue
begin

section \<open>The relayer\<close>

text \<open>
  \<^verbatim>\<open>backend/relayer/src/services/RelayerServiceSimple.ts\<close>. Handling \<^verbatim>\<open>POST /relay\<close> has two atomic
  halves: up to the contract call, whose transaction is then awaited, and from the receipt to the
  answer. Requests whose transaction is pending are in flight, and other requests are handled in
  between. The conversion \<^verbatim>\<open>ethers.getBigInt\<close> is an argument; the outcome of a transaction is an event.
\<close>

record RelayRequest =
  rq_chain :: "string option"
  rq_type :: "string option"
  rq_params :: jsval
  rq_signature :: "string option"
  rq_nonce :: "string option"

datatype contract_call =
    createEscrowCall "jsval list" int
  | withdrawCall jsval jsval

definition present :: "string option \<Rightarrow> bool" where
  "present x = (case x of None \<Rightarrow> False | Some t \<Rightarrow> t \<noteq> '''')"

definition validateRequest :: "RelayRequest \<Rightarrow> bool" where
  "validateRequest request \<longleftrightarrow>
     \<not> (\<not> present (rq_chain request) \<or> \<not> present (rq_type request) \<or> \<not> truthy (rq_params request) \<or>
        \<not> present (rq_signature request) \<or> \<not> present (rq_nonce request))"

definition relayCreateEscrow :: "(jsval \<Rightarrow> int res) \<Rightarrow> RelayRequest \<Rightarrow> contract_call res" where
  "relayCreateEscrow getBigInt request =
     (let params = rq_params request;
          value = (if opt_prop params ''token'' = JStr ZeroAddress
            then bind_res (getBigInt (opt_prop params ''amount'')) (\<lambda>amount.
                 bind_res (getBigInt (js_or (opt_prop params ''safetyDeposit'') (JStr ''0''))) (\<lambda>deposit.
                 Inr (amount + deposit)))
            else Inr 0)
      in bind_res value (\<lambda>v. Inr (createEscrowCall
           [opt_prop params ''escrowId'', opt_prop params ''beneficiary'', opt_prop params ''token'',
            opt_prop params ''amount'', opt_prop params ''hashlock'', opt_prop params ''timelock''] v)))"

definition relayWithdrawEscrow :: "RelayRequest \<Rightarrow> contract_call res" where
  "relayWithdrawEscrow request =
     (let params = rq_params request
      in Inr (withdrawCall (opt_prop params ''escrowId'') (opt_prop params ''secret'')))"

definition executeRelay :: "(jsval \<Rightarrow> int res) \<Rightarrow> RelayRequest \<Rightarrow> contract_call res" where
  "executeRelay getBigInt request =
     (if rq_type request = Some ''CREATE_ESCROW'' then relayCreateEscrow getBigInt request
      else if rq_type request = Some ''WITHDRAW_ESCROW'' then relayWithdrawEscrow request
      else Inl (Error (''Unsupported relay type: '' @
        (case rq_type request of None \<Rightarrow> ''undefined'' | Some t \<Rightarrow> t))))"

subsection \<open>Handling requests\<close>

datatype answer = Rejected nat string | Relayed string

record relayer =
  usedNonces :: "string jsset"
  inflight :: "(nat, RelayRequest) jsmap"
  submitted :: "(nat \<times> contract_call) list"
  answered :: "(nat \<times> RelayRequest \<times> answer) list"

definition relayer_init :: relayer where
  "relayer_init = \<lparr>usedNonces = [], inflight = [], submitted = [], answered = []\<rparr>"

definition nonce_of :: "RelayRequest \<Rightarrow> string" where
  "nonce_of request = (case rq_nonce request of None \<Rightarrow> '''' | Some n \<Rightarrow> n)"

definition answer_with :: "nat \<Rightarrow> RelayRequest \<Rightarrow> answer \<Rightarrow> relayer \<Rightarrow> relayer" where
  "answer_with i request a s = s\<lparr>answered := answered s @ [(i, request, a)]\<rparr>"

text \<open>The first half: the checks, then the transaction is sent.\<close>

definition relay_begin :: "(jsval \<Rightarrow> int res) \<Rightarrow> nat \<Rightarrow> RelayRequest \<Rightarrow> relayer \<Rightarrow> relayer" where
  "relay_begin getBigInt i request s =
     (if \<not> validateRequest request then answer_with i request (Rejected 400 ''Invalid request'') s
      else if nonce_of request \<in> set (usedNonces s)
        then answer_with i request (Rejected 400 ''Nonce already used'') s
      else if rq_chain request \<noteq> Some ''ETHEREUM''
        then answer_with i request (Rejected 400 ''Only Ethereum supported in simple mode'') s
      else case executeRelay getBigInt request of
        Inl e \<Rightarrow> answer_with i request (Rejected 500 (message e)) s
      | Inr call \<Rightarrow> s\<lparr>inflight := map_set (inflight s) i request, submitted := submitted s @ [(i, call)]\<rparr>)"

text \<open>The second half: the receipt, or the failure of the transaction.\<close>

definition relay_finish :: "nat \<Rightarrow> string res \<Rightarrow> relayer \<Rightarrow> relayer" where
  "relay_finish i outcome s =
     (case map_get (inflight s) i of
        None \<Rightarrow> s
      | Some request \<Rightarrow>
          let s1 = s\<lparr>inflight := map_remove (inflight s) i\<rparr>
          in case outcome of
               Inl e \<Rightarrow> answer_with i request (Rejected 500 (message e)) s1
             | Inr txHash \<Rightarrow> answer_with i request (Relayed txHash)
                 (s1\<lparr>usedNonces := set_add (usedNonces s1) (nonce_of request)\<rparr>))"

datatype relayer_event = Arrive nat RelayRequest | Outcome nat "string res"

fun relayer_step :: "(jsval \<Rightarrow> int res) \<Rightarrow> relayer \<Rightarrow> relayer_event \<Rightarrow> relayer" where
  "relayer_step getBigInt s (Arrive i request) = relay_begin getBigInt i request s"
| "relayer_step getBigInt s (Outcome i r) = relay_finish i r s"

definition relayed_nonces :: "relayer \<Rightarrow> string list" where
  "relayed_nonces s = map (\<lambda>(i, request, a). nonce_of request)
     (filter (\<lambda>(i, request, a). case a of Relayed h \<Rightarrow> True | _ \<Rightarrow> False) (answered s))"

subsection \<open>Nonces\<close>

text \<open>Requests have distinct numbers, and none arrives while another with its nonce is in flight.\<close>

fun no_race :: "relayer \<Rightarrow> relayer_event \<Rightarrow> bool" where
  "no_race s (Arrive i request) \<longleftrightarrow> i \<notin> fst ` set (inflight s) \<and>
     nonce_of request \<notin> (\<lambda>(j, r). nonce_of r) ` set (inflight s)"
| "no_race s (Outcome i r) \<longleftrightarrow> True"

definition nonces_ok :: "relayer \<Rightarrow> bool" where
  "nonces_ok s \<longleftrightarrow> map_wf (inflight s) \<and>
     distinct (map (\<lambda>(j, r). nonce_of r) (inflight s)) \<and>
     (\<lambda>(j, r). nonce_of r) ` set (inflight s) \<inter> set (usedNonces s) = {} \<and>
     distinct (relayed_nonces s) \<and> set (relayed_nonces s) \<subseteq> set (usedNonces s)"

lemma answer_with_simps [simp]:
  "usedNonces (answer_with i r a s) = usedNonces s" "inflight (answer_with i r a s) = inflight s"
  "answered (answer_with i r a s) = answered s @ [(i, r, a)]" "submitted (answer_with i r a s) = submitted s"
  by (simp_all add: answer_with_def)

lemma relayed_nonces_answer [simp]:
  "relayed_nonces (answer_with i r (Rejected c m) s) = relayed_nonces s"
  "relayed_nonces (answer_with i r (Relayed h) s) = relayed_nonces s @ [nonce_of r]"
  by (simp_all add: relayed_nonces_def)

lemma relayed_nonces_update [simp]:
  "relayed_nonces (s\<lparr>inflight := a\<rparr>) = relayed_nonces s" "relayed_nonces (s\<lparr>usedNonces := b\<rparr>) = relayed_nonces s"
  "relayed_nonces (s\<lparr>submitted := c\<rparr>) = relayed_nonces s"
  by (simp_all add: relayed_nonces_def)

lemma nonces_ok_reject [simp]: "nonces_ok (answer_with i r (Rejected c m) s) = nonces_ok s"
  by (simp add: nonces_ok_def)

lemma delete_filter: "AList.delete k xs = filter (\<lambda>(j, v). j \<noteq> k) xs"
  by (induction xs) auto

lemma distinct_map_delete: "distinct (map f xs) \<Longrightarrow> distinct (map f (AList.delete k xs))"
  by (simp add: delete_filter distinct_map_filter)

lemma relay_begin_ok:
  assumes "nonces_ok s" "no_race s (Arrive i r)" shows "nonces_ok (relay_begin g i r s)"
  using assms
  by (auto simp: relay_begin_def nonces_ok_def map_set_new map_wf_def split: sum.splits)

lemma relay_finish_ok:
  assumes ok: "nonces_ok s" shows "nonces_ok (relay_finish i out s)"
proof (cases "map_get (inflight s) i")
  case (Some r)
  let ?rest = "map_remove (inflight s) i"
  have wf: "map_wf (inflight s)" and d: "distinct (map (\<lambda>(j, r). nonce_of r) (inflight s))"
    using ok by (simp_all add: nonces_ok_def)
  have mem: "(i, r) \<in> set (inflight s)" using Some wf by (simp add: map_get_in)
  have sub: "set ?rest \<subseteq> set (inflight s)" by (auto simp: delete_filter)
  have "nonce_of r \<notin> (\<lambda>(j, r). nonce_of r) ` set ?rest"
  proof
    assume "nonce_of r \<in> (\<lambda>(j, r). nonce_of r) ` set ?rest"
    then obtain j q where q: "(j, q) \<in> set ?rest" "nonce_of q = nonce_of r" by auto
    then have "(j, q) = (i, r)"
      using d mem sub by (intro inj_onD[of "\<lambda>(j, r). nonce_of r" "set (inflight s)"]) (auto simp: distinct_map)
    with q(1) show False by (simp add: delete_filter)
  qed
  moreover have "nonce_of r \<notin> set (usedNonces s)" using ok mem by (force simp: nonces_ok_def)
  ultimately show ?thesis
    using Some ok sub distinct_map_delete[OF d, of i]
    by (auto simp: relay_finish_def nonces_ok_def Let_def split: sum.splits)
qed (use ok in \<open>simp add: relay_finish_def\<close>)

interpretation relayer_m: machine "relayer_step g" no_race nonces_ok for g
proof
  show "nonces_ok (relayer_step g s e)" if "nonces_ok s" "no_race s e" for s e
    using that by (cases e) (simp_all add: relay_begin_ok relay_finish_ok)
qed

lemma relayer_init_ok: "nonces_ok relayer_init"
  by (simp add: nonces_ok_def relayer_init_def relayed_nonces_def)

subsection \<open>Properties\<close>

definition demo_request :: RelayRequest where
  "demo_request = \<lparr>rq_chain = Some ''ETHEREUM'', rq_type = Some ''WITHDRAW_ESCROW'',
     rq_params = JObj [(''escrowId'', JStr ''0xe''), (''secret'', JStr ''0xs'')],
     rq_signature = Some ''anything'', rq_nonce = Some ''n1''\<rparr>"

text \<open>
  C35. Replay protection: as long as no request arrives while another one with the same nonce is in
  flight, each nonce is relayed successfully at most once, and a nonce once relayed is rejected
  afterwards.
\<close>

theorem relay_nonce_once:
  assumes "legal_run (relayer_step getBigInt) no_race relayer_init evs"
    and s_def: "s = foldl (relayer_step getBigInt) relayer_init evs"
  shows "distinct (relayed_nonces s) \<and>
    (nonce_of r \<in> set (relayed_nonces s) \<and> validateRequest r \<longrightarrow>
      relayer_step getBigInt s (Arrive i r) = answer_with i r (Rejected 400 ''Nonce already used'') s)"
proof -
  have "nonces_ok s" unfolding s_def using relayer_m.run_inv[OF relayer_init_ok assms(1)] .
  then show ?thesis by (auto simp: nonces_ok_def relay_begin_def)
qed

theorem relay_nonce_once_witness:
  "relayed_nonces (foldl (relayer_step (\<lambda>v. Inr 0)) relayer_init [Arrive 0 demo_request, Outcome 0 (Inr ''0xtx'')]) = [''n1''] \<and>
   answered (relayer_step (\<lambda>v. Inr 0) (foldl (relayer_step (\<lambda>v. Inr 0)) relayer_init
     [Arrive 0 demo_request, Outcome 0 (Inr ''0xtx'')]) (Arrive 1 demo_request)) \<noteq> []"
proof -
  let ?evs = "[Arrive 0 demo_request, Outcome 0 (Inr ''0xtx'')]"
  have c: "legal_run (relayer_step (\<lambda>v. Inr 0)) no_race relayer_init ?evs"
    "relayed_nonces (foldl (relayer_step (\<lambda>v. Inr 0)) relayer_init ?evs) = [''n1'']"
    "nonce_of demo_request = ''n1''" "validateRequest demo_request"
    by code_simp+
  show ?thesis using relay_nonce_once[OF c(1) refl, of demo_request 1] c(2,3,4) by simp
qed

text \<open>
  Without that condition the check is not enough: the nonce is recorded only after the
  transaction is mined, so two valid requests with the same nonce that arrive before the first
  receipt both reach the chain and are both answered as relayed.
\<close>

theorem relay_nonce_race:
  assumes "validateRequest r" "rq_chain r = Some ''ETHEREUM''" "executeRelay getBigInt r = Inr call" "i \<noteq> j"
  shows "let s = foldl (relayer_step getBigInt) relayer_init
            [Arrive i r, Arrive j r, Outcome i (Inr h1), Outcome j (Inr h2)]
    in submitted s = [(i, call), (j, call)] \<and> relayed_nonces s = [nonce_of r, nonce_of r]"
  using assms by (simp add: relay_begin_def relay_finish_def relayer_init_def Let_def relayed_nonces_def set_add_def)

theorem relay_nonce_race_witness:
  "relayed_nonces (foldl (relayer_step (\<lambda>v. Inr 0)) relayer_init
     [Arrive 0 demo_request, Arrive 1 demo_request, Outcome 0 (Inr ''0xa''), Outcome 1 (Inr ''0xb'')])
    = [''n1'', ''n1'']"
proof -
  have c: "validateRequest demo_request" "rq_chain demo_request = Some ''ETHEREUM''" "nonce_of demo_request = ''n1''"
    "executeRelay (\<lambda>v. Inr 0) demo_request = Inr (withdrawCall (JStr ''0xe'') (JStr ''0xs''))"
    by code_simp+
  show ?thesis
    using relay_nonce_race[OF c(1,2,4), of 0 1 "''0xa''" "''0xb''"] c(3) by (simp add: Let_def)
qed

text \<open>
  What is sent to the chain: a native escrow carries exactly its amount and its safety deposit,
  an escrow of a token carries nothing, a withdrawal names the escrow and the secret, and no other
  kind of request is sent.
\<close>

theorem executeRelay_value:
  assumes "executeRelay getBigInt r = Inr call"
  shows "(\<exists>args v. call = createEscrowCall args v \<and> rq_type r = Some ''CREATE_ESCROW'' \<and>
      (if opt_prop (rq_params r) ''token'' = JStr ZeroAddress
       then \<exists>a d. getBigInt (opt_prop (rq_params r) ''amount'') = Inr a \<and>
         getBigInt (js_or (opt_prop (rq_params r) ''safetyDeposit'') (JStr ''0'')) = Inr d \<and> v = a + d
       else v = 0)) \<or>
    (call = withdrawCall (opt_prop (rq_params r) ''escrowId'') (opt_prop (rq_params r) ''secret'') \<and>
      rq_type r = Some ''WITHDRAW_ESCROW'')"
proof (cases "rq_type r = Some ''CREATE_ESCROW''")
  case True
  then show ?thesis
    using assms
    by (cases "getBigInt (opt_prop (rq_params r) ''amount'')";
        cases "getBigInt (js_or (opt_prop (rq_params r) ''safetyDeposit'') (JStr ''0''))")
      (auto simp: executeRelay_def relayCreateEscrow_def Let_def split: if_splits)
next
  case False
  then show ?thesis
    using assms by (auto simp: executeRelay_def relayWithdrawEscrow_def Let_def split: if_splits)
qed

theorem executeRelay_value_witness:
  "executeRelay (\<lambda>v. js_BigInt (to_string v)) (demo_request\<lparr>rq_type := Some ''CREATE_ESCROW'',
      rq_params := JObj [(''token'', JStr ZeroAddress), (''amount'', JStr ''100''), (''safetyDeposit'', JStr ''5'')]\<rparr>)
    = Inr (createEscrowCall [JUndef, JUndef, JStr ZeroAddress, JStr ''100'', JUndef, JUndef] 105)"
proof -
  let ?r = "demo_request\<lparr>rq_type := Some ''CREATE_ESCROW'',
      rq_params := JObj [(''token'', JStr ZeroAddress), (''amount'', JStr ''100''), (''safetyDeposit'', JStr ''5'')]\<rparr>"
  have c: "executeRelay (\<lambda>v. js_BigInt (to_string v)) ?r
    = Inr (createEscrowCall [JUndef, JUndef, JStr ZeroAddress, JStr ''100'', JUndef, JUndef] 105)" by code_simp
  from executeRelay_value[OF c] c show ?thesis by simp
qed

end
