(* ===== verification/PriceService.thy ===== *)
theory PriceService
  imports JSValue
begin

section \<open>Prices and balances\<close>

text \<open>
  The class \<^verbatim>\<open>PriceService\<close> (\<^verbatim>\<open>backend/resolver/src/services/PriceService.ts\<close>): a cache of rates in front
  of a price API, with fixed rates to fall back on, and \<^verbatim>\<open>BalanceTracker\<close>. A request to the API is the
  argument \<open>fetch\<close>: for the requested ids it fails or answers with a dollar price per id. Requests
  are counted in the state. Times are milliseconds: \<open>now\<close> when a method starts, \<open>later\<close> when the
  answer has arrived.
\<close>

record PriceCache =
  rate :: jsnum
  timestamp :: int

record price_service =
  cache :: "(string, PriceCache) jsmap"
  requests :: "string list"

definition CACHE_DURATION :: int where
  "CACHE_DURATION = 30000"

definition FALLBACK_RATES :: "(string \<times> jsnum) list" where
  "FALLBACK_RATES = [(''ETH/APT'', Fin 500), (''APT/ETH'', fl (2 / 1000))]"

text \<open>\<^verbatim>\<open>FALLBACK_RATES[key] || 1\<close>.\<close>

definition fallback_rate :: "string \<Rightarrow> jsnum" where
  "fallback_rate key = (case map_of FALLBACK_RATES key of None \<Rightarrow> Fin 1 | Some r \<Rightarrow> r)"

fun token_id :: "string \<Rightarrow> string option" where
  "token_id t = (if t = ''ETH'' then Some ''ethereum'' else if t = ''APT'' then Some ''aptos'' else None)"

definition id_text :: "string option \<Rightarrow> string" where
  "id_text i = (case i of None \<Rightarrow> ''undefined'' | Some x \<Rightarrow> x)"

type_synonym price_api = "string \<Rightarrow> (string \<Rightarrow> jsnum option) res"

text \<open>A price that is missing, zero or not a number is refused.\<close>

definition usable :: "jsnum option \<Rightarrow> jsnum option" where
  "usable p = (case p of None \<Rightarrow> None | Some x \<Rightarrow> if x = Fin 0 \<or> x = NaN then None else Some x)"

definition fetchCrossChainRate :: "price_api \<Rightarrow> string \<Rightarrow> string \<Rightarrow> jsnum" where
  "fetchCrossChainRate fetch fromToken toToken =
     (let fromId = token_id (toUpperCase fromToken);
          toId = token_id (toUpperCase toToken)
      in case bind_res (fetch (id_text fromId @ '','' @ id_text toId)) (\<lambda>data.
              case (usable (data (id_text fromId)), usable (data (id_text toId))) of
                (Some fromPrice, Some toPrice) \<Rightarrow> Inr (js_div fromPrice toPrice)
              | _ \<Rightarrow> Inl (Error ''Invalid price data'')) of
           Inl e \<Rightarrow> fallback_rate (fromToken @ ''/'' @ toToken)
         | Inr r \<Rightarrow> r)"

definition fresh :: "int \<Rightarrow> PriceCache \<Rightarrow> bool" where
  "fresh now entry \<longleftrightarrow> now - timestamp entry < CACHE_DURATION"

text \<open>
  Only the pair of ETH and APT, spelled in capitals, is fetched and cached. The fetch catches its own
  errors, so the outer catch clause of the method is not reached.
\<close>

definition getExchangeRate ::
  "price_api \<Rightarrow> int \<Rightarrow> int \<Rightarrow> string \<Rightarrow> string \<Rightarrow> price_service \<Rightarrow> jsnum \<times> price_service" where
  "getExchangeRate fetch now later fromToken toToken s =
     (let pair = toUpperCase fromToken @ ''/'' @ toUpperCase toToken;
          cached = (case map_get (cache s) pair of
              Some entry \<Rightarrow> if fresh now entry then Some entry else None
            | None \<Rightarrow> None)
      in case cached of
           Some entry \<Rightarrow> (rate entry, s)
         | None \<Rightarrow>
             if (fromToken = ''ETH'' \<and> toToken = ''APT'') \<or> (fromToken = ''APT'' \<and> toToken = ''ETH'') then
               let r = fetchCrossChainRate fetch fromToken toToken
               in (r, s\<lparr>cache := map_set (cache s) pair \<lparr>rate = r, timestamp = later\<rparr>,
                        requests := requests s @ [pair]\<rparr>)
             else (fallback_rate pair, s))"

definition getUSDPrice :: "price_api \<Rightarrow> int \<Rightarrow> int \<Rightarrow> string \<Rightarrow> price_service \<Rightarrow> jsnum \<times> price_service" where
  "getUSDPrice fetch now later token s =
     (case token_id (toUpperCase token) of
        None \<Rightarrow> (Fin 0, s)
      | Some tokenId \<Rightarrow>
          let cacheKey = toUpperCase token @ ''/USD'';
              cached = (case map_get (cache s) cacheKey of
                  Some entry \<Rightarrow> if fresh now entry then Some entry else None
                | None \<Rightarrow> None)
          in case cached of
               Some entry \<Rightarrow> (rate entry, s)
             | None \<Rightarrow>
                 let s1 = s\<lparr>requests := requests s @ [cacheKey]\<rparr>
                 in case fetch tokenId of
                      Inl e \<Rightarrow> (Fin 0, s1)
                    | Inr data \<Rightarrow>
                        let price = (case usable (data tokenId) of None \<Rightarrow> Fin 0 | Some x \<Rightarrow> x)
                        in (price, s1\<lparr>cache := map_set (cache s1) cacheKey \<lparr>rate = price, timestamp = later\<rparr>\<rparr>))"

definition applyResolverMargin :: "jsnum \<Rightarrow> jsnum \<Rightarrow> jsnum" where
  "applyResolverMargin r marginPercent = js_mul r (js_sub (Fin 1) (js_div marginPercent (Fin 100)))"

definition calculateOutputAmount :: "string \<Rightarrow> jsnum \<Rightarrow> bool \<Rightarrow> string" where
  "calculateOutputAmount inputAmount r applyMargin =
     (let input = js_parseFloat inputAmount;
          effectiveRate = (if applyMargin then applyResolverMargin r (Fin 1) else r)
      in show_num (js_mul input effectiveRate))"

subsection \<open>The balance tracker\<close>

text \<open>
  \<^verbatim>\<open>backend/resolver/src/services/BalanceTracker.ts\<close>: the two balances read are arguments, and what the
  method reports (the changes since the last report, the warnings) is its result. The thresholds are
  the values of \<^verbatim>\<open>parseEther\<close> for 0.01 and 0.05.
\<close>

record balance_report =
  ethChange :: "int option"
  wethChange :: "int option"
  lowEth :: bool
  lowWeth :: bool

type_synonym balances = "(string, int) jsmap"

definition last_balance :: "balances \<Rightarrow> string \<Rightarrow> int" where
  "last_balance m k = (case map_get m k of None \<Rightarrow> 0 | Some b \<Rightarrow> b)"

definition trackBalanceChange :: "int \<Rightarrow> int \<Rightarrow> balances \<Rightarrow> balance_report \<times> balances" where
  "trackBalanceChange ethBalance wethBalance lastBalances =
     (let prevEth = last_balance lastBalances ''ETH'';
          prevWeth = last_balance lastBalances ''WETH'';
          ec = ethBalance - prevEth;
          wc = wethBalance - prevWeth;
          known = (prevEth > 0 \<or> prevWeth > 0)
      in (\<lparr>ethChange = (if known \<and> ec \<noteq> 0 then Some ec else None),
           wethChange = (if known \<and> wc \<noteq> 0 then Some wc else None),
           lowEth = (ethBalance < 10000000000000000), lowWeth = (wethBalance < 50000000000000000)\<rparr>,
          map_set (map_set lastBalances ''ETH'' ethBalance) ''WETH'' wethBalance))"

subsection \<open>Properties\<close>

text \<open>
  The cache: a quoted rate of ETH and APT is never older than half a minute; as long as it is
  that young, every further query returns the same rate and sends no request, whatever the API
  would answer by then.
\<close>

theorem exchange_rate_cached:
  assumes "getExchangeRate fetch now later a b s = (r, t)" "(a, b) \<in> {(''ETH'', ''APT''), (''APT'', ''ETH'')}"
  shows "\<exists>entry. map_get (cache t) (a @ ''/'' @ b) = Some entry \<and> rate entry = r \<and>
    (timestamp entry = later \<or> now - timestamp entry < 30000 \<and> t = s) \<and>
    (\<forall>now'. now' - timestamp entry < 30000 \<longrightarrow> getExchangeRate fetch' now' later' a b t = (r, t))"
proof -
  have up: "toUpperCase a = a" "toUpperCase b = b" using assms(2) by (auto simp: toUpperCase_def) (code_simp+)
  let ?pair = "a @ ''/'' @ b"
  show ?thesis
  proof (cases "\<exists>entry. map_get (cache s) ?pair = Some entry \<and> fresh now entry")
    case True
    then obtain entry where e: "map_get (cache s) ?pair = Some entry" "fresh now entry" by blast
    with assms(1) up have "r = rate entry" "t = s" by (simp_all add: getExchangeRate_def Let_def)
    with e up show ?thesis by (auto simp: getExchangeRate_def Let_def fresh_def CACHE_DURATION_def)
  next
    case False
    then have c: "(case map_get (cache s) ?pair of Some entry \<Rightarrow> if fresh now entry then Some entry else None | None \<Rightarrow> None) = None"
      by (auto split: option.splits)
    have "map_get (cache t) ?pair = Some \<lparr>rate = r, timestamp = later\<rparr>"
      using assms up unfolding getExchangeRate_def Let_def up c by auto
    with up show ?thesis by (auto simp: getExchangeRate_def Let_def fresh_def CACHE_DURATION_def)
  qed
qed

theorem exchange_rate_cached_witness:
  "fst (getExchangeRate (\<lambda>q. Inl (Error ''down'')) 31000 32000 ''ETH'' ''APT''
     (snd (getExchangeRate (\<lambda>q. Inr (\<lambda>i. Some (if i = ''ethereum'' then Fin 3000 else Fin 6))) 0 5000 ''ETH'' ''APT''
       \<lparr>cache = [], requests = []\<rparr>))) = Fin 500"
proof -
  let ?f = "\<lambda>q. Inr (\<lambda>i. Some (if i = ''ethereum'' then Fin 3000 else Fin 6))"
  let ?g = "getExchangeRate ?f 0 5000 ''ETH'' ''APT'' \<lparr>cache = [], requests = []\<rparr>"
  have v: "fst ?g = Fin 500" "map_option timestamp (map_get (cache (snd ?g)) (''ETH'' @ ''/'' @ ''APT'')) = Some 5000"
    by code_simp+
  then obtain t where t: "?g = (Fin 500, t)" by (cases ?g) auto
  from exchange_rate_cached[OF t, of "\<lambda>q. Inl (Error ''down'')" 32000] v t show ?thesis by auto
qed

end
