(* ===== verification/ResolverPolicy.thy ===== *)
theory ResolverPolicy
  imports DutchAuction PartialFill PriceService
begin

section \<open>What a resolver decides to fill\<close>

text \<open>
  The decisions of \<^verbatim>\<open>ResolverServiceV2\<close> (\<^verbatim>\<open>backend/resolver/src/services/ResolverServiceV2.ts\<close>) that
  depend only on the order and on values read beforehand: which share of a partially fillable order
  to take, which fill index and secret to use, whether an order pays and is affordable. What the
  methods read from outside (balances, the fill state of the order engine, the exchange rate, the
  clock) are arguments; a read that can throw is a result.
\<close>

subsection \<open>Identity of the resolver\<close>

datatype strategy = Aggressive | Patient | Opportunistic

record identity =
  resolverName :: string
  resolverPort :: int

definition getResolverStrategy :: "identity \<Rightarrow> strategy" where
  "getResolverStrategy me =
     (if resolverName me = ''Resolver-1'' \<or> resolverPort me = 8081 then Aggressive
      else if resolverName me = ''Resolver-2'' \<or> resolverPort me = 8082 then Patient
      else Opportunistic)"

definition getResolverIndex :: "identity \<Rightarrow> nat" where
  "getResolverIndex me =
     (if resolverName me = ''Resolver-1'' \<or> resolverPort me = 8081 then 0
      else if resolverName me = ''Resolver-2'' \<or> resolverPort me = 8082 then 1
      else 2)"

subsection \<open>The share to fill\<close>

text \<open>\<^verbatim>\<open>indexOf\<close>; \<open>None\<close> stands for \<open>-1\<close>.\<close>

fun index_of :: "'a list \<Rightarrow> 'a \<Rightarrow> nat option" where
  "index_of [] v = None"
| "index_of (x # xs) v = (if x = v then Some 0 else map_option Suc (index_of xs v))"

text \<open>The resolver is listed by its number, by its number as text, or by its name.\<close>

definition resolver_refs :: "nat \<Rightarrow> jsval list" where
  "resolver_refs resolverIndex =
     (let resolverNumber = resolverIndex + 1
      in [JNum (Fin (of_nat resolverNumber)), JStr (show_nat resolverNumber),
          JStr (''resolver-'' @ show_nat resolverNumber)])"

definition is_active :: "jsval list \<Rightarrow> nat \<Rightarrow> bool" where
  "is_active actives resolverIndex =
     list_ex (\<lambda>r. r \<in> set actives) (resolver_refs resolverIndex)"

definition active_position :: "jsval list \<Rightarrow> nat \<Rightarrow> nat option" where
  "active_position actives resolverIndex =
     (if actives = [] then Some resolverIndex
      else case resolver_refs resolverIndex of
        [a, b, c] \<Rightarrow>
          (case index_of actives a of Some i \<Rightarrow> Some i | None \<Rightarrow>
          (case index_of actives b of Some i \<Rightarrow> Some i | None \<Rightarrow>
           index_of actives c))
      | _ \<Rightarrow> None)"

definition base_fill :: "nat \<Rightarrow> jsnum" where
  "base_fill activeResolverCount =
     (if activeResolverCount = 1 then Fin 50
      else if activeResolverCount = 2 then Fin 50
      else js_div (Fin 100) (Fin (of_nat activeResolverCount)))"

text \<open>Whether the strategy of a resolver takes the current price of an auction.\<close>

definition should_fill_now :: "strategy \<Rightarrow> AuctionStatus \<Rightarrow> jsnum \<Rightarrow> bool" where
  "should_fill_now resolverStrategy auctionStatus orderFilled =
     (let isPartiallyFilled = js_lt (Fin 0) orderFilled;
          pct = percentComplete auctionStatus
      in case resolverStrategy of
           Aggressive \<Rightarrow> js_lt pct (Fin 40)
         | Patient \<Rightarrow> if isPartiallyFilled then js_le (Fin 5) pct else js_lt (Fin 60) pct
         | Opportunistic \<Rightarrow>
             js_lt (nextRateDropIn auctionStatus) (Fin 5) \<or>
             (if isPartiallyFilled then js_le (Fin 3) pct else js_lt (Fin 30) pct \<and> js_lt pct (Fin 80)))"

text \<open>The range of the order that belongs to a position among the active resolvers.\<close>

definition fill_range :: "bool \<Rightarrow> jsnum \<Rightarrow> nat \<Rightarrow> nat \<Rightarrow> jsnum \<times> jsnum" where
  "fill_range partialFills baseFillPercentage activeResolverCount activeResolverIndex =
     (if \<not> partialFills \<and> baseFillPercentage = Fin 100 then (Fin 0, Fin 100)
      else
        (js_mul baseFillPercentage (Fin (of_nat activeResolverIndex)),
         if int activeResolverIndex = int activeResolverCount - 1 then Fin 100
         else js_mul baseFillPercentage (Fin (of_nat (activeResolverIndex + 1)))))"

text \<open>What is left for the fallback of an auction when earlier resolvers are late.\<close>

definition fallback_fill :: "AuctionStatus \<Rightarrow> jsnum \<Rightarrow> jsnum \<Rightarrow> jsnum \<Rightarrow> jsnum" where
  "fallback_fill auctionStatus currentFill myEndFill baseFillPercentage =
     (let hasBeenPartiallyFilled = js_lt (Fin 0) currentFill;
          auctionProgressedEnough = js_lt (Fin 15) (percentComplete auctionStatus);
          partialFillStalled = (hasBeenPartiallyFilled \<and> js_lt (Fin 8) (percentComplete auctionStatus))
      in if auctionProgressedEnough \<or> partialFillStalled then
           let maxPossibleFill = js_sub myEndFill currentFill;
               available = js_min maxPossibleFill baseFillPercentage
           in if js_lt (Fin 0) available then available else Fin 0
         else Fin 0)"

definition affordable :: "int \<Rightarrow> int \<Rightarrow> jsnum \<Rightarrow> bool res" where
  "affordable balance requiredAmount baseFillPercentage =
     bind_res (bigint_of_num (js_floor (js_mul baseFillPercentage (Fin 100)))) (\<lambda>basis.
     bind_res (big_div (requiredAmount * basis) 10000) (\<lambda>targetAmount.
     Inr (\<not> balance < targetAmount)))"

definition active_list :: "Order \<Rightarrow> jsval list" where
  "active_list order = (case activeResolvers order of None \<Rightarrow> [] | Some rs \<Rightarrow> map JStr rs)"

text \<open>The auction of an order when it is enabled.\<close>

definition enabled_auction :: "Order \<Rightarrow> DutchAuction option" where
  "enabled_auction order =
     (case dutchAuction order of Some a \<Rightarrow> if enabled a then Some a else None | None \<Rightarrow> None)"

text \<open>
  The body of the method after its reads: the balance on the destination chain, the fill state of
  the engine, and the two readings of the clock, in seconds.
\<close>

definition optimal_fill ::
  "identity \<Rightarrow> int \<Rightarrow> int \<Rightarrow> jsnum \<Rightarrow> jsnum \<Rightarrow> jsnum \<Rightarrow> Order \<Rightarrow> jsnum res" where
  "optimal_fill me balance requiredAmount currentFill t1 t2 order =
     (let actives = active_list order;
          resolverIndex = getResolverIndex me;
          activeResolverCount = (if actives = [] then 3 else length actives);
          partialFills = (partialFillAllowed order \<or> partialFillEnabled order)
      in if actives \<noteq> [] \<and> \<not> is_active actives resolverIndex then Inr (Fin 0)
      else if \<not> partialFills \<and> resolverIndex + 1 \<noteq> 1 then Inr (Fin 0)
      else if \<not> partialFills \<and> currentFill \<noteq> Fin 0 then Inr (Fin 0)
      else
        let baseFillPercentage = (if partialFills then base_fill activeResolverCount else Fin 100);
            waits = (case enabled_auction order of
                None \<Rightarrow> False
              | Some a \<Rightarrow> \<not> should_fill_now (getResolverStrategy me) (getAuctionStatus a t1)
                  (js_or0 (filledPercentage order)))
        in if waits then Inr (Fin 0)
        else case active_position actives resolverIndex of
          None \<Rightarrow> Inr (Fin 0)
        | Some activeResolverIndex \<Rightarrow>
            let (myStartFill, myEndFill) =
                  fill_range partialFills baseFillPercentage activeResolverCount activeResolverIndex
            in if js_lt currentFill myStartFill then
                 (case enabled_auction order of
                    None \<Rightarrow> Inr (Fin 0)
                  | Some a \<Rightarrow> Inr (fallback_fill (getAuctionStatus a t2) currentFill myEndFill baseFillPercentage))
               else if js_le myEndFill currentFill then Inr (Fin 0)
               else bind_res (affordable balance requiredAmount baseFillPercentage) (\<lambda>can.
                 Inr (if can then baseFillPercentage else Fin 0)))"

text \<open>The method: an error of the balance read or of an unreadable amount is caught and fills nothing.\<close>

definition calculateOptimalFillPercentage ::
  "identity \<Rightarrow> int res \<Rightarrow> jsnum \<Rightarrow> jsnum \<Rightarrow> jsnum \<Rightarrow> Order \<Rightarrow> jsnum" where
  "calculateOptimalFillPercentage me balanceRead currentFill t1 t2 order =
     (case bind_res balanceRead (\<lambda>balance.
           bind_res (js_BigInt (minToAmount order)) (\<lambda>requiredAmount.
           optimal_fill me balance requiredAmount currentFill t1 t2 order)) of
        Inl e \<Rightarrow> Fin 0
      | Inr p \<Rightarrow> p)"

text \<open>The fill state read from the engine's answer; a failed read counts as nothing filled.\<close>

definition getCurrentFillPercentage :: "jsval res \<Rightarrow> jsval" where
  "getCurrentFillPercentage response =
     (case bind_res response (\<lambda>r. bind_res (get_prop r ''data'') (\<lambda>d.
           bind_res (get_prop d ''success'') (\<lambda>ok. bind_res (get_prop d ''data'') (\<lambda>data.
           if truthy ok \<and> truthy data
           then bind_res (get_prop data ''filledPercentage'') (\<lambda>p. Inr (js_or p (JNum (Fin 0))))
           else Inr (JNum (Fin 0)))))) of
        Inl e \<Rightarrow> JNum (Fin 0)
      | Inr v \<Rightarrow> v)"

text \<open>\<^verbatim>\<open>a || b || c || 0\<close> on optional numbers.\<close>

fun first_truthy :: "jsnum option list \<Rightarrow> jsnum" where
  "first_truthy [] = Fin 0"
| "first_truthy (x # xs) =
     (case x of Some p \<Rightarrow> if p = Fin 0 \<or> p = NaN then first_truthy xs else p | None \<Rightarrow> first_truthy xs)"

text \<open>The loop over the thresholds with the last index as its default.\<close>

definition determineFillIndex :: "FillData \<Rightarrow> jsnum list option \<Rightarrow> jsnum" where
  "determineFillIndex fill gaslessThresholds =
     (case merkleIndex fill of
        Some i \<Rightarrow> i
      | None \<Rightarrow>
          let thresholds = (case gaslessThresholds of
                Some ts \<Rightarrow> ts | None \<Rightarrow> [Fin 25, Fin 50, Fin 75, Fin 100]);
              cumulative = first_truthy
                [cumulativeFillPercentage fill, cumulativePercentage fill, fillPercentage fill];
              i = getSecretIndex cumulative thresholds
          in if i < length thresholds then Fin (of_nat i) else js_sub (Fin (of_nat (length thresholds))) (Fin 1))"

subsection \<open>Does an order pay\<close>

definition map_token :: "string \<Rightarrow> string \<Rightarrow> string" where
  "map_token wethAddress token =
     (if token = ZeroAddress then ''ETH''
      else if toLowerCase token = toLowerCase wethAddress then ''ETH''
      else if token = ''0x1::aptos_coin::AptosCoin'' then ''APT''
      else token)"

text \<open>The amount of a chain in whole units, as the text the code goes on with.\<close>

definition format_amount :: "(string \<Rightarrow> string res) \<Rightarrow> Chain \<Rightarrow> string \<Rightarrow> string res" where
  "format_amount formatEther chain amount =
     (if chain = ETHEREUM then formatEther amount
      else Inr (show_num (js_div (js_parseInt amount) (Fin 100000000))))"

text \<open>
  \<open>rateOf\<close> is the exchange rate of the price service for the mapped tokens. An error while reading
  the amounts accepts the order.
\<close>

definition checkProfitability ::
  "(string \<Rightarrow> string res) \<Rightarrow> string \<Rightarrow> (string \<Rightarrow> string \<Rightarrow> jsnum res) \<Rightarrow> Order \<Rightarrow> bool" where
  "checkProfitability formatEther wethAddress rateOf order =
     (case bind_res (rateOf (map_token wethAddress (fromToken order)) (map_token wethAddress (toToken order))) (\<lambda>exchangeRate.
           bind_res (format_amount formatEther (fromChain order) (fromAmount order)) (\<lambda>fromAmountFormatted.
           let expectedOutput = calculateOutputAmount fromAmountFormatted exchangeRate True
           in bind_res (format_amount formatEther (toChain order) (minToAmount order)) (\<lambda>minRequired.
           let ratio = js_div (js_parseFloat expectedOutput) (js_parseFloat minRequired)
           in Inr (js_le (js_sub (Fin 1) (fl (2 / 100))) ratio)))) of
        Inl e \<Rightarrow> True
      | Inr b \<Rightarrow> b)"

text \<open>
  The balance check: \<open>nativeBalance\<close> and \<open>tokenBalance\<close> are the reads of the Ethereum provider,
  \<open>aptBalance\<close> the answer of the Aptos node, \<open>None\<close> when its status is not OK. Any error refuses.
\<close>

definition checkBalance ::
  "int res \<Rightarrow> (string \<Rightarrow> int res) \<Rightarrow> string option res \<Rightarrow> Order \<Rightarrow> bool" where
  "checkBalance nativeBalance tokenBalance aptBalance order =
     (case (if toChain order = ETHEREUM then
              if toToken order = ZeroAddress then
                bind_res nativeBalance (\<lambda>balance.
                bind_res (js_BigInt (minToAmount order)) (\<lambda>minTo.
                Inr (minTo + 10000000000000000 \<le> balance)))
              else
                bind_res (tokenBalance (toToken order)) (\<lambda>balance.
                bind_res (js_BigInt (minToAmount order)) (\<lambda>minTo. Inr (minTo \<le> balance)))
            else
              bind_res aptBalance (\<lambda>answer.
              case answer of
                None \<Rightarrow> Inr False
              | Some b \<Rightarrow>
                  bind_res (js_BigInt (if b = '''' then ''0'' else b)) (\<lambda>balance.
                  bind_res (js_BigInt (minToAmount order)) (\<lambda>minTo. Inr (minTo \<le> balance))))) of
        Inl e \<Rightarrow> False
      | Inr b \<Rightarrow> b)"

subsection \<open>Ranges\<close>

definition in_range :: "jsnum \<times> jsnum \<Rightarrow> jsnum \<Rightarrow> bool" where
  "in_range r c \<longleftrightarrow> \<not> js_lt c (fst r) \<and> \<not> js_le (snd r) c"

text \<open>The base share is a positive number of at most 50 percent.\<close>

lemma base_fill_value:
  assumes "0 < n"
  obtains b where "base_fill n = Fin b" "0 \<le> b" "b \<le> 50"
proof (cases "n \<le> 2")
  case True
  with assms have "n = 1 \<or> n = 2" by auto
  then show ?thesis using that[of 50] by (auto simp: base_fill_def)
next
  case False
  then have r: "0 \<le> 100 / (of_nat n :: rat)" "100 / (of_nat n :: rat) \<le> 50"
    by (simp_all add: divide_le_eq)
  then have "rnd64 (100 / of_nat n) \<le> 50" "0 \<le> rnd64 (100 / of_nat n)"
    using rnd64_le_int[of "100 / of_nat n" 50] b64.nonneg by simp_all
  moreover have "base_fill n = Fin (rnd64 (100 / of_nat n))"
    using fl_small[of "100 / of_nat n"] r False by (simp add: base_fill_def)
  ultimately show ?thesis using that by blast
qed

text \<open>The start of a range, as a rational number.\<close>

definition start_at :: "rat \<Rightarrow> nat \<Rightarrow> rat" where
  "start_at b i = rnd64 (b * of_nat i)"

lemma start_at_mono: "0 \<le> b \<Longrightarrow> i \<le> j \<Longrightarrow> start_at b i \<le> start_at b j"
  unfolding start_at_def by (intro b64.mono mult_left_mono) simp_all

lemma start_at_0 [simp]: "start_at b 0 = 0"
  by (simp add: start_at_def b64.zero)

lemma fill_range_value:
  assumes "0 \<le> b" "b \<le> 50" "i < n" "n \<le> 1000000"
  shows "fill_range True (Fin b) n i =
    (Fin (start_at b i), if i = n - 1 then Fin 100 else Fin (start_at b (i + 1)))"
proof -
  have m: "js_mul (Fin b) (Fin (of_nat k)) = Fin (start_at b k)" if "k \<le> n" for k
  proof -
    have "b * of_nat k \<le> 50 * 1000000"
      using assms that of_nat_mono[of k 1000000, where ?'a = rat] by (intro mult_mono) simp_all
    then have "fl (b * of_nat k) = Fin (rnd64 (b * of_nat k))"
      using assms(1) by (intro fl_small) (simp_all add: order_trans[of _ 0])
    then show ?thesis by (simp add: start_at_def)
  qed
  have "int i = int n - 1 \<longleftrightarrow> i = n - 1" using assms(3) by auto
  then show ?thesis
    using assms(3) m[of i] m[of "i + 1"] unfolding fill_range_def
    by (simp del: js_mul.simps of_nat_add of_nat_Suc)
qed

lemma ranges_disjoint:
  assumes b: "0 \<le> b" "b \<le> 50" and n: "n \<le> 1000000" and ij: "i < j" "j < n"
    and i: "in_range (fill_range True (Fin b) n i) (Fin c)"
    and j: "in_range (fill_range True (Fin b) n j) (Fin c)"
  shows False
proof -
  have "i \<noteq> n - 1" using ij by simp
  then have "c < start_at b (i + 1)"
    using i fill_range_value[OF b _ n, of i] ij by (simp add: in_range_def)
  also have "\<dots> \<le> start_at b j" using ij b by (intro start_at_mono) simp_all
  also have "\<dots> \<le> c" using j fill_range_value[OF b ij(2) n] by (simp add: in_range_def)
  finally show False by simp
qed

lemma ranges_cover:
  assumes b: "0 \<le> b" "b \<le> 50" and n: "0 < n" "n \<le> 1000000" and c: "0 \<le> c" "c < 100"
  shows "\<exists>i < n. in_range (fill_range True (Fin b) n i) (Fin c)"
proof -
  define i where "i = Max {k. k < n \<and> start_at b k \<le> c}"
  have fin: "finite {k. k < n \<and> start_at b k \<le> c}" by simp
  have ne: "0 \<in> {k. k < n \<and> start_at b k \<le> c}" using n c by simp
  have i: "i < n" "start_at b i \<le> c" using Max_in[OF fin] ne unfolding i_def by blast+
  have "c < start_at b (i + 1)" if "i \<noteq> n - 1"
  proof (rule ccontr)
    assume "\<not> c < start_at b (i + 1)"
    then have "i + 1 \<in> {k. k < n \<and> start_at b k \<le> c}" using that i by auto
    then have "i + 1 \<le> i" unfolding i_def using Max_ge[OF fin] by blast
    then show False by simp
  qed
  then have "in_range (fill_range True (Fin b) n i) (Fin c)"
    using fill_range_value[OF b i(1) n(2)] i c by (auto simp: in_range_def)
  with i show ?thesis by blast
qed

subsection \<open>Positions\<close>

lemma index_of_Some: "index_of xs v = Some i \<Longrightarrow> i < length xs \<and> xs ! i = v"
  by (induction xs arbitrary: i) (auto split: if_splits)

lemma getResolverIndex_le: "getResolverIndex me \<le> 2"
  by (simp add: getResolverIndex_def)

lemma resolver_refs_values:
  "resolver_refs 0 = [JNum (Fin 1), JStr ''1'', JStr ''resolver-1'']"
  "resolver_refs 1 = [JNum (Fin 2), JStr ''2'', JStr ''resolver-2'']"
  "resolver_refs 2 = [JNum (Fin 3), JStr ''3'', JStr ''resolver-3'']"
  by code_simp+

lemma resolver_refs_disjoint:
  assumes "x \<in> set (resolver_refs j)" "x \<in> set (resolver_refs k)" "j \<le> 2" "k \<le> 2"
  shows "j = k"
proof -
  from assms(3,4) have "j \<in> {0, 1, 2}" "k \<in> {0, 1, 2}" by auto
  with assms(1,2) show ?thesis using resolver_refs_values by auto
qed

lemma active_position_Some:
  assumes "active_position actives k = Some i"
  shows "if actives = [] then i = k else i < length actives \<and> actives ! i \<in> set (resolver_refs k)"
  using assms by (auto simp: active_position_def resolver_refs_def Let_def dest: index_of_Some split: option.splits)

lemma active_position_inj:
  assumes "active_position actives j = Some i" "active_position actives k = Some i" "j \<le> 2" "k \<le> 2"
  shows "j = k"
  using active_position_Some[OF assms(1)] active_position_Some[OF assms(2)]
    resolver_refs_disjoint[OF _ _ assms(3,4), of "actives ! i"] by (auto split: if_splits)

abbreviation active_count :: "Order \<Rightarrow> nat" where
  "active_count order \<equiv> (if active_list order = [] then 3 else length (active_list order))"

lemma active_position_less:
  "active_position (active_list order) k = Some i \<Longrightarrow> k \<le> 2 \<Longrightarrow> i < active_count order"
  using active_position_Some[of "active_list order" k i] by (auto split: if_splits)

subsection \<open>The share taken\<close>

lemma affordable_value:
  assumes "0 \<le> req" "0 \<le> b" "b \<le> 100"
  shows "affordable bal req (Fin b) = Inr (req * basis_points b div 10000 \<le> bal)"
proof -
  have "js_mul (Fin b) (Fin 100) = Fin (rnd64 (b * 100))" using assms fl_small[of "b * 100"] by simp
  then show ?thesis
    using assms basis_points_range[of b]
    by (simp add: affordable_def basis_points_def not_less del: js_mul.simps)
qed

lemma optimal_fill_range:
  assumes "enabled_auction order = None" "partialFillAllowed order \<or> partialFillEnabled order"
    and "optimal_fill me bal req c t1 t2 order = Inr p" "p \<noteq> Fin 0"
  shows "\<exists>i. active_position (active_list order) (getResolverIndex me) = Some i \<and>
    in_range (fill_range True (base_fill (active_count order)) (active_count order) i) c \<and>
    p = base_fill (active_count order) \<and> affordable bal req p = Inr True"
proof -
  let ?n = "active_count order" and ?b = "base_fill (active_count order)"
  obtain i where i: "active_position (active_list order) (getResolverIndex me) = Some i"
    using assms by (auto simp: optimal_fill_def Let_def split: if_splits option.splits)
  obtain st en where r: "fill_range True ?b ?n i = (st, en)" by fastforce
  have pf: "(partialFillAllowed order \<or> partialFillEnabled order) = True" using assms(2) by simp
  have "\<not> js_lt c st \<and> \<not> js_le en c \<and> bind_res (affordable bal req ?b) (\<lambda>can. Inr (if can then ?b else Fin 0)) = Inr p"
    using assms(1,3,4) i r unfolding optimal_fill_def Let_def pf by (auto split: if_splits)
  then show ?thesis
    using i r assms(4) by (cases "affordable bal req ?b") (auto simp: in_range_def split: if_splits)
qed

lemma optimal_fill_takes:
  assumes "enabled_auction order = None" "partialFillAllowed order \<or> partialFillEnabled order"
    and "active_list order = []" "affordable bal req (base_fill 3) = Inr True"
    and "in_range (fill_range True (base_fill 3) 3 (getResolverIndex me)) c"
  shows "optimal_fill me bal req c t1 t2 order = Inr (base_fill 3)"
proof -
  obtain st en where r: "fill_range True (base_fill 3) 3 (getResolverIndex me) = (st, en)" by fastforce
  have pf: "(partialFillAllowed order \<or> partialFillEnabled order) = True" using assms(2) by simp
  show ?thesis
    using assms(1,3,4,5) r unfolding optimal_fill_def Let_def pf
    by (auto simp: active_position_def in_range_def)
qed

lemma fallback_fill_range:
  "fallback_fill a f e b = Fin 0 \<or> Fin 0 < fallback_fill a f e b \<and> fallback_fill a f e b \<le> b"
proof -
  have "Fin 0 < x \<and> x \<le> b" if "js_lt (Fin 0) x" "x = js_min y b" for x y
    using that by (cases y; cases b) (auto simp: js_min_def less_le less_eq_jsnum_def split: if_splits)
  then show ?thesis by (auto simp: fallback_fill_def Let_def)
qed


lemma calculateOptimal_nonzero:
  assumes "calculateOptimalFillPercentage me rd c t1 t2 order \<noteq> Fin 0"
  shows "\<exists>bal req. rd = Inr bal \<and> js_BigInt (minToAmount order) = Inr req \<and>
    optimal_fill me bal req c t1 t2 order = Inr (calculateOptimalFillPercentage me rd c t1 t2 order)"
  using assms
  by (cases rd; cases "js_BigInt (minToAmount order)")
    (auto simp: calculateOptimalFillPercentage_def split: sum.splits)

subsection \<open>Properties\<close>

text \<open>The order of the witnesses, as the engine stores it.\<close>

definition demo_book_order :: Order where
  "demo_book_order = CreateOrderDto.extend \<lparr>fromChain = ETHEREUM, toChain = APTOS, fromToken = ''WETH'', toToken = ''APT'',
     fromAmount = ''1000'', minToAmount = ''900'', maker = ''0xAlice'', receiver = ''0xA1'',
     signature = ''0x00'', deadline = Fin 2000, nonce = ''1'', partialFillAllowed = True,
     partialFillEnabled = True, secretHash = None, secretHashes = None, partialFillSecrets = None,
     maxParts = None, activeResolvers = None, dutchAuction = None, permit = None,
     permitSignature = None, gasless = None, gaslessData = None\<rparr>
     (Order.fields ''o1'' PENDING ''0'' (Fin 0) 0 0 [])"

definition resolver_named :: "string \<Rightarrow> identity" where
  "resolver_named x = \<lparr>resolverName = x, resolverPort = 0\<rparr>"

text \<open>
  The ranges of the active resolvers partition an order: at every fill state below 100 percent
  exactly one position has its turn. This holds for the rounded bounds the code computes, for any
  number of resolvers.
\<close>

theorem fill_ranges_partition:
  assumes "0 < n" "n \<le> 1000000" "0 \<le> c" "c < 100"
  shows "\<exists>!i. i < n \<and> in_range (fill_range True (base_fill n) n i) (Fin c)"
proof -
  obtain b where b: "base_fill n = Fin b" "0 \<le> b" "b \<le> 50" using base_fill_value[OF assms(1)] .
  obtain i where i: "i < n" "in_range (fill_range True (Fin b) n i) (Fin c)"
    using ranges_cover[OF b(2,3) assms] by blast
  have "j = i" if "j < n" "in_range (fill_range True (Fin b) n j) (Fin c)" for j
    using ranges_disjoint[OF b(2,3) assms(2), of i j c] ranges_disjoint[OF b(2,3) assms(2), of j i c] that i
    by (cases j i rule: linorder_cases) auto
  with i b(1) show ?thesis by auto
qed

theorem fill_ranges_partition_witness:
  "\<exists>!i. i < 3 \<and> in_range (fill_range True (base_fill 3) 3 i) (Fin 70)"
  by (rule fill_ranges_partition) simp_all

text \<open>
  C31. Mutual exclusion: for a partially fillable order without an auction, two different resolvers
  never both decide to fill at the same fill state, whatever their balances are.
\<close>

theorem resolvers_exclusive:
  assumes "enabled_auction order = None" "partialFillAllowed order \<or> partialFillEnabled order"
    and "length (active_list order) \<le> 1000000"
    and "calculateOptimalFillPercentage me1 rd1 (Fin c) t1 t2 order \<noteq> Fin 0"
    and "calculateOptimalFillPercentage me2 rd2 (Fin c) u1 u2 order \<noteq> Fin 0"
  shows "getResolverIndex me1 = getResolverIndex me2"
proof -
  let ?n = "active_count order"
  obtain bal1 req1 i where i: "active_position (active_list order) (getResolverIndex me1) = Some i"
    "in_range (fill_range True (base_fill ?n) ?n i) (Fin c)"
    using calculateOptimal_nonzero[OF assms(4)] optimal_fill_range[OF assms(1,2) _ assms(4)] by blast
  obtain bal2 req2 j where j: "active_position (active_list order) (getResolverIndex me2) = Some j"
    "in_range (fill_range True (base_fill ?n) ?n j) (Fin c)"
    using calculateOptimal_nonzero[OF assms(5)] optimal_fill_range[OF assms(1,2) _ assms(5)] by blast
  have lt: "i < ?n" "j < ?n"
    using active_position_less[OF i(1) getResolverIndex_le] active_position_less[OF j(1) getResolverIndex_le] by auto
  then obtain b where b: "base_fill ?n = Fin b" "0 \<le> b" "b \<le> 50" using base_fill_value[of ?n] by auto
  have n: "?n \<le> 1000000" using assms(3) by simp
  have "i = j"
    using ranges_disjoint[OF b(2,3) n, of i j c] ranges_disjoint[OF b(2,3) n, of j i c] i(2) j(2) lt b(1)
    by (cases i j rule: linorder_cases) auto
  then show ?thesis using active_position_inj[OF i(1) _ getResolverIndex_le getResolverIndex_le] j(1) by simp
qed

theorem resolvers_exclusive_witness:
  "calculateOptimalFillPercentage (resolver_named ''Resolver-1'') (Inr 1000) (Fin 40) (Fin 0) (Fin 0) demo_book_order = Fin 0 \<and>
   calculateOptimalFillPercentage (resolver_named ''Resolver-2'') (Inr 1000) (Fin 40) (Fin 0) (Fin 0) demo_book_order \<noteq> Fin 0"
proof -
  have c: "calculateOptimalFillPercentage (resolver_named ''Resolver-2'') (Inr 1000) (Fin 40) (Fin 0) (Fin 0) demo_book_order \<noteq> Fin 0"
    "enabled_auction demo_book_order = None" "partialFillAllowed demo_book_order \<or> partialFillEnabled demo_book_order"
    "active_list demo_book_order = []"
    "getResolverIndex (resolver_named ''Resolver-1'') \<noteq> getResolverIndex (resolver_named ''Resolver-2'')"
    by code_simp+
  have "length (active_list demo_book_order) \<le> 1000000" by (simp add: c(4))
  from resolvers_exclusive[OF c(2,3) this _ c(1)] c(1,5) show ?thesis by blast
qed

text \<open>
  C32. Progress: for an order open to all three resolvers, without an auction, at every fill state
  below 100 percent one of them, if it holds the minimum amount, decides to take its third.
\<close>

theorem some_resolver_fills:
  assumes "enabled_auction order = None" "partialFillAllowed order \<or> partialFillEnabled order"
    and "active_list order = []" "minToAmount order = show_int req" "0 \<le> req" "req \<le> balance"
    and "0 \<le> c" "c < 100"
  shows "\<exists>name. name \<in> {''Resolver-1'', ''Resolver-2'', ''Resolver-3''} \<and>
    calculateOptimalFillPercentage (resolver_named name) (Inr balance) (Fin c) t1 t2 order = base_fill 3 \<and>
    base_fill 3 \<noteq> Fin 0"
proof -
  obtain b where b: "base_fill 3 = Fin b" "0 \<le> b" "b \<le> 50" using base_fill_value[of 3] by auto
  obtain i where i: "i < 3" "in_range (fill_range True (base_fill 3) 3 i) (Fin c)"
    using ranges_cover[OF b(2,3), of 3 c] assms(7,8) b(1) by auto
  have "req * basis_points b \<le> req * 10000"
    using assms(5) basis_points_range[of b] b by (intro mult_left_mono) auto
  then have "affordable balance req (base_fill 3) = Inr True"
    using affordable_value[of req b balance] assms(5,6) b by auto
  moreover obtain name where "name \<in> {''Resolver-1'', ''Resolver-2'', ''Resolver-3''}"
    "getResolverIndex (resolver_named name) = i"
  proof -
    have "getResolverIndex (resolver_named ''Resolver-1'') = 0" "getResolverIndex (resolver_named ''Resolver-2'') = 1"
      "getResolverIndex (resolver_named ''Resolver-3'') = 2" by code_simp+
    moreover have "i = 0 \<or> i = 1 \<or> i = 2" using i(1) by auto
    ultimately show ?thesis
      using that[of "''Resolver-1''"] that[of "''Resolver-2''"] that[of "''Resolver-3''"] by auto
  qed
  moreover have "base_fill 3 \<noteq> Fin 0" by code_simp
  ultimately show ?thesis
    using optimal_fill_takes[OF assms(1,2,3)] i(2) assms(4)
    by (intro exI[of _ name]) (simp add: calculateOptimalFillPercentage_def)
qed

theorem some_resolver_fills_witness:
  "\<exists>name. calculateOptimalFillPercentage (resolver_named name) (Inr 1000) (Fin 40) (Fin 0) (Fin 0) demo_book_order = base_fill 3"
proof -
  have c: "enabled_auction demo_book_order = None" "partialFillAllowed demo_book_order \<or> partialFillEnabled demo_book_order"
    "active_list demo_book_order = []" "minToAmount demo_book_order = show_int 900"
    by code_simp+
  show ?thesis using some_resolver_fills[OF c, of 1000 40 "Fin 0" "Fin 0"] by auto
qed

text \<open>
  Whatever a resolver decides to fill is more than nothing and at most the whole order; without
  an auction it is the base share (the whole order when partial fills are off) and the resolver's
  balance covers that share of the minimum amount.
\<close>

theorem optimal_fill_bounded:
  assumes "calculateOptimalFillPercentage me rd c t1 t2 order = p" "p \<noteq> Fin 0"
  shows "Fin 0 < p \<and> p \<le> Fin 100 \<and>
    (enabled_auction order = None \<longrightarrow>
      p = (if partialFillAllowed order \<or> partialFillEnabled order then base_fill (active_count order) else Fin 100) \<and>
      (\<exists>balance req. rd = Inr balance \<and> js_BigInt (minToAmount order) = Inr req \<and> affordable balance req p = Inr True))"
proof -
  obtain bal req where rd: "rd = Inr bal" "js_BigInt (minToAmount order) = Inr req"
    and p: "optimal_fill me bal req c t1 t2 order = Inr p"
    using calculateOptimal_nonzero[of me rd c t1 t2 order] assms by auto
  define base where "base = (if partialFillAllowed order \<or> partialFillEnabled order
    then base_fill (active_count order) else Fin 100)"
  have "0 < active_count order" by simp
  then obtain b where "base_fill (active_count order) = Fin b" "0 \<le> b" "b \<le> 50" by (rule base_fill_value)
  then have base: "Fin 0 \<le> base" "base \<le> Fin 100" by (simp_all add: base_def)
  have "p = base \<and> affordable bal req base = Inr True \<or>
      enabled_auction order \<noteq> None \<and> (\<exists>a f e. p = fallback_fill a f e base)"
    using p assms(2) unfolding optimal_fill_def Let_def base_def[symmetric]
    by (cases "affordable bal req base") (auto split: if_splits option.splits prod.splits)
  moreover have "Fin 0 < p \<and> p \<le> Fin 100" if "p = fallback_fill a f e base" for a f e
    using that assms(2) fallback_fill_range[of a f e base] base by auto
  moreover have "Fin 0 < p \<and> p \<le> Fin 100" if "p = base" using that base assms(2) by (simp add: less_le)
  ultimately show ?thesis using rd by (auto simp: base_def[symmetric])
qed

theorem optimal_fill_bounded_witness:
  "Fin 0 < calculateOptimalFillPercentage (resolver_named ''Resolver-1'') (Inr 300) (Fin 0) (Fin 0) (Fin 0) demo_book_order \<and>
   calculateOptimalFillPercentage (resolver_named ''Resolver-1'') (Inr 298) (Fin 0) (Fin 0) (Fin 0) demo_book_order = Fin 0"
proof -
  have c: "calculateOptimalFillPercentage (resolver_named ''Resolver-1'') (Inr 300) (Fin 0) (Fin 0) (Fin 0) demo_book_order \<noteq> Fin 0"
    "calculateOptimalFillPercentage (resolver_named ''Resolver-1'') (Inr 298) (Fin 0) (Fin 0) (Fin 0) demo_book_order = Fin 0"
    by code_simp+
  show ?thesis using optimal_fill_bounded[OF refl c(1)] c(2) by simp
qed

text \<open>
  The share is not reduced to what is left: with two active resolvers, the second one fills its
  whole half at any fill state of its range, so that a state strictly between 50 and 100 percent
  leads to more than 100 percent.
\<close>

theorem second_half_overfills:
  assumes "enabled_auction order = None" "partialFillAllowed order \<or> partialFillEnabled order"
    and "activeResolvers order = Some [''resolver-1'', ''resolver-2'']"
    and "minToAmount order = show_int req" "0 \<le> req" "req \<le> balance" "50 < c" "c < 100"
  shows "\<exists>p. calculateOptimalFillPercentage (resolver_named ''Resolver-2'') (Inr balance) (Fin c) t1 t2 order = Fin p \<and>
    100 < c + p"
proof -
  have v: "getResolverIndex (resolver_named ''Resolver-2'') = 1" "base_fill 2 = Fin 50"
    "is_active [JStr ''resolver-1'', JStr ''resolver-2''] 1"
    "active_position [JStr ''resolver-1'', JStr ''resolver-2''] 1 = Some 1"
    "fill_range True (Fin 50) 2 1 = (Fin 50, Fin 100)"
    by code_simp+
  have l: "active_list order = [JStr ''resolver-1'', JStr ''resolver-2'']"
    using assms(3) by (simp add: active_list_def)
  have "affordable balance req (Fin 50) = Inr True"
  proof -
    have "req * basis_points 50 div 10000 \<le> req"
      using assms(5) basis_points_of_int[of 50] by simp
    then show ?thesis using affordable_value[of req 50 balance] assms(5,6) by simp
  qed
  then have "optimal_fill (resolver_named ''Resolver-2'') balance req (Fin c) t1 t2 order = Inr (Fin 50)"
    using assms(1,2,7,8) v l
    by (auto simp: optimal_fill_def Let_def simp flip: numeral_2_eq_2)
  then show ?thesis using assms(4,7) by (simp add: calculateOptimalFillPercentage_def)
qed

theorem second_half_overfills_witness:
  "calculateOptimalFillPercentage (resolver_named ''Resolver-2'') (Inr 1000) (Fin 75) (Fin 0) (Fin 0)
     (demo_book_order\<lparr>activeResolvers := Some [''resolver-1'', ''resolver-2'']\<rparr>) = Fin 50"
proof -
  let ?o = "demo_book_order\<lparr>activeResolvers := Some [''resolver-1'', ''resolver-2'']\<rparr>"
  have c: "enabled_auction ?o = None" "partialFillAllowed ?o \<or> partialFillEnabled ?o"
    "activeResolvers ?o = Some [''resolver-1'', ''resolver-2'']" "minToAmount ?o = show_int 900"
    "calculateOptimalFillPercentage (resolver_named ''Resolver-2'') (Inr 1000) (Fin 75) (Fin 0) (Fin 0) ?o = Fin 50"
    by code_simp+
  show ?thesis using second_half_overfills[OF c(1-4), of 1000 75 "Fin 0" "Fin 0"] c(5) by auto
qed

end
