(* ===== verification/Effects.thy ===== *)
theory Effects
  imports JSValue
begin

section \<open>Programs that talk to the outside\<close>

text \<open>
  The services of the resolver await calls of libraries and chains. A program is a function of the
  outside, which answers a call from the calls made so far, and of a world, the state of the program
  with the trace of its calls and their outcomes; it returns a result or the error it throws, with
  the world it leaves. Calls are named after the method of the source, with their arguments.
\<close>

datatype ext = Ext (ext_name: string) (ext_args: "jsval list")

type_synonym trace = "(ext \<times> jsval res) list"

type_synonym outside = "trace \<Rightarrow> ext \<Rightarrow> jsval res"

record 's world =
  wstate :: 's
  wtrace :: trace

type_synonym ('s, 'a) prog = "outside \<Rightarrow> 's world \<Rightarrow> 'a res \<times> 's world"

definition ret :: "'a \<Rightarrow> ('s, 'a) prog" where
  "ret x orc w = (Inr x, w)"

definition raise :: "js_error \<Rightarrow> ('s, 'a) prog" where
  "raise e orc w = (Inl e, w)"

definition lift_res :: "'a res \<Rightarrow> ('s, 'a) prog" where
  "lift_res r orc w = (r, w)"

definition bind_p :: "('s, 'a) prog \<Rightarrow> ('a \<Rightarrow> ('s, 'b) prog) \<Rightarrow> ('s, 'b) prog" where
  "bind_p m f orc w =
     (case m orc w of (Inl e, w1) \<Rightarrow> (Inl e, w1) | (Inr x, w1) \<Rightarrow> f x orc w1)"

definition call :: "string \<Rightarrow> jsval list \<Rightarrow> ('s, jsval) prog" where
  "call name args orc w =
     (let r = orc (wtrace w) (Ext name args)
      in (r, w\<lparr>wtrace := wtrace w @ [(Ext name args, r)]\<rparr>))"

definition get_st :: "('s, 's) prog" where
  "get_st orc w = (Inr (wstate w), w)"

definition upd_st :: "('s \<Rightarrow> 's) \<Rightarrow> ('s, unit) prog" where
  "upd_st f orc w = (Inr (), w\<lparr>wstate := f (wstate w)\<rparr>)"

definition try_catch :: "('s, 'a) prog \<Rightarrow> (js_error \<Rightarrow> ('s, 'a) prog) \<Rightarrow> ('s, 'a) prog" where
  "try_catch m h orc w =
     (case m orc w of (Inl e, w1) \<Rightarrow> h e orc w1 | (Inr x, w1) \<Rightarrow> (Inr x, w1))"

definition finally_p :: "('s, 'a) prog \<Rightarrow> ('s, unit) prog \<Rightarrow> ('s, 'a) prog" where
  "finally_p m f orc w =
     (case m orc w of (r, w1) \<Rightarrow>
        (case f orc w1 of (Inl e, w2) \<Rightarrow> (Inl e, w2) | (Inr _, w2) \<Rightarrow> (r, w2)))"

text \<open>A call whose answer is used for its effect only.\<close>

definition do_call :: "string \<Rightarrow> jsval list \<Rightarrow> ('s, unit) prog" where
  "do_call name args = bind_p (call name args) (\<lambda>_. ret ())"

text \<open>Reading a property of an answer.\<close>

definition prop_p :: "jsval \<Rightarrow> string \<Rightarrow> ('s, jsval) prog" where
  "prop_p v k = lift_res (get_prop v k)"

subsection \<open>What a program calls\<close>

text \<open>
  \<open>costs P n m\<close>: a run of \<open>m\<close> extends the trace, with at most \<open>n\<close> calls that satisfy \<open>P\<close>. With \<open>n = 0\<close>
  it says that no such call is made.
\<close>

definition new_calls :: "'s world \<Rightarrow> 's world \<Rightarrow> trace" where
  "new_calls w w1 = drop (length (wtrace w)) (wtrace w1)"

definition costs :: "(ext \<Rightarrow> bool) \<Rightarrow> nat \<Rightarrow> ('s, 'a) prog \<Rightarrow> bool" where
  "costs P n m \<longleftrightarrow> (\<forall>orc w. \<exists>new. wtrace (snd (m orc w)) = wtrace w @ new \<and>
     length (filter P (map fst new)) \<le> n)"

lemma costsI:
  "(\<And>orc w. \<exists>new. wtrace (snd (m orc w)) = wtrace w @ new \<and> length (filter P (map fst new)) \<le> n) \<Longrightarrow> costs P n m"
  by (simp add: costs_def)

lemma costsD:
  "costs P n m \<Longrightarrow> m orc w = (r, w1) \<Longrightarrow>
   \<exists>new. wtrace w1 = wtrace w @ new \<and> length (filter P (map fst new)) \<le> n"
  by (metis costs_def snd_conv)

named_theorems cost_rules

lemma costs_mono: "costs P a m \<Longrightarrow> a \<le> b \<Longrightarrow> costs P b m"
  unfolding costs_def by (meson le_trans)

lemma costs_ret [cost_rules]: "costs P n (ret x)"
  by (simp add: costs_def ret_def)

lemma costs_raise [cost_rules]: "costs P n (raise e)"
  by (simp add: costs_def raise_def)

lemma costs_lift [cost_rules]: "costs P n (lift_res r)"
  by (simp add: costs_def lift_res_def)

lemma costs_prop [cost_rules]: "costs P n (prop_p v k)"
  by (simp add: prop_p_def costs_lift)

lemma costs_get [cost_rules]: "costs P n get_st"
  by (simp add: costs_def get_st_def)

lemma costs_upd [cost_rules]: "costs P n (upd_st f)"
  by (simp add: costs_def upd_st_def)

lemma costs_call_other [cost_rules]: "\<not> P (Ext name args) \<Longrightarrow> costs P n (call name args)"
  by (simp add: costs_def call_def Let_def)

lemma costs_call: "costs P (Suc n) (call name args)"
  by (simp add: costs_def call_def Let_def)

lemma costs_bind:
  assumes "costs P a m" "\<And>x. costs P b (f x)" shows "costs P (a + b) (bind_p m f)"
proof (rule costsI)
  fix orc :: outside and w :: "'a world"
  obtain r w1 where m: "m orc w = (r, w1)" by fastforce
  obtain new where n: "wtrace w1 = wtrace w @ new" "length (filter P (map fst new)) \<le> a"
    using costsD[OF assms(1) m] by blast
  show "\<exists>new. wtrace (snd (bind_p m f orc w)) = wtrace w @ new \<and> length (filter P (map fst new)) \<le> a + b"
  proof (cases r)
    case (Inl e)
    then show ?thesis using m n by (auto simp: bind_p_def)
  next
    case (Inr x)
    obtain s w2 where f: "f x orc w1 = (s, w2)" by fastforce
    obtain new' where "wtrace w2 = wtrace w1 @ new'" "length (filter P (map fst new')) \<le> b"
      using costsD[OF assms(2) f] by blast
    then show ?thesis using m n f Inr by (auto simp: bind_p_def)
  qed
qed

lemma costs_bind0 [cost_rules]:
  "costs P 0 m \<Longrightarrow> (\<And>x. costs P n (f x)) \<Longrightarrow> costs P n (bind_p m f)"
  using costs_bind[of P 0 m n f] by simp

lemma costs_bind1: "costs P n m \<Longrightarrow> (\<And>x. costs P 0 (f x)) \<Longrightarrow> costs P n (bind_p m f)"
  using costs_bind[of P n m 0 f] by simp

lemma costs_try:
  assumes "costs P a m" "\<And>e. costs P b (h e)" shows "costs P (a + b) (try_catch m h)"
proof (rule costsI)
  fix orc :: outside and w :: "'a world"
  obtain r w1 where m: "m orc w = (r, w1)" by fastforce
  obtain new where n: "wtrace w1 = wtrace w @ new" "length (filter P (map fst new)) \<le> a"
    using costsD[OF assms(1) m] by blast
  show "\<exists>new. wtrace (snd (try_catch m h orc w)) = wtrace w @ new \<and> length (filter P (map fst new)) \<le> a + b"
  proof (cases r)
    case (Inr x)
    then show ?thesis using m n by (auto simp: try_catch_def)
  next
    case (Inl e)
    obtain s w2 where f: "h e orc w1 = (s, w2)" by fastforce
    obtain new' where "wtrace w2 = wtrace w1 @ new'" "length (filter P (map fst new')) \<le> b"
      using costsD[OF assms(2) f] by blast
    then show ?thesis using m n f Inl by (auto simp: try_catch_def)
  qed
qed

lemma costs_try0 [cost_rules]: "costs P n m \<Longrightarrow> (\<And>e. costs P 0 (h e)) \<Longrightarrow> costs P n (try_catch m h)"
  using costs_try[of P n m 0 h] by simp

lemma costs_if [cost_rules]: "costs P n a \<Longrightarrow> costs P n b \<Longrightarrow> costs P n (if c then a else b)"
  by simp

lemma costs_do_call [cost_rules]: "\<not> P (Ext name args) \<Longrightarrow> costs P n (do_call name args)"
  unfolding do_call_def by (intro cost_rules costs_mono[OF costs_call_other[of P name args 0]]) simp_all

subsection \<open>Runs\<close>

text \<open>What a successful sequence or a caught error tells about its parts.\<close>

lemma bind_p_Inr:
  "bind_p m f orc w = (Inr y, w2) \<longleftrightarrow> (\<exists>x w1. m orc w = (Inr x, w1) \<and> f x orc w1 = (Inr y, w2))"
  by (auto simp: bind_p_def split: prod.splits sum.splits)

lemma try_catch_Inr:
  "try_catch m h orc w = (Inr y, w2) \<longleftrightarrow>
   m orc w = (Inr y, w2) \<or> (\<exists>e w1. m orc w = (Inl e, w1) \<and> h e orc w1 = (Inr y, w2))"
  by (auto simp: try_catch_def split: prod.splits sum.splits)

lemma call_Inr:
  "call n a orc w = (Inr y, w2) \<longleftrightarrow>
   orc (wtrace w) (Ext n a) = Inr y \<and> w2 = w\<lparr>wtrace := wtrace w @ [(Ext n a, Inr y)]\<rparr>"
  by (auto simp: call_def Let_def)

lemma do_call_Inr:
  "do_call n a orc w = (Inr y, w2) \<longleftrightarrow>
   (\<exists>v. orc (wtrace w) (Ext n a) = Inr v \<and> w2 = w\<lparr>wtrace := wtrace w @ [(Ext n a, Inr v)]\<rparr>)"
  by (auto simp: do_call_def bind_p_Inr call_Inr ret_def)

lemma simple_Inr [simp]:
  "ret x orc w = (r, w1) \<longleftrightarrow> r = Inr x \<and> w1 = w"
  "raise e orc w = (r, w1) \<longleftrightarrow> r = Inl e \<and> w1 = w"
  "lift_res a orc w = (r, w1) \<longleftrightarrow> r = a \<and> w1 = w"
  "get_st orc w = (q, w1) \<longleftrightarrow> q = Inr (wstate w) \<and> w1 = w"
  "upd_st f orc w = (u, w1) \<longleftrightarrow> u = Inr () \<and> w1 = w\<lparr>wstate := f (wstate w)\<rparr>"
  by (auto simp: ret_def raise_def lift_res_def get_st_def upd_st_def)

lemmas run_simps = bind_p_Inr try_catch_Inr call_Inr do_call_Inr prop_p_def

end
