(* ===== verification/AptosChain.thy ===== *)
theory AptosChain
  imports Effects
begin

section \<open>The Aptos chain service\<close>

text \<open>
  The class \<^verbatim>\<open>AptosChainServiceV2\<close> (\<^verbatim>\<open>backend/resolver/src/services/AptosChainServiceV2.ts\<close>). The Aptos
  SDK and the clock are outside calls; byte arrays are opaque values. \<open>self\<close> holds what the
  constructor sets: the address of the account and of the escrow module. The messages of the
  console are left out.
\<close>

record aptos_self =
  accountAddress :: jsval
  escrowAddress :: string

text \<open>The key the constructor accepts: 32 bytes in hexadecimal, or the first half of 64 bytes.\<close>

fun replace_first :: "string \<Rightarrow> string \<Rightarrow> string" where
  "replace_first pat [] = []"
| "replace_first pat (c # cs) =
     (if startsWith (c # cs) pat then drop (length pat) (c # cs) else c # replace_first pat cs)"

definition parse_private_key :: "string \<Rightarrow> string res" where
  "parse_private_key rawPrivateKey =
     (let cleanKey = replace_first ''0x'' (replace_first ''ed25519-priv-'' rawPrivateKey)
      in if length cleanKey = 128 then Inr (take 64 cleanKey)
         else if length cleanKey = 64 then Inr cleanKey
         else Inl (Error (''Invalid private key length: '' @ show_nat (length cleanKey))))"

subsection \<open>Transactions\<close>

text \<open>Arguments are evaluated from left to right.\<close>

fun seq_p :: "('s, jsval) prog list \<Rightarrow> ('s, jsval list) prog" where
  "seq_p [] = ret []"
| "seq_p (m # ms) = bind_p m (\<lambda>v. bind_p (seq_p ms) (\<lambda>vs. ret (v # vs)))"

definition u64 :: "int res \<Rightarrow> ('s, jsval) prog" where
  "u64 n = bind_p (lift_res n) (\<lambda>k. call ''U64'' [JBig k])"

definition address :: "string \<Rightarrow> ('s, jsval) prog" where
  "address a = call ''AccountAddress.fromString'' [JStr a]"

definition fn_name :: "aptos_self \<Rightarrow> string \<Rightarrow> jsval" where
  "fn_name self f = JStr (escrowAddress self @ ''::'' @ f)"

text \<open>Signing and submitting a built transaction, and the hash it is pending under.\<close>

definition sign_submit :: "aptos_self \<Rightarrow> jsval \<Rightarrow> ('s, jsval) prog" where
  "sign_submit self txn =
     bind_p (call ''aptos.transaction.sign'' [accountAddress self, txn]) (\<lambda>senderAuthenticator.
     bind_p (call ''aptos.transaction.submit.simple'' [txn, senderAuthenticator]) (\<lambda>pendingTransaction.
     prop_p pendingTransaction ''hash''))"

definition check_success :: "jsval \<Rightarrow> jsval \<Rightarrow> ('s, jsval) prog" where
  "check_success executedTransaction hash =
     bind_p (prop_p executedTransaction ''success'') (\<lambda>ok.
     if truthy ok then ret hash
     else raise (Error (''Transaction failed: '' @ to_string (opt_prop executedTransaction ''vm_status''))))"

text \<open>Building, signing, submitting and awaiting a call of an entry function.\<close>

definition entry_function :: "aptos_self \<Rightarrow> string \<Rightarrow> ('s, jsval) prog list \<Rightarrow> ('s, jsval) prog" where
  "entry_function self f args =
     bind_p (seq_p args) (\<lambda>vs.
     bind_p (call ''aptos.transaction.build.simple'' [accountAddress self, fn_name self f, JArr vs]) (\<lambda>txn.
     bind_p (sign_submit self txn) (\<lambda>hash.
     bind_p (call ''aptos.waitForTransaction'' [hash]) (\<lambda>executedTransaction.
     check_success executedTransaction hash))))"

fun num_of :: "jsval \<Rightarrow> jsnum" where
  "num_of (JNum x) = x"
| "num_of _ = NaN"

text \<open>\<^verbatim>\<open>BigInt(Math.floor(Date.now() / 1000) + 300)\<close>.\<close>

definition expiry_arg :: "('s, jsval) prog" where
  "expiry_arg =
     bind_p (call ''Date.now'' []) (\<lambda>now.
     u64 (bigint_of_num (js_add (js_floor (js_div (num_of now) (Fin 1000))) (Fin 300))))"

definition createEscrowDelegated ::
  "aptos_self \<Rightarrow> jsval \<Rightarrow> string \<Rightarrow> string \<Rightarrow> string \<Rightarrow> jsval \<Rightarrow> jsnum \<Rightarrow> string \<Rightarrow> ('s, jsval) prog" where
  "createEscrowDelegated self escrowId depositor beneficiary amount hashlock timelock safetyDeposit =
     entry_function self ''escrow_v3::create_escrow_delegated''
       [ret escrowId, address depositor, address beneficiary, u64 (js_BigInt amount), ret hashlock,
        u64 (bigint_of_num timelock), u64 (Inr 0), expiry_arg, u64 (js_BigInt safetyDeposit),
        ret (JArr (replicate 32 (JNum (Fin 0)))), ret (JArr (replicate 64 (JNum (Fin 0))))]"

definition createPartialFillOrder ::
  "aptos_self \<Rightarrow> jsval \<Rightarrow> string \<Rightarrow> string \<Rightarrow> string \<Rightarrow> jsval \<Rightarrow> jsnum \<Rightarrow> jsnum \<Rightarrow> jsnum \<Rightarrow> jsnum \<Rightarrow> jsval \<Rightarrow> jsval
   \<Rightarrow> ('s, jsval) prog" where
  "createPartialFillOrder self baseOrderId depositor beneficiary totalAmount treeRoot numFills timelock
     orderNonce expiry depositorPubkey sig =
     entry_function self ''fusion_plus_partial_fill::create_partial_fill_order''
       [ret baseOrderId, address depositor, address beneficiary, u64 (js_BigInt totalAmount), ret treeRoot,
        u64 (bigint_of_num numFills), u64 (bigint_of_num timelock), u64 (bigint_of_num orderNonce),
        u64 (bigint_of_num expiry), ret depositorPubkey, ret sig]"

definition createPartialFillEscrow ::
  "aptos_self \<Rightarrow> jsval \<Rightarrow> jsnum \<Rightarrow> string \<Rightarrow> jsval \<Rightarrow> jsval \<Rightarrow> string \<Rightarrow> ('s, jsval) prog" where
  "createPartialFillEscrow self baseOrderId fillIndex amount hashlock proof safetyDeposit =
     entry_function self ''fusion_plus_partial_fill::create_partial_fill_escrow''
       [ret baseOrderId, u64 (bigint_of_num fillIndex), u64 (js_BigInt amount), ret hashlock, ret proof,
        u64 (js_BigInt safetyDeposit)]"

definition createEscrow ::
  "aptos_self \<Rightarrow> jsval \<Rightarrow> string \<Rightarrow> string \<Rightarrow> string \<Rightarrow> jsval \<Rightarrow> jsnum \<Rightarrow> string \<Rightarrow> ('s, jsval) prog" where
  "createEscrow self escrowId depositor beneficiary amount hashlock timelock safetyDeposit =
     entry_function self ''escrow_v3::create_escrow_user_funded''
       [ret escrowId, ret (JStr beneficiary), u64 (js_BigInt amount), ret hashlock,
        u64 (bigint_of_num timelock), u64 (js_BigInt safetyDeposit), ret (accountAddress self)]"

subsection \<open>Reading the chain\<close>

definition view_exists :: "aptos_self \<Rightarrow> jsval \<Rightarrow> ('s, jsval) prog" where
  "view_exists self escrowId = call ''aptos.view'' [fn_name self ''escrow_v3::escrow_exists'', escrowId]"

definition checkAptosEscrowExists :: "aptos_self \<Rightarrow> jsval \<Rightarrow> ('s, bool) prog" where
  "checkAptosEscrowExists self escrowId =
     try_catch
       (bind_p (view_exists self escrowId) (\<lambda>escrowExists.
        ret (case escrowExists of
               JArr vs \<Rightarrow> vs \<noteq> [] \<and> hd vs = JBool True
             | v \<Rightarrow> v = JBool True)))
       (\<lambda>e. ret False)"

definition getBalance :: "jsval \<Rightarrow> ('s, string) prog" where
  "getBalance addr =
     try_catch
       (bind_p (call ''aptos.getAccountCoinAmount'' [addr, JStr ''0x1::aptos_coin::AptosCoin'']) (\<lambda>balance.
        ret (to_string balance)))
       (\<lambda>e. ret ''0'')"

subsection \<open>Withdrawing\<close>

text \<open>\<^verbatim>\<open>!v || (Array.isArray(v) && !v[0])\<close>.\<close>

definition absent :: "jsval \<Rightarrow> bool" where
  "absent v \<longleftrightarrow> \<not> truthy v \<or> (case v of JArr vs \<Rightarrow> vs = [] \<or> \<not> truthy (hd vs) | _ \<Rightarrow> False)"

definition sleep :: "int \<Rightarrow> ('s, unit) prog" where
  "sleep ms = do_call ''setTimeout'' [JNum (Fin (of_int ms))]"

text \<open>
  Waiting for the confirmation: \<open>left\<close> rounds of the loop remain. Leaving the loop without an answer
  leaves \<^verbatim>\<open>undefined\<close>.
\<close>

fun wait_confirmation :: "nat \<Rightarrow> jsval \<Rightarrow> ('s, jsval) prog" where
  "wait_confirmation 0 hash = ret JUndef"
| "wait_confirmation (Suc left) hash =
     try_catch (call ''aptos.waitForTransaction'' [hash, JNum (Fin 30), JBool False])
       (\<lambda>e. if str_includes (message e) ''transaction_not_found'' \<and> 0 < left
            then bind_p (sleep 2000) (\<lambda>_. wait_confirmation left hash)
            else raise e)"

definition maxRetries :: nat where
  "maxRetries = 10"

definition maxAttempts :: nat where
  "maxAttempts = 3"

definition withdraw_attempt :: "aptos_self \<Rightarrow> jsval \<Rightarrow> jsval \<Rightarrow> ('s, jsval) prog" where
  "withdraw_attempt self escrowId secret =
     bind_p (call ''aptos.account.getAccountInfo'' [accountAddress self]) (\<lambda>accountInfo.
     bind_p (prop_p accountInfo ''sequence_number'') (\<lambda>seqNo.
     bind_p (lift_res (js_BigInt (to_string seqNo))) (\<lambda>n.
     bind_p (call ''aptos.transaction.build.simple''
       [accountAddress self, fn_name self ''escrow_v3::withdraw'', JArr [escrowId, secret], JBig n]) (\<lambda>txn.
     bind_p (sign_submit self txn) (\<lambda>hash.
     bind_p (wait_confirmation maxRetries hash) (\<lambda>executedTransaction.
     if \<not> truthy executedTransaction then raise (Error ''Transaction confirmation timeout'')
     else check_success executedTransaction hash))))))"

fun withdraw_loop :: "nat \<Rightarrow> aptos_self \<Rightarrow> jsval \<Rightarrow> jsval \<Rightarrow> ('s, jsval) prog" where
  "withdraw_loop 0 self escrowId secret =
     raise (Error ''Failed to submit transaction after all attempts'')"
| "withdraw_loop (Suc left) self escrowId secret =
     try_catch (withdraw_attempt self escrowId secret)
       (\<lambda>e. if str_includes (message e) ''Transaction already in mempool'' \<and> 0 < left
            then bind_p (sleep 5000) (\<lambda>_. withdraw_loop left self escrowId secret)
            else raise e)"

definition withdrawEscrow :: "aptos_self \<Rightarrow> jsval \<Rightarrow> jsval \<Rightarrow> ('s, jsval) prog" where
  "withdrawEscrow self escrowId secret =
     bind_p (view_exists self escrowId) (\<lambda>escrowExists.
     if absent escrowExists
     then bind_p (call ''ethers.hexlify'' [escrowId]) (\<lambda>hex.
       raise (Error (''Escrow '' @ to_string hex @ '' does not exist on Aptos chain'')))
     else withdraw_loop maxAttempts self escrowId secret)"

subsection \<open>Bounds of the loops\<close>

abbreviation is_submit :: "ext \<Rightarrow> bool" where
  "is_submit c \<equiv> ext_name c = ''aptos.transaction.submit.simple''"

abbreviation is_wait :: "ext \<Rightarrow> bool" where
  "is_wait c \<equiv> ext_name c = ''aptos.waitForTransaction''"

lemma costs_sleep [cost_rules]: "\<not> P (Ext ''setTimeout'' [JNum (Fin (of_int ms))]) \<Longrightarrow> costs P n (sleep ms)"
  unfolding sleep_def by (rule cost_rules)

lemma costs_check_success [cost_rules]: "costs P n (check_success v h)"
  unfolding check_success_def by (intro cost_rules)

lemma sign_submit_submits: "costs is_submit (Suc 0) (sign_submit self txn)"
  unfolding sign_submit_def
  by (rule costs_bind0[OF costs_call_other costs_bind1[OF costs_call costs_prop]]) simp

lemma sign_submit_waits: "costs is_wait n (sign_submit self txn)"
  unfolding sign_submit_def by (intro cost_rules) simp_all

lemma wait_confirmation_submits: "costs is_submit 0 (wait_confirmation k h :: ('s, jsval) prog)"
proof (induction k)
  case (Suc k)
  show ?case unfolding wait_confirmation.simps by (intro cost_rules Suc.IH) simp_all
qed (simp add: cost_rules)

lemma wait_confirmation_waits: "costs is_wait k (wait_confirmation k h :: ('s, jsval) prog)"
proof (induction k)
  case (Suc k)
  have "costs is_wait (Suc 0 + k) (wait_confirmation (Suc k) h :: ('s, jsval) prog)"
    unfolding wait_confirmation.simps
    by (intro costs_try costs_call cost_rules Suc.IH) simp_all
  then show ?case by simp
qed (simp add: cost_rules)

lemma withdraw_attempt_submits: "costs is_submit (Suc 0) (withdraw_attempt self e x)"
  unfolding withdraw_attempt_def
  by (intro costs_bind0 costs_bind1[OF sign_submit_submits] wait_confirmation_submits cost_rules) simp_all

lemma withdraw_attempt_waits: "costs is_wait 10 (withdraw_attempt self e x)"
  unfolding withdraw_attempt_def maxRetries_def
  by (intro costs_bind0 sign_submit_waits costs_bind1[OF wait_confirmation_waits] cost_rules) simp_all

lemma withdraw_loop_submits: "costs is_submit k (withdraw_loop k self e x :: ('s, jsval) prog)"
proof (induction k)
  case (Suc k)
  have "costs is_submit (Suc 0 + k) (withdraw_loop (Suc k) self e x :: ('s, jsval) prog)"
    unfolding withdraw_loop.simps
    by (intro costs_try withdraw_attempt_submits cost_rules Suc.IH) simp_all
  then show ?case by simp
qed (simp add: cost_rules)

lemma withdraw_loop_waits: "costs is_wait (10 * k) (withdraw_loop k self e x :: ('s, jsval) prog)"
proof (induction k)
  case (Suc k)
  have "costs is_wait (10 + 10 * k) (withdraw_loop (Suc k) self e x :: ('s, jsval) prog)"
    unfolding withdraw_loop.simps
    by (intro costs_try withdraw_attempt_waits cost_rules Suc.IH) simp_all
  then show ?case by simp
qed (simp add: cost_rules)

subsection \<open>What a reported success means\<close>

lemma wait_confirmation_answer:
  "wait_confirmation k h orc w = (Inr v, w1) \<Longrightarrow> truthy v \<Longrightarrow>
   \<exists>new. wtrace w1 = wtrace w @ new @ [(Ext ''aptos.waitForTransaction'' [h, JNum (Fin 30), JBool False], Inr v)]"
proof (induction k arbitrary: w)
  case (Suc k)
  from Suc.prems(1) consider
    "call ''aptos.waitForTransaction'' [h, JNum (Fin 30), JBool False] orc w = (Inr v, w1)"
    | e w2 where "call ''aptos.waitForTransaction'' [h, JNum (Fin 30), JBool False] orc w = (Inl e, w2)"
        "(if str_includes (message e) ''transaction_not_found'' \<and> 0 < k
          then bind_p (sleep 2000) (\<lambda>_. wait_confirmation k h) else raise e) orc w2 = (Inr v, w1)"
    by (auto simp: try_catch_Inr)
  then show ?case
  proof cases
    case 1
    then show ?thesis by (auto simp: call_Inr)
  next
    case 2
    then obtain w3 where s: "sleep 2000 orc w2 = (Inr (), w3)" and r: "wait_confirmation k h orc w3 = (Inr v, w1)"
      by (auto simp: bind_p_Inr split: if_splits)
    obtain n1 where "wtrace w2 = wtrace w @ n1" using 2(1) by (auto simp: call_def Let_def)
    moreover obtain n2 where "wtrace w3 = wtrace w2 @ n2" using s by (auto simp: sleep_def do_call_Inr)
    ultimately show ?thesis using Suc.IH[OF r Suc.prems(2)] by auto
  qed
qed (auto simp: ret_def)

text \<open>The outcome that a trace of calls confirms: submitted under a hash, and executed.\<close>

definition confirmed :: "jsval \<Rightarrow> trace \<Rightarrow> bool" where
  "confirmed hash new \<longleftrightarrow> (\<exists>pre args p v. new = pre @ [(Ext ''aptos.waitForTransaction'' args, Inr v)] \<and>
     args \<noteq> [] \<and> hd args = hash \<and> truthy (opt_prop v ''success'') \<and>
     (\<exists>txn. (Ext ''aptos.transaction.submit.simple'' txn, Inr p) \<in> set pre) \<and> opt_prop p ''hash'' = hash)"

lemma confirmed_append: "confirmed h new \<Longrightarrow> confirmed h (old @ new)"
proof -
  assume "confirmed h new"
  then obtain pre args p v where "new = pre @ [(Ext ''aptos.waitForTransaction'' args, Inr v)]" "args \<noteq> []"
    "hd args = h" "truthy (opt_prop v ''success'')" "\<exists>txn. (Ext ''aptos.transaction.submit.simple'' txn, Inr p) \<in> set pre"
    "opt_prop p ''hash'' = h"
    unfolding confirmed_def by blast
  then show ?thesis unfolding confirmed_def
    by (intro exI[of _ "old @ pre"] exI[of _ args] exI[of _ p] exI[of _ v]) auto
qed

lemma sign_submit_trace:
  "sign_submit self txn orc w = (Inr h, w1) \<Longrightarrow>
   \<exists>pre args p. wtrace w1 = wtrace w @ pre \<and> (Ext ''aptos.transaction.submit.simple'' args, Inr p) \<in> set pre
     \<and> opt_prop p ''hash'' = h"
proof -
  assume "sign_submit self txn orc w = (Inr h, w1)"
  then obtain a w2 p where
    a: "call ''aptos.transaction.sign'' [accountAddress self, txn] orc w = (Inr a, w2)"
    and p: "call ''aptos.transaction.submit.simple'' [txn, a] orc w2 = (Inr p, w1)" "get_prop p ''hash'' = Inr h"
    by (auto simp: sign_submit_def bind_p_Inr prop_p_def)
  show ?thesis
    using a p get_prop_opt[OF p(2)]
    by (intro exI[of _ "[(Ext ''aptos.transaction.sign'' [accountAddress self, txn], Inr a),
        (Ext ''aptos.transaction.submit.simple'' [txn, a], Inr p)]"] exI[of _ "[txn, a]"] exI[of _ p])
      (auto simp: call_Inr)
qed

lemma check_success_Inr: "check_success v h orc w = (Inr r, w1) \<Longrightarrow> r = h \<and> w1 = w \<and> truthy (opt_prop v ''success'')"
  by (cases v) (auto simp: check_success_def run_simps split: if_splits)

lemma withdraw_attempt_confirmed:
  assumes "withdraw_attempt self e x orc w = (Inr h, w1)"
  shows "\<exists>new. wtrace w1 = wtrace w @ new \<and> confirmed h new"
proof -
  from assms obtain i w2 n w3 txn h' w4 w5 v where
    w2: "call ''aptos.account.getAccountInfo'' [accountAddress self] orc w = (Inr i, w2)"
    and w3: "call ''aptos.transaction.build.simple''
       [accountAddress self, fn_name self ''escrow_v3::withdraw'', JArr [e, x], JBig n] orc w2 = (Inr txn, w3)"
    and w4': "sign_submit self txn orc w3 = (Inr h', w4)"
    and w5': "wait_confirmation maxRetries h' orc w4 = (Inr v, w5)" and v: "truthy v"
    and ok: "check_success v h' orc w5 = (Inr h, w1)"
    by (auto simp: withdraw_attempt_def bind_p_Inr prop_p_def split: if_splits)
  have h: "h' = h" using check_success_Inr[OF ok] by simp
  note w4 = w4'[unfolded h] and w5 = w5'[unfolded h] v
  obtain pre args p where s: "wtrace w4 = wtrace w3 @ pre"
    "(Ext ''aptos.transaction.submit.simple'' args, Inr p) \<in> set pre" "opt_prop p ''hash'' = h"
    using sign_submit_trace[OF w4] by blast
  obtain ws where "wtrace w5 = wtrace w4 @ ws @ [(Ext ''aptos.waitForTransaction'' [h, JNum (Fin 30), JBool False], Inr v)]"
    using wait_confirmation_answer[OF w5] by blast
  moreover obtain n2 where "wtrace w3 = wtrace w @ n2" using w2 w3 by (auto simp: call_Inr)
  ultimately show ?thesis
    using s check_success_Inr[OF ok]
    by (intro exI[of _ "n2 @ pre @ ws @ [(Ext ''aptos.waitForTransaction'' [h, JNum (Fin 30), JBool False], Inr v)]"])
      (auto simp: confirmed_def intro!: exI[of _ "n2 @ pre @ ws"])
qed

lemma withdraw_loop_confirmed:
  "withdraw_loop k self e x orc w = (Inr h, w1) \<Longrightarrow> \<exists>new. wtrace w1 = wtrace w @ new \<and> confirmed h new"
proof (induction k arbitrary: w)
  case (Suc k)
  from Suc.prems consider "withdraw_attempt self e x orc w = (Inr h, w1)"
    | er w2 w3 where "withdraw_attempt self e x orc w = (Inl er, w2)" "sleep 5000 orc w2 = (Inr (), w3)"
        "withdraw_loop k self e x orc w3 = (Inr h, w1)"
    by (auto simp: try_catch_Inr bind_p_Inr split: if_splits)
  then show ?case
  proof cases
    case 1
    then show ?thesis by (rule withdraw_attempt_confirmed)
  next
    case 2
    obtain n1 where "wtrace w2 = wtrace w @ n1" using costsD[OF withdraw_attempt_submits 2(1)] by blast
    moreover obtain n2 where "wtrace w3 = wtrace w2 @ n2" using 2(2) by (auto simp: sleep_def do_call_Inr)
    moreover obtain n3 where "wtrace w1 = wtrace w3 @ n3" "confirmed h n3" using Suc.IH[OF 2(3)] by blast
    ultimately show ?thesis using confirmed_append[of h n3 "n1 @ n2"] by auto
  qed
qed simp

subsection \<open>Properties\<close>

text \<open>
  C33. Withdrawing on Aptos always returns or throws, after at most three submitted transactions and
  thirty polls for a confirmation.
\<close>

theorem withdrawEscrow_bounded:
  "costs is_submit 3 (withdrawEscrow self escrowId secret :: ('s, jsval) prog) \<and>
   costs is_wait 30 (withdrawEscrow self escrowId secret :: ('s, jsval) prog)"
proof -
  have "costs is_submit 3 (withdraw_loop maxAttempts self escrowId secret)"
    "costs is_wait 30 (withdraw_loop maxAttempts self escrowId secret)"
    using withdraw_loop_submits[of 3] withdraw_loop_waits[of 3] by (simp_all add: maxAttempts_def)
  then show ?thesis
    unfolding withdrawEscrow_def view_exists_def
    by (intro conjI cost_rules) simp_all
qed

text \<open>
  C34. A withdrawal that reports a transaction hash was confirmed: the escrow was found on the chain
  first, a transaction was submitted and is pending under that hash, and the last call found it
  executed successfully. An escrow that is not there is refused without submitting anything.
\<close>

theorem withdrawEscrow_confirmed:
  assumes "withdrawEscrow self escrowId secret orc w = (r, w1)"
  shows "(\<forall>h. r = Inr h \<longrightarrow> (\<exists>v new. wtrace w1 = wtrace w @
      (Ext ''aptos.view'' [fn_name self ''escrow_v3::escrow_exists'', escrowId], Inr v) # new \<and>
      \<not> absent v \<and> confirmed h new)) \<and>
    (\<forall>v. orc (wtrace w) (Ext ''aptos.view'' [fn_name self ''escrow_v3::escrow_exists'', escrowId]) = Inr v \<and> absent v
      \<longrightarrow> (\<exists>e. r = Inl e) \<and> filter is_submit (map fst (new_calls w w1)) = [])"
proof (intro conjI allI impI)
  fix h assume "r = Inr h"
  with assms obtain v w2 where "view_exists self escrowId orc w = (Inr v, w2)" "\<not> absent v"
    and l: "withdraw_loop maxAttempts self escrowId secret orc w2 = (Inr h, w1)"
    by (auto simp: withdrawEscrow_def bind_p_Inr split: if_splits)
  moreover obtain new where "wtrace w1 = wtrace w2 @ new" "confirmed h new"
    using withdraw_loop_confirmed[OF l] by blast
  ultimately show "\<exists>v new. wtrace w1 = wtrace w @
      (Ext ''aptos.view'' [fn_name self ''escrow_v3::escrow_exists'', escrowId], Inr v) # new \<and>
      \<not> absent v \<and> confirmed h new"
    by (auto simp: view_exists_def call_Inr)
next
  fix v assume a: "orc (wtrace w) (Ext ''aptos.view'' [fn_name self ''escrow_v3::escrow_exists'', escrowId]) = Inr v \<and> absent v"
  then have "withdrawEscrow self escrowId secret orc w =
      bind_p (call ''ethers.hexlify'' [escrowId]) (\<lambda>hex.
        raise (Error (''Escrow '' @ to_string hex @ '' does not exist on Aptos chain''))) orc
      (w\<lparr>wtrace := wtrace w @ [(Ext ''aptos.view'' [fn_name self ''escrow_v3::escrow_exists'', escrowId], Inr v)]\<rparr>)"
    by (simp add: withdrawEscrow_def view_exists_def bind_p_def[of "call ''aptos.view'' _"] call_def Let_def)
  then show "\<exists>e. r = Inl e" "filter is_submit (map fst (new_calls w w1)) = []"
    using assms by (auto simp: bind_p_def call_def Let_def raise_def new_calls_def split: sum.splits)
qed

text \<open>A chain on which the withdrawal goes through at once.\<close>

definition demo_chain :: outside where
  "demo_chain t c =
     (if ext_name c = ''aptos.view'' then Inr (JArr [JBool True])
      else if ext_name c = ''aptos.account.getAccountInfo'' then Inr (JObj [(''sequence_number'', JStr ''7'')])
      else if ext_name c = ''aptos.transaction.submit.simple'' then Inr (JObj [(''hash'', JStr ''0xabc'')])
      else if ext_name c = ''aptos.waitForTransaction'' then Inr (JObj [(''success'', JBool True)])
      else Inr JUndef)"

theorem withdrawEscrow_confirmed_witness:
  "\<exists>w1 v new. withdrawEscrow \<lparr>accountAddress = JStr ''0x1'', escrowAddress = ''0x2''\<rparr> (JStr ''0xe'') (JStr ''0xs'')
      demo_chain \<lparr>wstate = (), wtrace = []\<rparr> = (Inr (JStr ''0xabc''), w1) \<and>
    wtrace w1 = (Ext ''aptos.view'' [JStr ''0x2::escrow_v3::escrow_exists'', JStr ''0xe''], Inr v) # new \<and>
    confirmed (JStr ''0xabc'') new"
proof -
  let ?r = "withdrawEscrow \<lparr>accountAddress = JStr ''0x1'', escrowAddress = ''0x2''\<rparr> (JStr ''0xe'') (JStr ''0xs'')
      demo_chain \<lparr>wstate = (), wtrace = []\<rparr>"
  have "fst ?r = Inr (JStr ''0xabc'')" by code_simp
  then obtain w1 where r: "?r = (Inr (JStr ''0xabc''), w1)" by (cases ?r) auto
  from withdrawEscrow_confirmed[OF this] show ?thesis by (auto simp: r fn_name_def)
qed

end
