(* ===== verification/ChainService.thy ===== *)
theory ChainService
  imports AptosChain OrderTypes
begin

section \<open>The chain service of the resolver\<close>

text \<open>
  The class \<^verbatim>\<open>ChainServiceSimple\<close> (\<^verbatim>\<open>backend/resolver/src/services/ChainServiceSimple.ts\<close>) with the helpers
  \<^verbatim>\<open>WETHService\<close> and \<^verbatim>\<open>PermitService\<close> beside it. Calls of \<^verbatim>\<open>ethers\<close>, also those that only format a
  message, and of contracts are outside calls; a call of a contract carries its address first and
  the options of the transaction last. Amounts that \<^verbatim>\<open>ethers\<close> returns are bigints. A catch clause
  that only prints and throws again is left out, as are the timers that only print.
\<close>

record chain_self =
  escrowAddr :: string
  gaslessEscrowAddr :: string
  layerZeroAdapter :: "string option"
  gaslessEnv :: "string option"
  signerAddr :: string
  aptos :: aptos_self

subsection \<open>Values\<close>

definition as_big :: "jsval \<Rightarrow> int res" where
  "as_big v = (case v of JBig n \<Rightarrow> Inr n
     | _ \<Rightarrow> Inl (TypeError ''Cannot mix BigInt and other types, use explicit conversions''))"

definition big_p :: "('s, jsval) prog \<Rightarrow> ('s, int) prog" where
  "big_p m = bind_p m (\<lambda>v. lift_res (as_big v))"

definition formatEther :: "jsval \<Rightarrow> ('s, unit) prog" where
  "formatEther v = do_call ''ethers.formatEther'' [v]"

definition getBigInt :: "string \<Rightarrow> ('s, int) prog" where
  "getBigInt s = big_p (call ''ethers.getBigInt'' [JStr s])"

definition parseEther :: "string \<Rightarrow> ('s, int) prog" where
  "parseEther s = big_p (call ''ethers.parseEther'' [JStr s])"

text \<open>A transaction to a contract, and the hash of its receipt.\<close>

definition send_tx :: "string \<Rightarrow> string \<Rightarrow> jsval list \<Rightarrow> (string \<times> jsval) list \<Rightarrow> ('s, jsval) prog" where
  "send_tx addr method args opts = call (''contract.'' @ method) (JStr addr # args @ [JObj opts])"

definition receipt_hash :: "jsval \<Rightarrow> ('s, jsval) prog" where
  "receipt_hash tx = bind_p (call ''tx.wait'' [tx]) (\<lambda>receipt. prop_p receipt ''hash'')"

fun seq_u :: "('s, unit) prog list \<Rightarrow> ('s, unit) prog" where
  "seq_u [] = ret ()"
| "seq_u (m # ms) = bind_p m (\<lambda>_. seq_u ms)"

definition when_p :: "bool \<Rightarrow> ('s, unit) prog \<Rightarrow> ('s, unit) prog" where
  "when_p b m = (if b then m else ret ())"

definition present :: "string option \<Rightarrow> bool" where
  "present s = (case s of None \<Rightarrow> False | Some t \<Rightarrow> t \<noteq> '''')"

subsection \<open>Partial fills on Ethereum\<close>

definition cs_createPartialFillOrder ::
  "chain_self \<Rightarrow> jsval \<Rightarrow> string \<Rightarrow> string \<Rightarrow> string \<Rightarrow> string \<Rightarrow> jsval \<Rightarrow> jsnum \<Rightarrow> jsnum \<Rightarrow> jsnum \<Rightarrow> jsval \<Rightarrow> ('s, jsval) prog" where
  "cs_createPartialFillOrder self baseOrderId depositor beneficiary token totalAmount treeRoot numFills timelock deadlin sig =
     bind_p (formatEther (JStr totalAmount)) (\<lambda>_.
     bind_p (call ''contract.getNonce'' [JStr (gaslessEscrowAddr self), JStr depositor]) (\<lambda>nonce.
     bind_p (prop_p nonce ''toString'') (\<lambda>_.
     bind_p (prop_p sig ''v'') (\<lambda>v. bind_p (prop_p sig ''r'') (\<lambda>r. bind_p (prop_p sig ''s'') (\<lambda>s.
     bind_p (send_tx (gaslessEscrowAddr self) ''createPartialFillOrderWithSignature''
       [JObj [(''baseOrderId'', baseOrderId), (''depositor'', JStr depositor), (''beneficiary'', JStr beneficiary),
              (''token'', JStr token), (''totalAmount'', JStr totalAmount), (''merkleRoot'', treeRoot),
              (''numFills'', JNum numFills), (''timelock'', JNum timelock), (''nonce'', JStr (to_string nonce)),
              (''deadline'', JNum deadlin)], v, r, s] []) (\<lambda>tx.
     bind_p (prop_p tx ''hash'') (\<lambda>hash.
     bind_p (do_call ''tx.wait'' [tx]) (\<lambda>_. ret hash)))))))))"

definition cs_createPartialFillEscrow ::
  "chain_self \<Rightarrow> jsval \<Rightarrow> jsnum \<Rightarrow> string \<Rightarrow> jsval \<Rightarrow> jsval list \<Rightarrow> string \<Rightarrow> ('s, jsval) prog" where
  "cs_createPartialFillEscrow self baseOrderId fillIndex amount hashlock proofs safetyDeposit =
     bind_p (formatEther (JStr amount)) (\<lambda>_.
     bind_p (formatEther (JStr safetyDeposit)) (\<lambda>_.
     bind_p (send_tx (gaslessEscrowAddr self) ''createPartialFillEscrow''
       [baseOrderId, JNum fillIndex, JStr amount, hashlock, JArr proofs] [(''value'', JStr safetyDeposit)]) (\<lambda>tx.
     bind_p (prop_p tx ''hash'') (\<lambda>hash.
     bind_p (do_call ''tx.wait'' [tx]) (\<lambda>_. ret hash)))))"

subsection \<open>Escrows on Ethereum\<close>

text \<open>\<^verbatim>\<open>amount + safetyDeposit\<close> of an escrow of ether.\<close>

definition ether_value :: "string \<Rightarrow> string \<Rightarrow> ('s, jsval) prog" where
  "ether_value amount safetyDeposit =
     bind_p (getBigInt amount) (\<lambda>a. bind_p (getBigInt safetyDeposit) (\<lambda>d. ret (JBig (a + d))))"

text \<open>The gas price with a fifth added, \<^verbatim>\<open>undefined\<close> when the provider has none.\<close>

definition buffered_gas_price :: "('s, jsval) prog" where
  "buffered_gas_price =
     bind_p (call ''provider.getFeeData'' []) (\<lambda>feeData.
     bind_p (prop_p feeData ''gasPrice'') (\<lambda>g.
     if truthy g then bind_p (lift_res (as_big g)) (\<lambda>n. bind_p (lift_res (big_div (n * 120) 100)) (\<lambda>p. ret (JBig p)))
     else ret JUndef))"

text \<open>The checks before an escrow of tokens, and its transaction.\<close>

definition create_token_escrow ::
  "chain_self \<Rightarrow> jsval \<Rightarrow> string \<Rightarrow> string \<Rightarrow> string \<Rightarrow> jsval \<Rightarrow> jsnum \<Rightarrow> string \<Rightarrow> ('s, jsval) prog" where
  "create_token_escrow self escrowId beneficiary token amount hashlock timelock safetyDeposit =
     bind_p buffered_gas_price (\<lambda>gasPrice.
     bind_p (when_p (truthy gasPrice) (do_call ''ethers.formatUnits'' [gasPrice, JStr ''gwei''])) (\<lambda>_.
     bind_p (big_p (call ''provider.getBalance'' [JStr (signerAddr self)])) (\<lambda>resolverBalance.
     bind_p (formatEther (JBig resolverBalance)) (\<lambda>_.
     bind_p (parseEther ''0.002'') (\<lambda>estimatedGas.
     bind_p (getBigInt safetyDeposit) (\<lambda>deposit.
     if resolverBalance < deposit + estimatedGas then
       bind_p (formatEther (JBig (deposit + estimatedGas))) (\<lambda>_.
       bind_p (formatEther (JBig resolverBalance)) (\<lambda>_. raise (Error ''Insufficient ETH balance'')))
     else
       bind_p (big_p (call ''contract.balanceOf'' [JStr token, JStr (signerAddr self)])) (\<lambda>tokenBalance.
       bind_p (formatEther (JBig tokenBalance)) (\<lambda>_.
       bind_p (getBigInt amount) (\<lambda>needed.
       bind_p (formatEther (JStr amount)) (\<lambda>_.
       if tokenBalance < needed then
         bind_p (formatEther (JBig tokenBalance)) (\<lambda>_. raise (Error ''Insufficient token balance''))
       else
         bind_p (do_call ''Date.toISOString'' [JNum (js_mul timelock (Fin 1000))]) (\<lambda>_.
         bind_p (formatEther (JStr safetyDeposit)) (\<lambda>_.
         bind_p (send_tx (escrowAddr self) ''createEscrow''
           [escrowId, JStr beneficiary, JStr token, JStr amount, hashlock, JNum timelock]
           [(''value'', JStr safetyDeposit), (''gasPrice'', gasPrice)]) (\<lambda>tx.
         bind_p (prop_p tx ''hash'') (\<lambda>_. ret tx))))))))))))))"

definition createEthereumEscrow ::
  "chain_self \<Rightarrow> jsval \<Rightarrow> string \<Rightarrow> string \<Rightarrow> string \<Rightarrow> jsval \<Rightarrow> jsnum \<Rightarrow> string \<Rightarrow> string option \<Rightarrow> ('s, jsval) prog" where
  "createEthereumEscrow self escrowId beneficiary token amount hashlock timelock safetyDeposit depositor =
     bind_p (formatEther (JStr amount)) (\<lambda>_.
     bind_p (call ''signer.getAddress'' []) (\<lambda>signerAddress.
     bind_p (call ''provider.getBalance'' [signerAddress]) (\<lambda>signerBalance.
     bind_p (formatEther signerBalance) (\<lambda>_.
     bind_p (formatEther (JStr safetyDeposit)) (\<lambda>_.
     bind_p (when_p (token = ZeroAddress) (formatEther (JStr amount))) (\<lambda>_.
     bind_p (case depositor of
         Some dep \<Rightarrow> if dep \<noteq> '''' then
             bind_p (if token = ZeroAddress then ether_value amount safetyDeposit else ret (JStr safetyDeposit)) (\<lambda>value.
             send_tx (escrowAddr self) ''createEscrowFor''
               [escrowId, JStr dep, JStr beneficiary, JStr token, JStr amount, hashlock, JNum timelock] [(''value'', value)])
           else if token = ZeroAddress then
             bind_p (ether_value amount safetyDeposit) (\<lambda>value.
             send_tx (escrowAddr self) ''createEscrow''
               [escrowId, JStr beneficiary, JStr token, JStr amount, hashlock, JNum timelock] [(''value'', value)])
           else create_token_escrow self escrowId beneficiary token amount hashlock timelock safetyDeposit
       | None \<Rightarrow> if token = ZeroAddress then
             bind_p (ether_value amount safetyDeposit) (\<lambda>value.
             send_tx (escrowAddr self) ''createEscrow''
               [escrowId, JStr beneficiary, JStr token, JStr amount, hashlock, JNum timelock] [(''value'', value)])
           else create_token_escrow self escrowId beneficiary token amount hashlock timelock safetyDeposit) (\<lambda>tx.
     bind_p (call ''tx.wait'' [tx]) (\<lambda>receipt.
     bind_p (prop_p receipt ''gasUsed'') (\<lambda>gasUsed.
     bind_p (prop_p gasUsed ''toString'') (\<lambda>_.
     prop_p receipt ''hash''))))))))))"

definition withdrawEthereumEscrow :: "chain_self \<Rightarrow> jsval \<Rightarrow> jsval \<Rightarrow> ('s, jsval) prog" where
  "withdrawEthereumEscrow self escrowId secret =
     bind_p (send_tx (escrowAddr self) ''withdraw'' [escrowId, secret] []) receipt_hash"

definition withdrawGaslessEscrow :: "chain_self \<Rightarrow> jsval \<Rightarrow> jsval \<Rightarrow> ('s, jsval) prog" where
  "withdrawGaslessEscrow self escrowId secret =
     (case gaslessEnv self of
        Some addr \<Rightarrow>
          if addr = '''' then raise (Error ''Gasless escrow contract address not configured'')
          else bind_p (send_tx addr ''withdraw'' [escrowId, secret] []) receipt_hash
      | None \<Rightarrow> raise (Error ''Gasless escrow contract address not configured''))"

definition createEthereumEscrowFor ::
  "chain_self \<Rightarrow> jsval \<Rightarrow> string \<Rightarrow> string \<Rightarrow> string \<Rightarrow> string \<Rightarrow> jsval \<Rightarrow> jsnum \<Rightarrow> ('s, jsval) prog" where
  "createEthereumEscrowFor self escrowId depositor beneficiary token amount hashlock timelock =
     bind_p (parseEther ''0'') (\<lambda>safetyDeposit.
     bind_p (send_tx (escrowAddr self) ''createEscrowFor''
       [escrowId, JStr depositor, JStr beneficiary, JStr token, JStr amount, hashlock, JNum timelock]
       [(''value'', JBig safetyDeposit)]) receipt_hash)"

subsection \<open>Escrows on Aptos, balances, and the secret across chains\<close>

definition createAptosEscrow ::
  "chain_self \<Rightarrow> jsval \<Rightarrow> string \<Rightarrow> string \<Rightarrow> string \<Rightarrow> jsval \<Rightarrow> jsnum \<Rightarrow> string \<Rightarrow> ('s, jsval) prog" where
  "createAptosEscrow self escrowId depositor beneficiary amount hashlock timelock safetyDeposit =
     createEscrow (aptos self) escrowId depositor beneficiary amount hashlock timelock safetyDeposit"

definition createAptosEscrowDelegated ::
  "chain_self \<Rightarrow> jsval \<Rightarrow> string \<Rightarrow> string \<Rightarrow> string \<Rightarrow> jsval \<Rightarrow> jsnum \<Rightarrow> string \<Rightarrow> ('s, jsval) prog" where
  "createAptosEscrowDelegated self escrowId depositor beneficiary amount hashlock timelock safetyDeposit =
     createEscrowDelegated (aptos self) escrowId depositor beneficiary amount hashlock timelock safetyDeposit"

definition cs_checkAptosEscrowExists :: "chain_self \<Rightarrow> jsval \<Rightarrow> ('s, bool) prog" where
  "cs_checkAptosEscrowExists self escrowId = checkAptosEscrowExists (aptos self) escrowId"

definition withdrawAptosEscrow :: "chain_self \<Rightarrow> jsval \<Rightarrow> jsval \<Rightarrow> ('s, jsval) prog" where
  "withdrawAptosEscrow self escrowId secret = withdrawEscrow (aptos self) escrowId secret"

definition getEthereumBalance :: "string \<Rightarrow> string option \<Rightarrow> ('s, int) prog" where
  "getEthereumBalance addr token =
     (case token of
        Some t \<Rightarrow>
          if t = '''' \<or> t = ZeroAddress then big_p (call ''provider.getBalance'' [JStr addr])
          else big_p (call ''contract.balanceOf'' [JStr t, JStr addr])
      | None \<Rightarrow> big_p (call ''provider.getBalance'' [JStr addr]))"

definition getAptosBalance :: "string \<Rightarrow> ('s, jsnum) prog" where
  "getAptosBalance addr = bind_p (getBalance (JStr addr)) (\<lambda>balance. ret (js_parseInt balance))"

text \<open>
  The lookup \<^verbatim>\<open>endpointIds[destinationChainId.toString()]\<close> is by the names \<^verbatim>\<open>APTOS\<close> and \<^verbatim>\<open>ETHEREUM\<close>, which
  no number prints as, so the number itself is used.
\<close>

definition sendCrossChainSecretReveal :: "chain_self \<Rightarrow> jsnum \<Rightarrow> jsval \<Rightarrow> jsval \<Rightarrow> ('s, jsval) prog" where
  "sendCrossChainSecretReveal self destinationChainId escrowId secret =
     (if \<not> present (layerZeroAdapter self) then ret JNull
      else try_catch
        (bind_p (call ''ethers.hexlify'' [escrowId]) (\<lambda>e.
         bind_p (call ''ethers.hexlify'' [secret]) (\<lambda>x.
         bind_p (parseEther ''0.0001'') (\<lambda>fee.
         bind_p (send_tx (the (layerZeroAdapter self)) ''sendSecretReveal'' [JNum destinationChainId, e, x] [(''value'', JBig fee)]) (\<lambda>tx.
         bind_p (do_call ''tx.wait'' [tx]) (\<lambda>_. prop_p tx ''hash''))))))
        (\<lambda>error. ret JNull))"

definition submitMultiAgentTransaction :: "jsval \<Rightarrow> jsval \<Rightarrow> jsval \<Rightarrow> ('s, jsval) prog" where
  "submitMultiAgentTransaction rawTxn userSignature feePayerSignature =
     call ''aptos.transaction.submit.multiAgent'' [rawTxn, userSignature, JArr [], feePayerSignature]"

subsection \<open>Wrapped ether and permits\<close>

definition weth_executePermitTransfer :: "string \<Rightarrow> Permit \<Rightarrow> jsval \<Rightarrow> string \<Rightarrow> ('s, jsval) prog" where
  "weth_executePermitTransfer weth prm sigText to =
     bind_p (call ''ethers.Signature.from'' [sigText]) (\<lambda>sig.
     bind_p (prop_p sig ''v'') (\<lambda>v. bind_p (prop_p sig ''r'') (\<lambda>r. bind_p (prop_p sig ''s'') (\<lambda>s.
     bind_p (send_tx weth ''permit'' [JStr (permit_owner prm), JStr (permit_spender prm), JStr (permit_value prm),
       JNum (permit_deadline prm), v, r, s] []) (\<lambda>permitTx.
     bind_p (do_call ''tx.wait'' [permitTx]) (\<lambda>_.
     bind_p (prop_p permitTx ''hash'') (\<lambda>_.
     bind_p (send_tx weth ''transferFrom'' [JStr (permit_owner prm), JStr to, JStr (permit_value prm)] []) (\<lambda>transferTx.
     receipt_hash transferTx))))))))"

definition weth_getBalance :: "string \<Rightarrow> string \<Rightarrow> ('s, jsval) prog" where
  "weth_getBalance weth addr = call ''contract.balanceOf'' [JStr weth, JStr addr]"

definition getAllowance :: "string \<Rightarrow> string \<Rightarrow> string \<Rightarrow> ('s, jsval) prog" where
  "getAllowance weth owner spender = call ''contract.allowance'' [JStr weth, JStr owner, JStr spender]"

definition wrapETH :: "string \<Rightarrow> string \<Rightarrow> ('s, jsval) prog" where
  "wrapETH weth amount = bind_p (send_tx weth ''deposit'' [] [(''value'', JStr amount)]) receipt_hash"

definition unwrapWETH :: "string \<Rightarrow> string \<Rightarrow> ('s, jsval) prog" where
  "unwrapWETH weth amount = bind_p (send_tx weth ''withdraw'' [JStr amount] []) receipt_hash"

definition executePermitTransfer :: "string \<Rightarrow> Permit \<Rightarrow> jsval \<Rightarrow> string \<Rightarrow> string \<Rightarrow> ('s, jsval) prog" where
  "executePermitTransfer permitAddress prm sigText token to =
     bind_p (call ''ethers.Signature.from'' [sigText]) (\<lambda>sig.
     bind_p (prop_p sig ''v'') (\<lambda>v. bind_p (prop_p sig ''r'') (\<lambda>r. bind_p (prop_p sig ''s'') (\<lambda>s.
     bind_p (send_tx permitAddress ''transferWithPermit'' [JStr (permit_owner prm), JStr (permit_spender prm),
       JStr (permit_value prm), JNum (permit_deadline prm), v, r, s, JStr token, JStr to] []) (\<lambda>tx.
     bind_p (prop_p tx ''hash'') (\<lambda>_.
     bind_p (call ''tx.wait'' [tx]) (\<lambda>receipt.
     prop_p receipt ''transactionHash'')))))))"

definition ps_getNonce :: "string \<Rightarrow> string \<Rightarrow> ('s, jsval) prog" where
  "ps_getNonce permitAddress addr = call ''contract.getNonce'' [JStr permitAddress, JStr addr]"

definition verifyPermit :: "string \<Rightarrow> Permit \<Rightarrow> jsval \<Rightarrow> jsnum \<Rightarrow> ('s, bool) prog" where
  "verifyPermit permitAddress prm sigText chainId =
     try_catch
       (bind_p (call ''contract.getAddress'' [JStr permitAddress]) (\<lambda>verifyingContract.
        bind_p (call ''ethers.verifyTypedData''
          [JObj [(''name'', JStr ''Fusion+ Cross-Chain Swap''), (''version'', JStr ''1''), (''chainId'', JNum chainId),
                 (''verifyingContract'', verifyingContract)],
           JObj [(''Permit'', JArr (map (\<lambda>(n, t). JObj [(''name'', JStr n), (''type'', JStr t)])
             [(''owner'', ''address''), (''spender'', ''address''), (''value'', ''uint256''), (''nonce'', ''uint256''),
              (''deadline'', ''uint256'')]))],
           JObj [(''owner'', JStr (permit_owner prm)), (''spender'', JStr (permit_spender prm)),
                 (''value'', JStr (permit_value prm)), (''nonce'', JStr (permit_nonce prm)),
                 (''deadline'', JNum (permit_deadline prm))], sigText]) (\<lambda>recovered.
        case recovered of
          JStr a \<Rightarrow> ret (toLowerCase a = toLowerCase (permit_owner prm))
        | _ \<Rightarrow> raise (TypeError ''recoveredAddress.toLowerCase is not a function''))))
       (\<lambda>error. ret False)"

end
