(* ===== verification/SwapFlow.thy ===== *)
theory SwapFlow
  imports ChainService ResolverPolicy
begin

section \<open>Completing a swap\<close>

text \<open>
  The part of \<^verbatim>\<open>ResolverServiceV2\<close> (\<^verbatim>\<open>backend/resolver/src/services/ResolverServiceV2.ts\<close>) that ends a swap:
  the answer to a revealed secret, \<^verbatim>\<open>completeSwap\<close>, the polling of the escrow contract and
  \<^verbatim>\<open>handleSourceEscrowCreated\<close>. A handler runs to its end before the next event. Fills are untyped
  objects, as the engine returned them; the maps are keyed by untyped values, since the keys of a
  lookup come from messages. \<^verbatim>\<open>socket.emit\<close> does not throw. \<open>self\<close> holds what the constructor and the
  environment set.
\<close>

record resolver_self =
  chain :: chain_self
  orderEngineUrl :: string
  engineEnv :: "string option"
  ethereumAddress :: string
  aptosAddress :: string
  wethAddress :: string
  escrowEnv :: "string option"
  permitContract :: string
  portEnv :: "string option"
  me :: identity
  lastSubmitted :: "js_error \<Rightarrow> jsval"

text \<open>The properties of an order the flows read; the copy made for a signed order may lack all but two.\<close>

record swap_order =
  so_id :: jsval
  so_fromChain :: jsval
  so_toChain :: jsval
  so_fromAmount :: jsval
  so_minToAmount :: jsval
  so_gasless :: jsval
  so_gaslessData :: jsval
  so_partialFillAllowed :: jsval
  so_partialFillEnabled :: jsval
  so_secretHash :: jsval

record pending_swap =
  pd_order :: swap_order
  pd_fill :: jsval
  sourceEscrowId :: jsval
  destinationEscrowId :: jsval

datatype timer = RefillTimer Order | ReevaluateTimer Order

record resolver_state =
  isProcessing :: "string jsset"
  activeOrders :: "(jsval, Order) jsmap"
  monitoringFills :: "(jsval, jsval) jsmap"
  fillSecrets :: "(jsval, jsval) jsmap"
  processedEvents :: "string jsset"
  pendingSecretReveals :: "(jsval, pending_swap) jsmap"
  lastBalances :: balances
  prices :: price_service
  timers :: "timer list"

type_synonym 'a flow = "(resolver_state, 'a) prog"

subsection \<open>Values\<close>

definition chain_val :: "Chain \<Rightarrow> jsval" where
  "chain_val c = JStr (case c of ETHEREUM \<Rightarrow> ''ETHEREUM'' | APTOS \<Rightarrow> ''APTOS'')"

definition opt_val :: "('a \<Rightarrow> jsval) \<Rightarrow> 'a option \<Rightarrow> jsval" where
  "opt_val f v = (case v of None \<Rightarrow> JUndef | Some x \<Rightarrow> f x)"

definition gasless_val :: "GaslessData \<Rightarrow> jsval" where
  "gasless_val g = JObj
     [(''escrowId'', JStr (gd_escrowId g)), (''depositor'', JStr (gd_depositor g)),
      (''beneficiary'', JStr (gd_beneficiary g)), (''token'', JStr (gd_token g)), (''amount'', JStr (gd_amount g)),
      (''hashlock'', JStr (gd_hashlock g)), (''timelock'', JStr (gd_timelock g)), (''deadline'', JStr (gd_deadline g)),
      (''metaTxV'', JNum (gd_metaTxV g)), (''metaTxR'', JStr (gd_metaTxR g)), (''metaTxS'', JStr (gd_metaTxS g)),
      (''baseOrderId'', opt_val JStr (gd_baseOrderId g))]"

definition view_of :: "Order \<Rightarrow> swap_order" where
  "view_of order = \<lparr>so_id = JStr (order_id order), so_fromChain = chain_val (fromChain order),
     so_toChain = chain_val (toChain order), so_fromAmount = JStr (fromAmount order),
     so_minToAmount = JStr (minToAmount order), so_gasless = opt_val JBool (gasless order),
     so_gaslessData = opt_val gasless_val (gaslessData order),
     so_partialFillAllowed = JBool (partialFillAllowed order),
     so_partialFillEnabled = JBool (partialFillEnabled order), so_secretHash = opt_val JStr (secretHash order)\<rparr>"

text \<open>\<^verbatim>\<open>a === b\<close>; two objects that arrive in different messages are never identical.\<close>

fun is_object :: "jsval \<Rightarrow> bool" where
  "is_object (JArr _) = True"
| "is_object (JObj _) = True"
| "is_object _ = False"

definition strict_eq :: "jsval \<Rightarrow> jsval \<Rightarrow> bool" where
  "strict_eq a b \<longleftrightarrow> a = b \<and> \<not> is_object a \<and> a \<noteq> JNum NaN"

text \<open>\<^verbatim>\<open>x.toFixed(d)\<close>: the nearest multiple of the last place, the greater one when two are as near.\<close>

fun pad_zeros :: "nat \<Rightarrow> string \<Rightarrow> string" where
  "pad_zeros n s = replicate (n - length s) (CHR ''0'') @ s"

definition fixed_pos :: "nat \<Rightarrow> rat \<Rightarrow> string" where
  "fixed_pos d x =
     (let n = nat \<lfloor>x * 10 ^ d + 1 / 2\<rfloor>
      in if d = 0 then show_nat n
         else show_nat (n div 10 ^ d) @ ''.'' @ pad_zeros d (show_nat (n mod 10 ^ d)))"

fun to_fixed :: "nat \<Rightarrow> jsnum \<Rightarrow> string" where
  "to_fixed d (Fin x) =
     (if \<bar>x\<bar> \<ge> 10 ^ 21 then show_num (Fin x)
      else if x < 0 then ''-'' @ fixed_pos d (- x) else fixed_pos d x)"
| "to_fixed d x = show_num x"

definition fixed_of :: "nat \<Rightarrow> jsval \<Rightarrow> string res" where
  "fixed_of d v = (case v of JNum x \<Rightarrow> Inr (to_fixed d x) | _ \<Rightarrow> Inl (TypeError ''toFixed is not a function''))"

text \<open>The bytes of \<^verbatim>\<open>new Uint8Array(v)\<close>; the elements of the arrays are numbers.\<close>

fun to_byte :: "jsval \<Rightarrow> jsval" where
  "to_byte (JNum (Fin x)) = JNum (Fin (of_int (trunc_rat x mod 256)))"
| "to_byte v = JNum (Fin 0)"

fun uint8array :: "jsval \<Rightarrow> jsval" where
  "uint8array (JArr xs) = JArr (map to_byte xs)"
| "uint8array (JNum (Fin x)) = JArr (replicate (nat (trunc_rat x)) (JNum (Fin 0)))"
| "uint8array v = JArr []"

subsection \<open>The order engine, the socket and the balances\<close>

definition emit :: "string \<Rightarrow> (string \<times> jsval) list \<Rightarrow> ('s, unit) prog" where
  "emit ev payload = try_catch (do_call ''socket.emit'' [JStr ev, JObj payload]) (\<lambda>_. ret ())"

definition updateFillStatus :: "resolver_self \<Rightarrow> jsval \<Rightarrow> jsval \<Rightarrow> string \<Rightarrow> (string \<times> jsval) list \<Rightarrow> ('s, unit) prog" where
  "updateFillStatus self orderId fillId status additionalData =
     do_call ''axios.patch''
       [JStr (orderEngineUrl self @ ''/api/orders/'' @ to_string orderId @ ''/fills/'' @ to_string fillId),
        JObj ((''status'', JStr status) # additionalData)]"

text \<open>The update of a fill object.\<close>

definition set_status :: "resolver_self \<Rightarrow> jsval \<Rightarrow> string \<Rightarrow> (string \<times> jsval) list \<Rightarrow> ('s, unit) prog" where
  "set_status self fill status additionalData =
     bind_p (prop_p fill ''orderId'') (\<lambda>orderId. bind_p (prop_p fill ''id'') (\<lambda>fillId.
     updateFillStatus self orderId fillId status additionalData))"

definition createFill :: "resolver_self \<Rightarrow> string \<Rightarrow> (string \<times> jsval) list \<Rightarrow> ('s, jsval) prog" where
  "createFill self orderId fillData =
     bind_p (call ''axios.post'' [JStr (orderEngineUrl self @ ''/api/orders/'' @ orderId @ ''/fills''), JObj fillData]) (\<lambda>response.
     bind_p (prop_p response ''data'') (\<lambda>d. prop_p d ''data''))"

text \<open>
  Of the lines \<^verbatim>\<open>trackBalanceChange\<close> prints, only the formatting of the two balances is kept: it is the
  first that can throw.
\<close>

definition track_balances :: "resolver_self \<Rightarrow> unit flow" where
  "track_balances self =
     bind_p (big_p (call ''provider.getBalance'' [JStr (ethereumAddress self)])) (\<lambda>ethBalance.
     bind_p (big_p (call ''contract.balanceOf'' [JStr (wethAddress self), JStr (ethereumAddress self)])) (\<lambda>wethBalance.
     bind_p (formatEther (JBig ethBalance)) (\<lambda>_. bind_p (formatEther (JBig wethBalance)) (\<lambda>_.
     upd_st (\<lambda>s. s\<lparr>lastBalances := snd (trackBalanceChange ethBalance wethBalance (lastBalances s))\<rparr>)))))"

text \<open>The first entry of a map that satisfies a condition.\<close>

definition find_entry :: "('k \<Rightarrow> 'v \<Rightarrow> bool) \<Rightarrow> ('k, 'v) jsmap \<Rightarrow> ('k \<times> 'v) option" where
  "find_entry P m = find (\<lambda>(k, v). P k v) m"

subsection \<open>Withdrawing from both escrows\<close>

text \<open>The source escrow on Aptos is named by an array of bytes, by a hexadecimal string, or by an object with its
  bytes; the message of the error leaves out the value.\<close>

fun type_of :: "jsval \<Rightarrow> string" where
  "type_of JUndef = ''undefined''"
| "type_of (JBool _) = ''boolean''"
| "type_of (JNum _) = ''number''"
| "type_of (JBig _) = ''bigint''"
| "type_of (JStr _) = ''string''"
| "type_of _ = ''object''"

definition escrow_id_bytes :: "jsval \<Rightarrow> ('s, jsval) prog" where
  "escrow_id_bytes escrowId =
     (case escrowId of
        JArr _ \<Rightarrow> ret (uint8array escrowId)
      | JStr s \<Rightarrow>
          if startsWith s ''0x'' then call ''ethers.getBytes'' [escrowId]
          else raise (Error ''Invalid escrow ID format: string'')
      | JObj ps \<Rightarrow>
          if ''data'' \<in> set (map fst ps) then ret (uint8array (obj_get ps ''data''))
          else raise (Error ''Invalid escrow ID format: object'')
      | v \<Rightarrow> raise (Error (''Invalid escrow ID format: '' @ type_of v)))"

definition withdraw_source :: "resolver_self \<Rightarrow> swap_order \<Rightarrow> jsval \<Rightarrow> jsval \<Rightarrow> ('s, jsval) prog" where
  "withdraw_source self order secret src =
     (if so_fromChain order = JStr ''APTOS'' then
        bind_p (escrow_id_bytes src) (\<lambda>escrowIdBytes.
        bind_p (do_call ''ethers.hexlify'' [secret]) (\<lambda>_.
        bind_p (cs_checkAptosEscrowExists (chain self) escrowIdBytes) (\<lambda>escrowExists.
        if \<not> escrowExists then
          bind_p (do_call ''ethers.hexlify'' [escrowIdBytes]) (\<lambda>_.
          bind_p (call ''ethers.hexlify'' [escrowIdBytes]) (\<lambda>hex.
          raise (Error (''APT escrow '' @ to_string hex @
            '' does not exist on Aptos chain. User's escrow creation may have failed.''))))
        else withdrawAptosEscrow (chain self) escrowIdBytes secret)))
      else if truthy (so_gasless order) \<and> truthy (so_gaslessData order) then
        bind_p (call ''ethers.hexlify'' [secret]) (\<lambda>hex. withdrawGaslessEscrow (chain self) src hex)
      else
        bind_p (call ''ethers.hexlify'' [secret]) (\<lambda>hex. withdrawEthereumEscrow (chain self) src hex))"

text \<open>A failed withdrawal for the user is reported to the user when the resolver is out of gas, and is otherwise dropped.\<close>

definition manual_withdrawal :: "string \<Rightarrow> string \<Rightarrow> jsval \<Rightarrow> jsval \<Rightarrow> jsval \<Rightarrow> jsval \<Rightarrow> js_error \<Rightarrow> ('s, unit) prog" where
  "manual_withdrawal pattern reason orderId fill secret dest error =
     when_p (str_includes (message error) pattern)
       (bind_p (do_call ''ethers.hexlify'' [secret]) (\<lambda>_.
        bind_p (call ''ethers.hexlify'' [secret]) (\<lambda>hex.
        bind_p (prop_p fill ''amount'') (\<lambda>amount.
        emit ''swap:manual_withdrawal_required''
          [(''orderId'', orderId), (''reason'', JStr reason), (''secret'', hex), (''escrowId'', dest), (''amount'', amount)]))))"

definition withdraw_dest_aptos :: "resolver_self \<Rightarrow> jsval \<Rightarrow> jsval \<Rightarrow> jsval \<Rightarrow> jsval \<Rightarrow> jsval \<Rightarrow> ('s, unit) prog" where
  "withdraw_dest_aptos self orderId fill secret src dest =
     try_catch
       (bind_p (call ''ethers.getBytes'' [dest]) (\<lambda>destEscrowIdBytes.
        bind_p (withdrawAptosEscrow (chain self) destEscrowIdBytes secret) (\<lambda>aptosTxHash.
        bind_p (sendCrossChainSecretReveal (chain self) (Fin 10108) src secret) (\<lambda>_. ret ()))))
       (manual_withdrawal ''INSUFFICIENT_BALANCE_FOR_TRANSACTION_FEE'' ''Resolver out of APT gas'' orderId fill secret dest)"

definition withdraw_dest :: "resolver_self \<Rightarrow> swap_order \<Rightarrow> jsval \<Rightarrow> jsval \<Rightarrow> jsval \<Rightarrow> jsval \<Rightarrow> unit flow" where
  "withdraw_dest self order fill secret src dest =
     (if so_toChain order = JStr ''APTOS'' then withdraw_dest_aptos self (so_id order) fill secret src dest
      else if so_toChain order = JStr ''ETHEREUM'' then
        try_catch
          (bind_p (call ''ethers.hexlify'' [secret]) (\<lambda>hex.
           bind_p (if truthy (so_gasless order) then withdrawGaslessEscrow (chain self) dest hex
                   else withdrawEthereumEscrow (chain self) dest hex) (\<lambda>ethTxHash.
           track_balances self)))
          (manual_withdrawal ''insufficient funds for gas'' ''Resolver out of ETH gas'' (so_id order) fill secret dest)
      else ret ())"

subsection \<open>The end of a swap\<close>

text \<open>\<^verbatim>\<open>this.activeOrders.get(order.id)?.filledPercentage || 0\<close>.\<close>

definition latest_fill :: "resolver_state \<Rightarrow> jsval \<Rightarrow> jsnum" where
  "latest_fill s orderId =
     (case map_get (activeOrders s) orderId of None \<Rightarrow> Fin 0 | Some order \<Rightarrow> js_or0 (filledPercentage order))"

definition is_partial :: "swap_order \<Rightarrow> bool" where
  "is_partial order \<longleftrightarrow> truthy (so_partialFillEnabled order) \<or> truthy (so_partialFillAllowed order)"

definition announce_completion :: "swap_order \<Rightarrow> jsval \<Rightarrow> unit flow" where
  "announce_completion order fill =
     bind_p get_st (\<lambda>s.
     bind_p (prop_p fill ''secretHash'') (\<lambda>hash.
     let total = latest_fill s (so_id order);
         completed = (\<lambda>toAmount msg. emit ''swap:completed''
           [(''orderId'', so_id order), (''fromChain'', so_fromChain order), (''toChain'', so_toChain order),
            (''fromAmount'', so_fromAmount order), (''toAmount'', toAmount), (''secretHash'', hash), (''message'', JStr msg)])
     in if is_partial order then
          if js_le (Fin 100) total then completed (so_minToAmount order) ''All partial fills completed successfully!''
          else
            bind_p (prop_p fill ''id'') (\<lambda>fillId.
            bind_p (prop_p fill ''fillPercentage'') (\<lambda>p.
            bind_p (lift_res (fixed_of 1 (js_or p (JNum (Fin 0))))) (\<lambda>text.
            emit ''fill:completed''
              [(''orderId'', so_id order), (''fillId'', fillId), (''fillPercentage'', js_or p (JNum (Fin 0))),
               (''cumulativePercentage'', JNum total), (''message'', JStr (''Fill '' @ text @ ''% completed''))])))
        else bind_p (prop_p fill ''amount'') (\<lambda>amount. completed amount ''Swap completed successfully!'')))"

definition clean_up :: "swap_order \<Rightarrow> jsval \<Rightarrow> jsval \<Rightarrow> unit flow" where
  "clean_up order fill dest =
     bind_p (upd_st (\<lambda>s.
       if \<not> is_partial order \<or> js_le (Fin 100) (latest_fill s (so_id order))
       then s\<lparr>monitoringFills := map_remove (monitoringFills s) dest\<rparr> else s)) (\<lambda>_.
     bind_p (prop_p fill ''id'') (\<lambda>fillId.
     upd_st (\<lambda>s. s\<lparr>fillSecrets := map_remove (fillSecrets s) fillId\<rparr>)))"

definition is_settled :: "jsval \<Rightarrow> bool" where
  "is_settled status \<longleftrightarrow> status = JStr ''COMPLETED'' \<or> status = JStr ''SOURCE_WITHDRAWN''"

text \<open>What follows a withdrawal from the source escrow.\<close>

definition after_source :: "resolver_self \<Rightarrow> jsval \<Rightarrow> jsval \<Rightarrow> jsval \<Rightarrow> jsval \<Rightarrow> unit flow" where
  "after_source self fill secret src withdrawTx =
     bind_p (track_balances self) (\<lambda>_.
     bind_p (set_status self fill ''SOURCE_WITHDRAWN'' []) (\<lambda>_.
     bind_p (prop_p fill ''orderId'') (\<lambda>orderId.
     bind_p (call ''ethers.hexlify'' [secret]) (\<lambda>hex.
     emit ''escrow:source:withdrawn''
       [(''orderId'', orderId), (''escrowId'', src), (''secret'', hex), (''txHash'', withdrawTx)]))))"

definition swap_rest :: "resolver_self \<Rightarrow> swap_order \<Rightarrow> jsval \<Rightarrow> jsval \<Rightarrow> jsval \<Rightarrow> jsval \<Rightarrow> jsval \<Rightarrow> unit flow" where
  "swap_rest self order fill secret src dest withdrawTx =
     bind_p (after_source self fill secret src withdrawTx) (\<lambda>_.
     bind_p (withdraw_dest self order fill secret src dest) (\<lambda>_.
     bind_p (set_status self fill ''COMPLETED'' []) (\<lambda>_.
     bind_p (announce_completion order fill) (\<lambda>_.
     clean_up order fill dest))))"

definition swap_failed :: "resolver_self \<Rightarrow> jsval \<Rightarrow> js_error \<Rightarrow> unit flow" where
  "swap_failed self fill error = bind_p (set_status self fill ''FAILED'' []) (\<lambda>_. raise error)"

definition completeSwap :: "resolver_self \<Rightarrow> swap_order \<Rightarrow> jsval \<Rightarrow> jsval \<Rightarrow> jsval \<Rightarrow> jsval \<Rightarrow> unit flow" where
  "completeSwap self order fill secret src dest =
     bind_p (do_call ''ethers.hexlify'' [secret]) (\<lambda>_.
     try_catch
       (bind_p (prop_p fill ''status'') (\<lambda>status.
        if is_settled status then ret ()
        else
          bind_p (set_status self fill ''SOURCE_CREATED'' [(''sourceEscrowId'', src)]) (\<lambda>_.
          bind_p (withdraw_source self order secret src) (swap_rest self order fill secret src dest))))
       (swap_failed self fill))"

subsection \<open>A revealed secret\<close>

text \<open>\<^verbatim>\<open>secrets[index]\<close> for an untyped index.\<close>

definition array_at :: "string list \<Rightarrow> jsval \<Rightarrow> jsval" where
  "array_at xs index =
     (case find (\<lambda>i. show_nat i = to_string index) [0..<length xs] of
        None \<Rightarrow> JUndef | Some i \<Rightarrow> JStr (xs ! i))"

definition forget_pending :: "jsval \<Rightarrow> unit flow" where
  "forget_pending orderId = upd_st (\<lambda>s. s\<lparr>pendingSecretReveals := map_remove (pendingSecretReveals s) orderId\<rparr>)"

definition reveal_partial :: "resolver_self \<Rightarrow> jsval \<Rightarrow> jsval \<Rightarrow> jsval \<Rightarrow> jsval \<Rightarrow> unit flow" where
  "reveal_partial self data orderId secretText secretIdx =
     bind_p get_st (\<lambda>s.
     case map_get (activeOrders s) orderId of
       None \<Rightarrow> ret ()
     | Some order \<Rightarrow>
         (case partialFillSecrets order of
            None \<Rightarrow> ret ()
          | Some ps \<Rightarrow>
              if \<not> strict_eq secretText (array_at (secrets ps) secretIdx) then ret ()
              else case find_entry (\<lambda>_ fill. strict_eq (opt_prop fill ''orderId'') orderId \<and>
                     strict_eq (opt_prop fill ''secretIndex'') secretIdx) (monitoringFills s) of
                None \<Rightarrow> ret ()
              | Some (escrowId, fill) \<Rightarrow>
                  (case map_get (pendingSecretReveals s) orderId of
                     Some p \<Rightarrow>
                       bind_p (call ''ethers.getBytes'' [secretText]) (\<lambda>secret.
                       bind_p (completeSwap self (pd_order p) fill secret (sourceEscrowId p) escrowId) (\<lambda>_.
                       forget_pending orderId))
                   | None \<Rightarrow>
                       bind_p (prop_p data ''fillPercentage'') (\<lambda>pct.
                       emit ''swap:completed''
                         [(''orderId'', orderId), (''fillPercentage'', pct), (''isPartialFill'', JBool True),
                          (''message'', JStr (''Partial swap completed: '' @ to_string pct @ ''% of order filled''))]))))"

text \<open>For a full fill the hash the secret is compared with is the one of the message.\<close>

definition reveal_full :: "resolver_self \<Rightarrow> jsval \<Rightarrow> jsval \<Rightarrow> jsval \<Rightarrow> unit flow" where
  "reveal_full self data orderId secretText =
     bind_p get_st (\<lambda>s.
     case map_get (pendingSecretReveals s) orderId of
       None \<Rightarrow> ret ()
     | Some p \<Rightarrow>
         bind_p (call ''ethers.getBytes'' [secretText]) (\<lambda>secret.
         bind_p (call ''ethers.keccak256'' [secret]) (\<lambda>computedHash.
         bind_p (prop_p data ''secretHash'') (\<lambda>claimed.
         if \<not> strict_eq computedHash claimed then ret ()
         else
           bind_p (completeSwap self (pd_order p) (pd_fill p) secret (sourceEscrowId p) (destinationEscrowId p)) (\<lambda>_.
           forget_pending orderId)))))"

definition on_secret_reveal :: "resolver_self \<Rightarrow> jsval \<Rightarrow> unit flow" where
  "on_secret_reveal self data =
     bind_p (prop_p data ''orderId'') (\<lambda>orderId.
     bind_p (prop_p data ''isPartialFill'') (\<lambda>isPartialFill.
     bind_p (prop_p data ''secretIndex'') (\<lambda>secretIdx.
     bind_p (prop_p data ''secret'') (\<lambda>secretText.
     if truthy isPartialFill \<and> secretIdx \<noteq> JUndef then reveal_partial self data orderId secretText secretIdx
     else reveal_full self data orderId secretText))))"

subsection \<open>Source escrows seen on chain\<close>

definition swap_getSecretForFill :: "jsval \<Rightarrow> jsval flow" where
  "swap_getSecretForFill fill =
     bind_p get_st (\<lambda>s. bind_p (prop_p fill ''id'') (\<lambda>fillId.
     ret (js_or (opt_val id (map_get (fillSecrets s) fillId)) JNull)))"

text \<open>The escrow of a gasless partial fill is recomputed from the order and the index of the fill.\<close>

definition actual_escrow_id :: "Order \<Rightarrow> jsval \<Rightarrow> jsval \<Rightarrow> ('s, jsval) prog" where
  "actual_escrow_id order fill src =
     (if partialFillSecrets order \<noteq> None \<and> opt_prop fill ''merkleIndex'' \<noteq> JUndef then
        let base = (case gaslessData order of
              Some g \<Rightarrow> (case gd_baseOrderId g of Some b \<Rightarrow> if b = '''' then order_id order else b | None \<Rightarrow> order_id order)
            | None \<Rightarrow> order_id order)
        in bind_p (call ''ethers.id'' [JStr base]) (\<lambda>baseOrderIdBytes32.
           bind_p (call ''ethers.solidityPacked''
             [JArr [JStr ''bytes32'', JStr ''uint256''], JArr [baseOrderIdBytes32, opt_prop fill ''merkleIndex'']]) (\<lambda>packed.
           call ''ethers.keccak256'' [packed]))
      else ret src)"

definition withdraw_seen :: "resolver_self \<Rightarrow> jsval \<Rightarrow> jsval \<Rightarrow> jsval \<Rightarrow> jsval flow" where
  "withdraw_seen self fill secret src =
     bind_p get_st (\<lambda>s. bind_p (prop_p fill ''orderId'') (\<lambda>orderId.
     case map_get (activeOrders s) orderId of
       Some order \<Rightarrow>
         if gasless order = Some True \<and> gaslessData order \<noteq> None then
           bind_p (actual_escrow_id order fill src) (\<lambda>actual.
           bind_p (call ''ethers.hexlify'' [secret]) (\<lambda>hex. withdrawGaslessEscrow (chain self) actual hex))
         else bind_p (call ''ethers.hexlify'' [secret]) (\<lambda>hex. withdrawEthereumEscrow (chain self) src hex)
     | None \<Rightarrow> bind_p (call ''ethers.hexlify'' [secret]) (\<lambda>hex. withdrawEthereumEscrow (chain self) src hex)))"

definition seen_completed :: "jsval \<Rightarrow> jsval \<Rightarrow> Order option \<Rightarrow> ('s, unit) prog" where
  "seen_completed fill withdrawTx orderData =
     bind_p (prop_p fill ''orderId'') (\<lambda>orderId. bind_p (prop_p fill ''id'') (\<lambda>fillId.
     bind_p (prop_p fill ''amount'') (\<lambda>amount.
     emit ''swap:completed''
       [(''orderId'', orderId), (''fillId'', fillId),
        (''sourceChain'', case orderData of Some d \<Rightarrow> chain_val (fromChain d) | None \<Rightarrow> JStr ''ETHEREUM''),
        (''destinationChain'', case orderData of Some d \<Rightarrow> chain_val (toChain d) | None \<Rightarrow> JStr ''APTOS''),
        (''fromAmount'', case orderData of Some d \<Rightarrow> if fromAmount d = '''' then amount else JStr (fromAmount d) | None \<Rightarrow> amount),
        (''toAmount'', case orderData of Some d \<Rightarrow> if toChain d = APTOS then JStr (minToAmount d) else amount | None \<Rightarrow> amount),
        (''txHash'', withdrawTx)])))"

definition handleSourceEscrowCreated :: "resolver_self \<Rightarrow> jsval \<Rightarrow> jsval \<Rightarrow> unit flow" where
  "handleSourceEscrowCreated self fill src =
     try_catch
       (bind_p (prop_p fill ''status'') (\<lambda>status.
        if is_settled status then ret ()
        else
          bind_p (set_status self fill ''SOURCE_CREATED'' [(''sourceEscrowId'', src)]) (\<lambda>_.
          bind_p (sleep 15000) (\<lambda>_.
          bind_p (swap_getSecretForFill fill) (\<lambda>secret.
          if \<not> truthy secret then raise (Error ''Secret not found for fill'')
          else
            bind_p (withdraw_seen self fill secret src) (\<lambda>withdrawTx.
            bind_p (after_source self fill secret src withdrawTx) (\<lambda>_.
            bind_p get_st (\<lambda>s.
            bind_p (prop_p fill ''orderId'') (\<lambda>orderId.
            bind_p (prop_p fill ''destinationEscrowId'') (\<lambda>dest.
            let orderData = map_get (activeOrders s) orderId
            in bind_p (when_p ((case orderData of Some d \<Rightarrow> toChain d = APTOS | None \<Rightarrow> False) \<and> truthy dest)
                 (withdraw_dest_aptos self orderId fill secret src dest)) (\<lambda>_.
               bind_p (seen_completed fill withdrawTx orderData) (\<lambda>_.
               bind_p (set_status self fill ''COMPLETED'' []) (\<lambda>_.
               upd_st (\<lambda>s. s\<lparr>monitoringFills := map_remove (monitoringFills s) dest\<rparr>))))))))))))))
       (\<lambda>error. set_status self fill ''FAILED'' [])"

text \<open>
  One escrow event. Its properties are read from untyped data; an event without \<^verbatim>\<open>args\<close> is passed over.
\<close>

definition poll_event :: "resolver_self \<Rightarrow> jsval \<Rightarrow> unit flow" where
  "poll_event self event =
     (case event of
        JObj ps \<Rightarrow>
          (case map_of ps ''args'' of
             Some (JArr (escrowId # depositor # beneficiary # token # amount # hashlock # rest)) \<Rightarrow>
               let eventKey = to_string (obj_get ps ''blockNumber'') @ ''-'' @ to_string (obj_get ps ''transactionIndex'')
               in bind_p get_st (\<lambda>s.
                  if eventKey \<in> set (processedEvents s) then ret ()
                  else
                    bind_p (upd_st (\<lambda>s. s\<lparr>processedEvents := set_add (processedEvents s) eventKey\<rparr>)) (\<lambda>_.
                    bind_p (formatEther amount) (\<lambda>_.
                    bind_p get_st (\<lambda>s.
                    if (''auto-'' @ to_string escrowId) \<in> set (processedEvents s) then ret ()
                    else case find_entry (\<lambda>_ fill. strict_eq (opt_prop fill ''secretHash'') hashlock) (monitoringFills s) of
                      None \<Rightarrow> ret ()
                    | Some (destEscrowId, fill) \<Rightarrow> handleSourceEscrowCreated self fill escrowId))))
           | Some _ \<Rightarrow> raise (TypeError ''event.args is not iterable'')
           | None \<Rightarrow> ret ())
      | _ \<Rightarrow> raise (TypeError ''Cannot use in operator to search for args''))"

text \<open>The callback of the polling timer; it is not installed without the address of the contract.\<close>

definition poll_escrows :: "resolver_self \<Rightarrow> unit flow" where
  "poll_escrows self =
     (case escrowEnv self of
        None \<Rightarrow> ret ()
      | Some addr \<Rightarrow>
          if addr = '''' then ret ()
          else try_catch
            (bind_p (call ''provider.getBlockNumber'' []) (\<lambda>currentBlock.
             bind_p (call ''contract.filters.EscrowCreated'' [JStr addr, JNull, JNull, JStr (ethereumAddress self)]) (\<lambda>flt.
             bind_p (call ''contract.queryFilter''
               [JStr addr, flt, JNum (js_max (Fin 0) (js_sub (num_of currentBlock) (Fin 10))), currentBlock]) (\<lambda>events.
             case events of
               JArr evs \<Rightarrow> seq_u (map (poll_event self) evs)
             | _ \<Rightarrow> raise (TypeError ''events is not iterable'')))))
            (\<lambda>error. ret ()))"

subsection \<open>What a flow keeps\<close>

text \<open>\<open>keeps I m\<close>: a run of \<open>m\<close> keeps the condition \<open>I\<close> of the state, also when it throws.\<close>

definition keeps :: "('s \<Rightarrow> bool) \<Rightarrow> ('s, 'a) prog \<Rightarrow> bool" where
  "keeps I m \<longleftrightarrow> (\<forall>orc w. I (wstate w) \<longrightarrow> I (wstate (snd (m orc w))))"

named_theorems keep_rules

lemma keepsD: "keeps I m \<Longrightarrow> m orc w = (r, w1) \<Longrightarrow> I (wstate w) \<Longrightarrow> I (wstate w1)"
  by (metis keeps_def snd_conv)

lemma keeps_basic [keep_rules]:
  "keeps I (ret x)" "keeps I (raise e)" "keeps I (lift_res r)" "keeps I get_st" "keeps I (call n a)"
  "keeps I (prop_p v k)"
  by (simp_all add: keeps_def ret_def raise_def lift_res_def get_st_def call_def prop_p_def Let_def)

lemma keeps_upd [keep_rules]: "(\<And>s. I s \<Longrightarrow> I (f s)) \<Longrightarrow> keeps I (upd_st f)"
  by (simp add: keeps_def upd_st_def)

lemma keeps_bind [keep_rules]: "keeps I m \<Longrightarrow> (\<And>x. keeps I (f x)) \<Longrightarrow> keeps I (bind_p m f)"
  unfolding keeps_def bind_p_def by (auto split: prod.splits sum.splits) (metis snd_conv)+

lemma keeps_try [keep_rules]: "keeps I m \<Longrightarrow> (\<And>e. keeps I (h e)) \<Longrightarrow> keeps I (try_catch m h)"
  unfolding keeps_def try_catch_def by (auto split: prod.splits sum.splits) (metis snd_conv)+

lemma keeps_if [keep_rules]: "keeps I a \<Longrightarrow> keeps I b \<Longrightarrow> keeps I (if c then a else b)"
  by simp

lemma keeps_when [keep_rules]: "keeps I m \<Longrightarrow> keeps I (when_p b m)"
  by (simp add: when_p_def keep_rules)

lemma keeps_do_call [keep_rules]: "keeps I (do_call n a)"
  unfolding do_call_def by (intro keep_rules)

lemma keeps_seq [keep_rules]: "(\<And>m. m \<in> set ms \<Longrightarrow> keeps I m) \<Longrightarrow> keeps I (seq_u ms)"
  by (induction ms) (auto intro!: keep_rules)

lemma keeps_case_option [keep_rules]:
  "keeps I n \<Longrightarrow> (\<And>x. keeps I (f x)) \<Longrightarrow> keeps I (case v of None \<Rightarrow> n | Some x \<Rightarrow> f x)"
  by (cases v) simp_all

lemma keeps_case_prod [keep_rules]: "(\<And>x y. keeps I (f x y)) \<Longrightarrow> keeps I (case p of (x, y) \<Rightarrow> f x y)"
  by (cases p) simp

lemma keeps_Let [keep_rules]: "(\<And>x. keeps I (f x)) \<Longrightarrow> keeps I (let x = v in f x)"
  by (simp add: Let_def)

lemma keeps_case_jsval [keep_rules]:
  "keeps I u \<Longrightarrow> keeps I n \<Longrightarrow> (\<And>x. keeps I (b x)) \<Longrightarrow> (\<And>x. keeps I (m x)) \<Longrightarrow> (\<And>x. keeps I (g x)) \<Longrightarrow>
   (\<And>x. keeps I (s x)) \<Longrightarrow> (\<And>x. keeps I (a x)) \<Longrightarrow> (\<And>x. keeps I (p x)) \<Longrightarrow>
   keeps I (case v of JUndef \<Rightarrow> u | JNull \<Rightarrow> n | JBool x \<Rightarrow> b x | JNum x \<Rightarrow> m x | JBig x \<Rightarrow> g x | JStr x \<Rightarrow> s x
     | JArr x \<Rightarrow> a x | JObj x \<Rightarrow> p x)"
  by (cases v) simp_all

lemma keeps_case_list [keep_rules]:
  "keeps I n \<Longrightarrow> (\<And>x xs. keeps I (f x xs)) \<Longrightarrow> keeps I (case v of [] \<Rightarrow> n | x # xs \<Rightarrow> f x xs)"
  by (cases v) simp_all

lemma keeps_services [keep_rules]:
  "keeps I (big_p m)" if "keeps I m" for m
  unfolding big_p_def by (intro keep_rules that)

lemma keeps_helpers [keep_rules]:
  "keeps I (sleep ms)" "keeps I (formatEther v)" "keeps I (getBigInt t)" "keeps I (parseEther t)"
  "keeps I (send_tx addr method args opts)" "keeps I (receipt_hash tx)" "keeps I (emit ev payload)"
  "keeps I (updateFillStatus self o1 i st extra)" "keeps I (set_status self fill st extra)" "keeps I (createFill self t d)"
  unfolding sleep_def formatEther_def getBigInt_def parseEther_def send_tx_def receipt_hash_def emit_def
    updateFillStatus_def set_status_def createFill_def
  by (intro keep_rules)+

lemma keeps_wait_confirmation [keep_rules]: "keeps I (wait_confirmation k h)"
  by (induction k) (auto intro!: keep_rules)

lemma keeps_aptos_withdraw [keep_rules]:
  "keeps I (sign_submit a txn)" "keeps I (check_success v h)" "keeps I (view_exists a e)"
  "keeps I (checkAptosEscrowExists a e)" "keeps I (withdraw_attempt a e x)"
  unfolding sign_submit_def check_success_def view_exists_def checkAptosEscrowExists_def withdraw_attempt_def
  by (intro keep_rules)+

lemma keeps_withdraw_loop [keep_rules]: "keeps I (withdraw_loop k a e x)"
  by (induction k) (auto intro!: keep_rules)

lemma keeps_withdrawals [keep_rules]:
  "keeps I (withdrawEscrow a e x)" "keeps I (withdrawAptosEscrow c e x)" "keeps I (withdrawEthereumEscrow c e x)"
  "keeps I (withdrawGaslessEscrow c e x)" "keeps I (sendCrossChainSecretReveal c n e x)"
  "keeps I (cs_checkAptosEscrowExists c e)" "keeps I (escrow_id_bytes e)"
  "keeps I (withdraw_source self order x e)" "keeps I (manual_withdrawal pat reason o1 fill x d err)"
  "keeps I (withdraw_dest_aptos self o1 fill x e d)"
  unfolding withdrawEscrow_def withdrawAptosEscrow_def withdrawEthereumEscrow_def withdrawGaslessEscrow_def
    sendCrossChainSecretReveal_def cs_checkAptosEscrowExists_def escrow_id_bytes_def withdraw_source_def
    manual_withdrawal_def withdraw_dest_aptos_def
  by (intro keep_rules)+

text \<open>The completion of a swap changes balances, monitored fills and secrets only.\<close>

lemma keeps_completion [keep_rules]:
  assumes "\<And>s b. I s \<Longrightarrow> I (s\<lparr>lastBalances := b\<rparr>)" "\<And>s k. I s \<Longrightarrow> I (s\<lparr>monitoringFills := map_remove (monitoringFills s) k\<rparr>)"
    "\<And>s k. I s \<Longrightarrow> I (s\<lparr>fillSecrets := map_remove (fillSecrets s) k\<rparr>)"
  shows "keeps I (completeSwap self order fill x src dest)"
proof -
  have b: "keeps I (track_balances self)"
    unfolding track_balances_def by (intro keep_rules) (simp add: assms)
  show ?thesis
    unfolding completeSwap_def swap_rest_def swap_failed_def after_source_def withdraw_dest_def announce_completion_def clean_up_def Let_def
    by (intro keep_rules b) (simp_all add: assms)
qed

subsection \<open>Runs\<close>

text \<open>The trace only grows.\<close>

definition grows :: "('s, 'a) prog \<Rightarrow> bool" where
  "grows m \<longleftrightarrow> costs (\<lambda>_. False) 0 m"

lemma growsD: "grows m \<Longrightarrow> m orc w = (r, w1) \<Longrightarrow> \<exists>new. wtrace w1 = wtrace w @ new"
  unfolding grows_def by (blast dest: costsD)

lemma costs_grows: "costs P n m \<Longrightarrow> grows m"
  by (auto simp: grows_def costs_def)

lemma costs_0D:
  "costs P 0 m \<Longrightarrow> m orc w = (r, w1) \<Longrightarrow> \<exists>new. wtrace w1 = wtrace w @ new \<and> (\<forall>c\<in>set new. \<not> P (fst c))"
  by (drule (1) costsD) (auto simp: filter_empty_conv)

lemma costs_case_option [cost_rules]:
  "costs P n a \<Longrightarrow> (\<And>x. costs P n (f x)) \<Longrightarrow> costs P n (case v of None \<Rightarrow> a | Some x \<Rightarrow> f x)"
  by (cases v) simp_all

lemma costs_case_prod [cost_rules]: "(\<And>x y. costs P n (f x y)) \<Longrightarrow> costs P n (case p of (x, y) \<Rightarrow> f x y)"
  by (cases p) simp

lemma costs_Let [cost_rules]: "(\<And>x. costs P n (f x)) \<Longrightarrow> costs P n (let x = v in f x)"
  by (simp add: Let_def)

lemma costs_case_jsval [cost_rules]:
  "costs P k u \<Longrightarrow> costs P k n \<Longrightarrow> (\<And>x. costs P k (b x)) \<Longrightarrow> (\<And>x. costs P k (m x)) \<Longrightarrow> (\<And>x. costs P k (g x)) \<Longrightarrow>
   (\<And>x. costs P k (s x)) \<Longrightarrow> (\<And>x. costs P k (a x)) \<Longrightarrow> (\<And>x. costs P k (p x)) \<Longrightarrow>
   costs P k (case v of JUndef \<Rightarrow> u | JNull \<Rightarrow> n | JBool x \<Rightarrow> b x | JNum x \<Rightarrow> m x | JBig x \<Rightarrow> g x | JStr x \<Rightarrow> s x
     | JArr x \<Rightarrow> a x | JObj x \<Rightarrow> p x)"
  by (cases v) simp_all

lemma costs_when [cost_rules]: "costs P n m \<Longrightarrow> costs P n (when_p b m)"
  by (simp add: when_p_def cost_rules)

lemma costs_big [cost_rules]: "costs P n m \<Longrightarrow> costs P n (big_p m)"
  unfolding big_p_def by (rule costs_bind1) (auto intro: cost_rules)

text \<open>Calls that act outside the resolver: a transaction of a contract or of an Aptos module, a message, a patch of a fill.\<close>

definition is_withdrawal :: "ext \<Rightarrow> bool" where
  "is_withdrawal c \<longleftrightarrow> ext_name c = ''contract.withdraw'' \<or> is_submit c"

definition is_emit :: "ext \<Rightarrow> bool" where
  "is_emit c \<longleftrightarrow> ext_name c = ''socket.emit''"

definition is_patch :: "string \<Rightarrow> ext \<Rightarrow> bool" where
  "is_patch status c \<longleftrightarrow> ext_name c = ''axios.patch'' \<and>
     (case ext_args c of [url, body] \<Rightarrow> opt_prop body ''status'' = JStr status | _ \<Rightarrow> False)"

text \<open>What tells others that the source escrow was redeemed.\<close>

definition is_reveal :: "ext \<Rightarrow> bool" where
  "is_reveal c \<longleftrightarrow> is_emit c \<or> is_patch ''SOURCE_WITHDRAWN'' c \<or> is_patch ''COMPLETED'' c"

lemma costs_disj:
  assumes "costs P a m" "costs Q b m" shows "costs (\<lambda>c. P c \<or> Q c) (a + b) m"
proof (rule costsI)
  fix orc :: outside and w :: "'a world"
  obtain new where n: "wtrace (snd (m orc w)) = wtrace w @ new" "length (filter P (map fst new)) \<le> a"
    "length (filter Q (map fst new)) \<le> b"
    using assms unfolding costs_def by (metis same_append_eq)
  have "length (filter (\<lambda>c. P c \<or> Q c) xs) \<le> length (filter P xs) + length (filter Q xs)" for xs
    by (induction xs) auto
  from this[of "map fst new"] n show
    "\<exists>new. wtrace (snd (m orc w)) = wtrace w @ new \<and> length (filter (\<lambda>c. P c \<or> Q c) (map fst new)) \<le> a + b"
    by (intro exI[of _ new]) simp
qed

text \<open>\<open>uses N m\<close>: all calls of \<open>m\<close> are named in \<open>N\<close>.\<close>

definition uses :: "string set \<Rightarrow> ('s, 'a) prog \<Rightarrow> bool" where
  "uses N m \<longleftrightarrow> costs (\<lambda>c. ext_name c \<notin> N) 0 m"

lemma uses_costs: "uses N m \<Longrightarrow> (\<And>c. ext_name c \<in> N \<Longrightarrow> \<not> P c) \<Longrightarrow> costs P k m"
  unfolding uses_def costs_def by (fastforce simp: filter_empty_conv)

definition withdraw_names :: "string set" where
  "withdraw_names = {''ethers.hexlify'', ''ethers.getBytes'', ''aptos.view'', ''aptos.account.getAccountInfo'',
     ''aptos.transaction.build.simple'', ''aptos.transaction.sign'', ''aptos.transaction.submit.simple'',
     ''aptos.waitForTransaction'', ''setTimeout'', ''contract.withdraw'', ''tx.wait''}"

lemma uses_wait_confirmation: "uses withdraw_names (wait_confirmation k h :: ('s, jsval) prog)"
  unfolding uses_def withdraw_names_def
proof (induction k)
  case (Suc k)
  show ?case unfolding wait_confirmation.simps by (intro cost_rules Suc.IH) simp_all
qed (simp add: cost_rules)

lemma uses_withdraw_attempt: "uses withdraw_names (withdraw_attempt a e x)"
  unfolding uses_def withdraw_attempt_def sign_submit_def
  by (intro cost_rules uses_wait_confirmation[unfolded uses_def]) (simp_all add: withdraw_names_def)

lemma uses_withdraw_loop: "uses withdraw_names (withdraw_loop k a e x :: ('s, jsval) prog)"
  unfolding uses_def
proof (induction k)
  case (Suc k)
  show ?case unfolding withdraw_loop.simps
    by (intro cost_rules Suc.IH uses_withdraw_attempt[unfolded uses_def]) (simp_all add: withdraw_names_def)
qed (simp add: cost_rules)

lemma uses_withdrawals:
  "uses withdraw_names (withdrawAptosEscrow c e x)" "uses withdraw_names (withdrawEthereumEscrow c e x)"
  "uses withdraw_names (withdrawGaslessEscrow c e x)" "uses withdraw_names (cs_checkAptosEscrowExists c e)"
  "uses withdraw_names (escrow_id_bytes e)"
  unfolding uses_def withdrawAptosEscrow_def withdrawEthereumEscrow_def withdrawGaslessEscrow_def withdrawEscrow_def
    cs_checkAptosEscrowExists_def checkAptosEscrowExists_def escrow_id_bytes_def view_exists_def send_tx_def receipt_hash_def
  by (intro cost_rules uses_withdraw_loop[unfolded uses_def]; simp add: withdraw_names_def)+

lemma uses_withdraw_source: "uses withdraw_names (withdraw_source self order x src)"
  unfolding uses_def withdraw_source_def
  by (intro cost_rules uses_withdrawals[unfolded uses_def]) (simp_all add: withdraw_names_def)

lemma withdrawAptos_withdrawals: "costs is_withdrawal 3 (withdrawAptosEscrow c e x :: ('s, jsval) prog)"
proof -
  have a: "costs is_submit 3 (withdrawEscrow a e x :: ('s, jsval) prog)" for a
    unfolding withdrawEscrow_def view_exists_def maxAttempts_def
    by (intro costs_bind0 costs_if costs_mono[OF withdraw_loop_submits] cost_rules) simp_all
  have "costs (\<lambda>c. ext_name c = ''contract.withdraw'') 0 (withdraw_loop k a e x :: ('s, jsval) prog)" for k a
  proof (induction k)
    case (Suc k)
    have w: "costs (\<lambda>c. ext_name c = ''contract.withdraw'') 0 (wait_confirmation j h :: ('s, jsval) prog)" for j h
      by (induction j) (auto intro!: cost_rules)
    show ?case unfolding withdraw_loop.simps withdraw_attempt_def sign_submit_def
      by (intro cost_rules Suc.IH w) simp_all
  qed (simp add: cost_rules)
  then have b: "costs (\<lambda>c. ext_name c = ''contract.withdraw'') 0 (withdrawEscrow a e x :: ('s, jsval) prog)" for a
    unfolding withdrawEscrow_def view_exists_def by (intro cost_rules) simp_all
  show ?thesis
    using costs_disj[OF b[of "aptos c"] a[of "aptos c"]] by (simp add: is_withdrawal_def[abs_def] withdrawAptosEscrow_def)
qed

lemma withdrawEth_withdrawals:
  "costs is_withdrawal 3 (withdrawEthereumEscrow c e x)" "costs is_withdrawal 3 (withdrawGaslessEscrow c e x)"
proof -
  have "costs is_withdrawal (Suc 2) (bind_p (send_tx a ''withdraw'' [e, x] []) receipt_hash)" for a
    unfolding send_tx_def receipt_hash_def
    by (rule costs_bind1[OF costs_call]) (intro cost_rules; simp add: is_withdrawal_def)
  then have *: "costs is_withdrawal 3 (bind_p (send_tx a ''withdraw'' [e, x] []) receipt_hash)" for a
    by (simp add: numeral_3_eq_3)
  show "costs is_withdrawal 3 (withdrawEthereumEscrow c e x)" "costs is_withdrawal 3 (withdrawGaslessEscrow c e x)"
    unfolding withdrawEthereumEscrow_def withdrawGaslessEscrow_def by (intro cost_rules *)+
qed

lemma withdraw_source_withdrawals: "costs is_withdrawal 3 (withdraw_source self order x src)"
  unfolding withdraw_source_def escrow_id_bytes_def cs_checkAptosEscrowExists_def checkAptosEscrowExists_def view_exists_def
  by (intro cost_rules withdrawAptos_withdrawals withdrawEth_withdrawals) (simp_all add: is_withdrawal_def)

lemma withdraw_source_quiet: "costs is_reveal 0 (withdraw_source self order x src)"
  by (rule uses_costs[OF uses_withdraw_source])
     (auto simp: withdraw_names_def is_reveal_def is_emit_def is_patch_def)

lemma set_status_quiet:
  "costs is_withdrawal 0 (set_status self fill st extra)"
  "st \<notin> {''SOURCE_WITHDRAWN'', ''COMPLETED''} \<Longrightarrow> costs is_reveal 0 (set_status self fill st extra)"
  unfolding set_status_def updateFillStatus_def
  by (intro cost_rules; simp add: is_withdrawal_def is_reveal_def is_emit_def is_patch_def obj_get_def)+

lemma grows_basic:
  "grows (set_status self fill st extra)" "grows (withdraw_source self order x src)"
  using set_status_quiet(1) withdraw_source_quiet by (blast intro: costs_grows)+

text \<open>
  \<open>in_order P Q n S\<close>: the calls from one trace to another split in two. The first ones contain at most
  \<open>n\<close> of \<open>P\<close> and none of \<open>Q\<close>; the others, if any, follow a run of \<open>S\<close> that returned.
\<close>

definition in_order ::
  "(ext \<Rightarrow> bool) \<Rightarrow> (ext \<Rightarrow> bool) \<Rightarrow> nat \<Rightarrow> ('s, 'a) prog \<Rightarrow> outside \<Rightarrow> trace \<Rightarrow> trace \<Rightarrow> bool" where
  "in_order P Q n S orc t t1 \<longleftrightarrow> (\<exists>pre post. t1 = t @ pre @ post \<and> length (filter P (map fst pre)) \<le> n \<and>
     (\<forall>c\<in>set pre. \<not> Q (fst c)) \<and>
     (post = [] \<or> (\<exists>wa wb x. S orc wa = (Inr x, wb) \<and> wtrace wb = t @ pre)))"

lemma in_order_quiet:
  "length (filter P (map fst new)) \<le> n \<Longrightarrow> \<forall>c\<in>set new. \<not> Q (fst c) \<Longrightarrow> in_order P Q n S orc t (t @ new)"
  unfolding in_order_def by (rule exI[of _ new], rule exI[of _ "[]"]) simp

lemma in_order_run:
  "costs P n m \<Longrightarrow> costs Q 0 m \<Longrightarrow> m orc w = (r, w1) \<Longrightarrow> in_order P Q n S orc (wtrace w) (wtrace w1)"
  using costsD[of P n m orc w r w1] costs_0D[of Q m orc w r w1] in_order_quiet[of P _ n Q S orc "wtrace w"] by force

lemma in_order_after:
  "length (filter P (map fst pre)) \<le> n \<Longrightarrow> \<forall>c\<in>set pre. \<not> Q (fst c) \<Longrightarrow> S orc wa = (Inr x, wb) \<Longrightarrow>
   wtrace wb = t @ pre \<Longrightarrow> in_order P Q n S orc t (t @ pre @ post)"
  unfolding in_order_def by blast

lemma in_order_Cons:
  assumes "in_order P Q n S orc (t @ [c]) t1" "\<not> P (fst c)" "\<not> Q (fst c)"
  shows "in_order P Q n S orc t t1"
proof -
  obtain pre post where "t1 = (t @ [c]) @ pre @ post" "length (filter P (map fst pre)) \<le> n"
    "\<forall>c\<in>set pre. \<not> Q (fst c)" "post = [] \<or> (\<exists>wa wb x. S orc wa = (Inr x, wb) \<and> wtrace wb = (t @ [c]) @ pre)"
    using assms(1) unfolding in_order_def by blast
  then show ?thesis using assms(2,3) unfolding in_order_def
    by - (rule exI[of _ "c # pre"], rule exI[of _ post], simp)
qed

text \<open>A guarded sequence: what \<open>S\<close> is followed by runs only after \<open>S\<close> returned.\<close>

lemma two_phases:
  assumes A: "costs P 0 A" "costs Q 0 A" and S: "costs P n S" "costs Q 0 S" and R: "\<And>x. grows (R x)"
    and H: "\<And>e. costs P 0 (H e)" "\<And>e. costs Q 0 (H e)"
    and run: "try_catch (bind_p A (\<lambda>_. bind_p S R)) H orc w = (r, w1)"
  shows "in_order P Q n S orc (wtrace w) (wtrace w1)"
proof -
  have h: "\<exists>new. wtrace w3 = wtrace w2 @ new \<and> length (filter P (map fst new)) \<le> 0 \<and> (\<forall>c\<in>set new. \<not> Q (fst c))"
    if "H e orc w2 = (q, w3)" for e w2 q w3
    using costsD[OF H(1) that] costs_0D[OF H(2) that] by auto
  obtain ra wa where a: "A orc w = (ra, wa)" by fastforce
  obtain na where na: "wtrace wa = wtrace w @ na" "length (filter P (map fst na)) \<le> 0" "\<forall>c\<in>set na. \<not> Q (fst c)"
    using costsD[OF A(1) a] costs_0D[OF A(2) a] by auto
  show ?thesis
  proof (cases ra)
    case (Inl e)
    then have "H e orc wa = (r, w1)" using run a by (simp add: try_catch_def bind_p_def)
    then obtain nh where "wtrace w1 = wtrace wa @ nh" "length (filter P (map fst nh)) \<le> 0" "\<forall>c\<in>set nh. \<not> Q (fst c)"
      using h by blast
    then show ?thesis using na in_order_quiet[of P "na @ nh" n Q S orc "wtrace w"] by auto
  next
    case u: (Inr u)
    obtain rs ws where s: "S orc wa = (rs, ws)" by fastforce
    obtain ns where ns: "wtrace ws = wtrace wa @ ns" "length (filter P (map fst ns)) \<le> n" "\<forall>c\<in>set ns. \<not> Q (fst c)"
      using costsD[OF S(1) s] costs_0D[OF S(2) s] by auto
    show ?thesis
    proof (cases rs)
      case (Inl e)
      then have "H e orc ws = (r, w1)" using run a s u by (simp add: try_catch_def bind_p_def)
      then obtain nh where "wtrace w1 = wtrace ws @ nh" "length (filter P (map fst nh)) \<le> 0" "\<forall>c\<in>set nh. \<not> Q (fst c)"
        using h by blast
      then show ?thesis using na ns in_order_quiet[of P "na @ ns @ nh" n Q S orc "wtrace w"] by auto
    next
      case (Inr x)
      obtain q w2 where x: "R x orc ws = (q, w2)" by fastforce
      obtain nr where "wtrace w2 = wtrace ws @ nr" using growsD[OF R x] by blast
      then obtain post where "wtrace w1 = wtrace ws @ post"
        using run a s u Inr x h by (cases q) (force simp: try_catch_def bind_p_def)+
      then show ?thesis using na ns s Inr in_order_after[of P "na @ ns" n Q S orc wa x ws "wtrace w" post] by auto
    qed
  qed
qed

lemma bind_prop:
  "bind_p (prop_p v k) f orc w = (case get_prop v k of Inl e \<Rightarrow> (Inl e, w) | Inr x \<Rightarrow> f x orc w)"
  by (simp add: bind_p_def prop_p_def lift_res_def split: sum.split)

lemma grows_intros [cost_rules]: "grows m \<Longrightarrow> costs (\<lambda>_. False) 0 m"
  by (simp add: grows_def)

lemma uses_grows: "uses N m \<Longrightarrow> grows m"
  unfolding uses_def by (rule costs_grows)

lemma grows_services:
  "grows (withdrawAptosEscrow c e x)" "grows (withdrawEthereumEscrow c e x)" "grows (withdrawGaslessEscrow c e x)"
  "grows (track_balances self)" "grows (emit ev payload)" "grows (sendCrossChainSecretReveal c n e x)"
  "grows (withdraw_dest self order fill x src dest)" "grows (announce_completion order fill)"
  "grows (clean_up order fill dest)" "grows (after_source self fill x src tx)"
proof -
  show w: "grows (withdrawAptosEscrow c e x)" "grows (withdrawEthereumEscrow c e x)" "grows (withdrawGaslessEscrow c e x)"
    for c e x
    by (rule uses_grows[OF uses_withdrawals(1)] uses_grows[OF uses_withdrawals(2)] uses_grows[OF uses_withdrawals(3)])+
  show t: "grows (track_balances self)" and m: "grows (emit ev payload)"
    and l: "grows (sendCrossChainSecretReveal c n e x)" for self ev payload c n e x
    unfolding grows_def track_balances_def emit_def sendCrossChainSecretReveal_def formatEther_def parseEther_def send_tx_def
    by (intro cost_rules; simp)+
  show "grows (withdraw_dest self order fill x src dest)"
    unfolding grows_def withdraw_dest_def withdraw_dest_aptos_def manual_withdrawal_def
    by (intro cost_rules w t l m; simp)
  show "grows (announce_completion order fill)" "grows (clean_up order fill dest)" "grows (after_source self fill x src tx)"
    unfolding grows_def announce_completion_def clean_up_def after_source_def Let_def
    by (intro cost_rules t m grows_basic; simp)+
qed

lemma swap_failed_quiet:
  "costs is_withdrawal 0 (swap_failed self fill e)" "costs is_reveal 0 (swap_failed self fill e)"
  unfolding swap_failed_def by (intro cost_rules set_status_quiet; simp)+

lemma grows_swap_rest: "grows (swap_rest self order fill x src dest tx)"
  unfolding swap_rest_def grows_def by (intro cost_rules grows_services grows_basic)

text \<open>The part of \<^verbatim>\<open>completeSwap\<close> inside its try block.\<close>

lemma swap_steps_in_order:
  assumes "try_catch (bind_p (prop_p fill ''status'') (\<lambda>status.
      if is_settled status then ret ()
      else bind_p (set_status self fill ''SOURCE_CREATED'' [(''sourceEscrowId'', src)]) (\<lambda>_.
        bind_p (withdraw_source self order secret src) (swap_rest self order fill secret src dest))))
      (swap_failed self fill) orc w = (r, w1)"
  shows "in_order is_withdrawal is_reveal 3 (withdraw_source self order secret src :: jsval flow) orc (wtrace w) (wtrace w1)"
proof (cases "get_prop fill ''status''")
  case (Inl e)
  then have "swap_failed self fill e orc w = (r, w1)" using assms by (simp add: try_catch_def bind_prop)
  then show ?thesis by (rule in_order_run[OF costs_mono[OF swap_failed_quiet(1)] swap_failed_quiet(2), rotated]) simp
next
  case (Inr status)
  show ?thesis
  proof (cases "is_settled status")
    case True
    then have "w1 = w" using assms Inr by (simp add: try_catch_def bind_prop ret_def)
    then show ?thesis using in_order_quiet[of is_withdrawal "[]" 3 is_reveal _ orc "wtrace w"] by simp
  next
    case False
    show ?thesis
      by (rule two_phases[OF set_status_quiet(1) set_status_quiet(2) withdraw_source_withdrawals withdraw_source_quiet
            grows_swap_rest swap_failed_quiet])
         (use assms False Inr in \<open>simp_all add: try_catch_def bind_prop\<close>)
  qed
qed

subsection \<open>Properties\<close>

text \<open>
  C8. The order of a completed swap. In every run of \<^verbatim>\<open>completeSwap\<close>, whatever the chains, the engine and
  the libraries answer or throw: the calls made before the source escrow was redeemed contain at
  most three withdrawals (the attempts on the source escrow), and none of them publishes the
  secret or reports the source as withdrawn or the fill as completed; and any further call, so
  the withdrawal for the user, follows a run of the source withdrawal that returned a
  transaction. A resolver that cannot collect the payment does not pay, and reports no success.
\<close>

theorem completeSwap_source_first:
  assumes "completeSwap self order fill secret src dest orc w = (r, w1)"
  shows "\<exists>pre post. wtrace w1 = wtrace w @ pre @ post \<and>
    length (filter is_withdrawal (map fst pre)) \<le> 3 \<and> (\<forall>c\<in>set pre. \<not> is_reveal (fst c)) \<and>
    (post = [] \<or> (\<exists>(wa :: resolver_state world) wb tx. withdraw_source self order secret src orc wa = (Inr tx, wb) \<and>
       wtrace wb = wtrace w @ pre))"
proof -
  let ?h = "(Ext ''ethers.hexlify'' [secret], orc (wtrace w) (Ext ''ethers.hexlify'' [secret]))"
  let ?w = "w\<lparr>wtrace := wtrace w @ [?h]\<rparr>"
  let ?ok = "in_order is_withdrawal is_reveal 3 (withdraw_source self order secret src :: jsval flow) orc"
  have quiet: "\<not> is_withdrawal (fst ?h)" "\<not> is_reveal (fst ?h)"
    by (simp_all add: is_withdrawal_def is_reveal_def is_emit_def is_patch_def)
  have "?ok (wtrace w) (wtrace w1)"
  proof (cases "orc (wtrace w) (Ext ''ethers.hexlify'' [secret])")
    case (Inl e)
    then have "wtrace w1 = wtrace w @ [?h]"
      using assms by (auto simp: completeSwap_def do_call_def bind_p_def call_def Let_def)
    then show ?thesis using quiet in_order_quiet[of is_withdrawal "[?h]" 3 is_reveal] by simp
  next
    case (Inr v)
    have "?ok (wtrace ?w) (wtrace w1)"
      by (rule swap_steps_in_order)
         (use assms Inr in \<open>simp add: completeSwap_def do_call_def bind_p_def[of "call _ _"] bind_p_def[of "bind_p _ _"] call_def ret_def Let_def\<close>)
    then have "?ok (wtrace w @ [?h]) (wtrace w1)" by simp
    then show ?thesis by (rule in_order_Cons) (use quiet in simp_all)
  qed
  then show ?thesis unfolding in_order_def .
qed

lemma wait_first:
  "wait_confirmation maxRetries h =
     try_catch (call ''aptos.waitForTransaction'' [h, JNum (Fin 30), JBool False])
       (\<lambda>e. if str_includes (message e) ''transaction_not_found'' then bind_p (sleep 2000) (\<lambda>_. wait_confirmation 9 h) else raise e)"
  using wait_confirmation.simps(2)[of 9 h] by (simp add: maxRetries_def)

text \<open>The definitions a run of the flow unfolds.\<close>

lemmas flow_eval = bind_p_def do_call_def call_def ret_def try_catch_def bind_prop prop_p_def lift_res_def raise_def Let_def
  get_st_def upd_st_def when_p_def obj_get_def send_tx_def receipt_hash_def big_p_def as_big_def formatEther_def emit_def
  set_status_def updateFillStatus_def track_balances_def trackBalanceChange_def is_settled_def
  withdraw_source_def withdrawEthereumEscrow_def withdrawAptosEscrow_def withdrawEscrow_def view_exists_def absent_def
  maxAttempts_def withdraw_attempt_def numeral_3_eq_3 sign_submit_def check_success_def wait_first fn_name_def sleep_def
  sendCrossChainSecretReveal_def present_def after_source_def withdraw_dest_def withdraw_dest_aptos_def
  completeSwap_def swap_rest_def swap_failed_def announce_completion_def clean_up_def is_partial_def latest_fill_def

subsection \<open>Runs that return\<close>

text \<open>
  The calls of a kind in a trace, and whether they were answered; and programs that return a value
  whatever the state and the past are, and make the listed calls of that kind.
\<close>

definition seen :: "(ext \<Rightarrow> bool) \<Rightarrow> trace \<Rightarrow> (string \<times> bool) list" where
  "seen P u = map (\<lambda>c. (ext_name (fst c), is_ok (snd c))) (filter (P \<circ> fst) u)"

definition returns :: "(ext \<Rightarrow> bool) \<Rightarrow> outside \<Rightarrow> ('s, 'a) prog \<Rightarrow> 'a \<Rightarrow> (string \<times> bool) list \<Rightarrow> bool" where
  "returns P orc m v L \<longleftrightarrow> (\<forall>s t. \<exists>u s1. m orc \<lparr>wstate = s, wtrace = t\<rparr> = (Inr v, \<lparr>wstate = s1, wtrace = t @ u\<rparr>) \<and> seen P u = L)"

lemma returnsD:
  assumes "returns P orc m v L"
  obtains u s1 where "m orc \<lparr>wstate = s, wtrace = t\<rparr> = (Inr v, \<lparr>wstate = s1, wtrace = t @ u\<rparr>)" "seen P u = L"
  using assms unfolding returns_def by blast

lemma seen_append [simp]: "seen P (a @ b) = seen P a @ seen P b"
  by (simp add: seen_def)

lemma returns_bind:
  assumes m: "returns P orc m v L" and f: "returns P orc (f v) x K"
  shows "returns P orc (bind_p m f) x (L @ K)"
  unfolding returns_def
proof (intro allI)
  fix s t
  obtain u s1 where u: "m orc \<lparr>wstate = s, wtrace = t\<rparr> = (Inr v, \<lparr>wstate = s1, wtrace = t @ u\<rparr>)" "seen P u = L"
    by (rule returnsD[OF m])
  obtain u2 s2 where "f v orc \<lparr>wstate = s1, wtrace = t @ u\<rparr> = (Inr x, \<lparr>wstate = s2, wtrace = (t @ u) @ u2\<rparr>)" "seen P u2 = K"
    by (rule returnsD[OF f])
  with u show "\<exists>ua s1. bind_p m f orc \<lparr>wstate = s, wtrace = t\<rparr> = (Inr x, \<lparr>wstate = s1, wtrace = t @ ua\<rparr>) \<and> seen P ua = L @ K"
    by (intro exI[of _ "u @ u2"] exI[of _ s2]) (simp add: bind_p_def)
qed

lemmas returns_quiet = returns_bind[where L = "[]", simplified]

lemma returns_try:
  assumes "returns P orc m v L"
  shows "returns P orc (try_catch m h) v L"
  unfolding returns_def
proof (intro allI)
  fix s t
  obtain u s1 where "m orc \<lparr>wstate = s, wtrace = t\<rparr> = (Inr v, \<lparr>wstate = s1, wtrace = t @ u\<rparr>)" "seen P u = L"
    by (rule returnsD[OF assms])
  then show "\<exists>u s1. try_catch m h orc \<lparr>wstate = s, wtrace = t\<rparr> = (Inr v, \<lparr>wstate = s1, wtrace = t @ u\<rparr>) \<and> seen P u = L"
    by (intro exI[of _ u] exI[of _ s1]) (simp add: try_catch_def)
qed

lemma returns_emit:
  assumes "\<And>a. \<not> P (Ext ''socket.emit'' a)"
  shows "returns P orc (emit ev p) () []"
  unfolding returns_def emit_def try_catch_def do_call_def bind_p_def call_def ret_def Let_def
  using assms by (auto simp: seen_def split: sum.split)

lemma returns_ret: "returns P orc (ret x) x []"
  by (simp add: returns_def ret_def seen_def)

text \<open>A run on answers that succeed: an order from Ethereum to Aptos.\<close>

definition demo_self :: resolver_self where
  "demo_self = \<lparr>chain = \<lparr>escrowAddr = ''0xe'', gaslessEscrowAddr = ''0xg'', layerZeroAdapter = None, gaslessEnv = Some ''0xg'',
       signerAddr = ''0xr'', aptos = \<lparr>accountAddress = JStr ''0xa'', escrowAddress = ''0xm''\<rparr>\<rparr>,
     orderEngineUrl = ''u'', engineEnv = None, ethereumAddress = ''0xr'', aptosAddress = ''0xa'', wethAddress = ''0xw'',
     escrowEnv = Some ''0xe'', permitContract = ''0xp'', portEnv = None,
     me = \<lparr>resolverName = ''Resolver-1'', resolverPort = 8081\<rparr>, lastSubmitted = (\<lambda>_. JUndef)\<rparr>"

definition demo_swap :: swap_order where
  "demo_swap = \<lparr>so_id = JStr ''o'', so_fromChain = JStr ''ETHEREUM'', so_toChain = JStr ''APTOS'', so_fromAmount = JStr ''5'',
     so_minToAmount = JStr ''9'', so_gasless = JUndef, so_gaslessData = JUndef, so_partialFillAllowed = JBool False,
     so_partialFillEnabled = JBool False, so_secretHash = JStr ''0xh''\<rparr>"

definition demo_fill :: jsval where
  "demo_fill = JObj [(''id'', JStr ''f''), (''orderId'', JStr ''o''), (''status'', JStr ''PENDING''), (''amount'', JStr ''9''),
     (''secretHash'', JStr ''0xh'')]"

definition demo_answers :: outside where
  "demo_answers t c =
     (if ext_name c = ''provider.getBalance'' \<or> ext_name c = ''contract.balanceOf'' then Inr (JBig 7)
      else if ext_name c = ''aptos.account.getAccountInfo'' then Inr (JObj [(''sequence_number'', JBig 4)])
      else if ext_name c = ''aptos.view'' then Inr (JArr [JBool True])
      else if ext_name c = ''ethers.keccak256'' then Inr (JStr ''0xk'')
      else Inr (JObj [(''hash'', JStr ''0xt''), (''success'', JBool True)]))"

definition demo_world :: "resolver_state world" where
  "demo_world = \<lparr>wstate = \<lparr>isProcessing = [], activeOrders = [], monitoringFills = [(JStr ''0xd'', demo_fill)], fillSecrets = [],
     processedEvents = [], pendingSecretReveals = [(JStr ''o'', \<lparr>pd_order = demo_swap, pd_fill = demo_fill,
       sourceEscrowId = JStr ''0xs'', destinationEscrowId = JStr ''0xd''\<rparr>)], lastBalances = [],
     prices = \<lparr>cache = [], requests = []\<rparr>, timers = []\<rparr>, wtrace = []\<rparr>"

lemmas demo_defs = demo_self_def demo_swap_def demo_fill_def demo_world_def demo_answers_def

theorem completeSwap_source_first_witness:
  "let (r, w1) = completeSwap demo_self demo_swap demo_fill (JStr ''x'') (JStr ''0xs'') (JStr ''0xd'') demo_answers demo_world
   in r = Inr () \<and> monitoringFills (wstate w1) = [] \<and>
     map ext_name (filter is_withdrawal (map fst (wtrace w1))) = [''contract.withdraw'', ''aptos.transaction.submit.simple''] \<and>
     (\<exists>pre post. wtrace w1 = wtrace demo_world @ pre @ post \<and> length (filter is_withdrawal (map fst pre)) \<le> 3 \<and>
       (\<forall>c\<in>set pre. \<not> is_reveal (fst c)) \<and>
       (post = [] \<or> (\<exists>(wa :: resolver_state world) wb tx.
          withdraw_source demo_self demo_swap (JStr ''x'') (JStr ''0xs'') demo_answers wa = (Inr tx, wb) \<and>
          wtrace wb = wtrace demo_world @ pre)))"
proof -
  have "let (r, w1) = completeSwap demo_self demo_swap demo_fill (JStr ''x'') (JStr ''0xs'') (JStr ''0xd'') demo_answers demo_world
     in r = Inr () \<and> monitoringFills (wstate w1) = [] \<and>
       map ext_name (filter is_withdrawal (map fst (wtrace w1))) = [''contract.withdraw'', ''aptos.transaction.submit.simple'']"
    by (simp add: flow_eval demo_defs is_withdrawal_def)
  then show ?thesis
    using completeSwap_source_first[of demo_self demo_swap demo_fill "JStr ''x''" "JStr ''0xs''" "JStr ''0xd''" demo_answers demo_world]
    by (auto simp: Let_def split: prod.splits)
qed

lemma bind_call:
  "bind_p (call n a) f orc w =
     (case orc (wtrace w) (Ext n a) of
        Inl e \<Rightarrow> (Inl e, w\<lparr>wtrace := wtrace w @ [(Ext n a, Inl e)]\<rparr>)
      | Inr v \<Rightarrow> f v orc (w\<lparr>wtrace := wtrace w @ [(Ext n a, Inr v)]\<rparr>))"
  by (simp add: bind_p_def call_def Let_def split: sum.split)

lemma bind_get: "bind_p get_st f orc w = f (wstate w) orc w"
  by (simp add: bind_p_def get_st_def)

abbreviation pend :: "resolver_state world \<Rightarrow> (jsval, pending_swap) jsmap" where
  "pend w \<equiv> pendingSecretReveals (wstate w)"

lemma completeSwap_keeps_pending: "completeSwap self order fill x src dest orc w = (r, w1) \<Longrightarrow> pend w1 = pend w"
  using keepsD[OF keeps_completion[of "\<lambda>s. pendingSecretReveals s = pend w" self order fill x src dest]] by force

lemma complete_then_forget:
  assumes "bind_p (completeSwap self order fill x src dest) (\<lambda>_. forget_pending k) orc w = (r, w1)"
  shows "pend w1 = pend w \<or> (\<exists>wb. r = Inr () \<and> completeSwap self order fill x src dest orc w = (Inr (), wb) \<and>
    pend w1 = map_remove (pend w) k)"
  using assms completeSwap_keeps_pending[of self order fill x src dest orc w]
  by (auto simp: bind_p_def forget_pending_def upd_st_def split: prod.splits sum.splits)

lemma reveal_full_pending:
  assumes "reveal_full self data k secretText orc w = (r, w1)"
  shows "pend w1 = pend w \<or> (\<exists>p fill secret dest wa wb. r = Inr () \<and> map_get (pend w) k = Some p \<and>
    completeSwap self (pd_order p) fill secret (sourceEscrowId p) dest orc wa = (Inr (), wb) \<and> pend w1 = map_remove (pend w) k)"
proof (cases "map_get (pend w) k")
  case (Some p)
  then show ?thesis using assms
    by (auto simp: reveal_full_def bind_get bind_call bind_prop ret_def split: sum.splits if_splits
          dest!: complete_then_forget) (blast+)?
qed (use assms in \<open>simp add: reveal_full_def bind_get ret_def\<close>)

lemma reveal_partial_pending:
  assumes "reveal_partial self data k secretText i orc w = (r, w1)"
  shows "pend w1 = pend w \<or> (\<exists>p fill secret dest wa wb. r = Inr () \<and> map_get (pend w) k = Some p \<and>
    completeSwap self (pd_order p) fill secret (sourceEscrowId p) dest orc wa = (Inr (), wb) \<and> pend w1 = map_remove (pend w) k)"
proof (cases "map_get (pend w) k")
  case (Some p)
  then show ?thesis using assms
    by (auto simp: reveal_partial_def bind_get bind_call bind_prop ret_def split: sum.splits if_splits option.splits prod.splits
          dest!: complete_then_forget) (blast+)?
next
  case None
  have "pend w1 = pend w" if "bind_p (prop_p data ''fillPercentage'') (\<lambda>pct. emit e (f pct)) orc w = (r, w1)" for e f
    using that by (rule keepsD[where I = "\<lambda>s. pendingSecretReveals s = pend w", rotated]) (simp, intro keep_rules)
  then show ?thesis using assms None
    by (auto simp: reveal_partial_def bind_get ret_def split: if_splits option.splits prod.splits)
qed


definition demo_reveal :: jsval where
  "demo_reveal = JObj [(''orderId'', JStr ''o''), (''secret'', JStr ''x''), (''secretHash'', JStr ''0xk'')]"


subsection \<open>Silent programs\<close>

text \<open>\<open>silent I P m\<close>: from a state with \<open>I\<close>, a run of \<open>m\<close> makes no call that satisfies \<open>P\<close>, and \<open>I\<close> holds after it.\<close>

definition silent :: "('s \<Rightarrow> bool) \<Rightarrow> (ext \<Rightarrow> bool) \<Rightarrow> ('s, 'a) prog \<Rightarrow> bool" where
  "silent I P m \<longleftrightarrow> (\<forall>orc w. I (wstate w) \<longrightarrow> I (wstate (snd (m orc w))) \<and>
     (\<exists>new. wtrace (snd (m orc w)) = wtrace w @ new \<and> (\<forall>c\<in>set new. \<not> P (fst c))))"

named_theorems silent_rules

lemma silentI: "keeps I m \<Longrightarrow> costs P 0 m \<Longrightarrow> silent I P m"
  unfolding silent_def using keepsD[of I m] costs_0D[of P m] by (metis prod.collapse)

lemma silentD:
  "silent I P m \<Longrightarrow> m orc w = (r, w1) \<Longrightarrow> I (wstate w) \<Longrightarrow>
   I (wstate w1) \<and> (\<exists>new. wtrace w1 = wtrace w @ new \<and> (\<forall>c\<in>set new. \<not> P (fst c)))"
  unfolding silent_def by (metis snd_conv)

lemma silent_bind_result:
  assumes "silent I P m" "\<And>orc w x w1. I (wstate w) \<Longrightarrow> m orc w = (Inr x, w1) \<Longrightarrow> Q x" "\<And>x. Q x \<Longrightarrow> silent I P (f x)"
  shows "silent I P (bind_p m f)"
  unfolding silent_def
proof (intro allI impI)
  fix orc :: outside and w :: "'a world"
  assume I: "I (wstate w)"
  obtain r w1 where m: "m orc w = (r, w1)" by fastforce
  obtain new where n: "I (wstate w1)" "wtrace w1 = wtrace w @ new" "\<forall>c\<in>set new. \<not> P (fst c)"
    using silentD[OF assms(1) m I] by blast
  show "I (wstate (snd (bind_p m f orc w))) \<and>
    (\<exists>new. wtrace (snd (bind_p m f orc w)) = wtrace w @ new \<and> (\<forall>c\<in>set new. \<not> P (fst c)))"
  proof (cases r)
    case (Inr x)
    obtain q w2 where f: "f x orc w1 = (q, w2)" by fastforce
    have "silent I P (f x)" using assms(2,3) I m Inr by blast
    from silentD[OF this f n(1)] show ?thesis using n m Inr f by (force simp: bind_p_def)
  qed (use n m in \<open>auto simp: bind_p_def\<close>)
qed

lemma silent_bind [silent_rules]: "silent I P m \<Longrightarrow> (\<And>x. silent I P (f x)) \<Longrightarrow> silent I P (bind_p m f)"
  by (rule silent_bind_result[where Q = "\<lambda>_. True"]) simp_all

lemma silent_try [silent_rules]:
  assumes "silent I P m" "\<And>e. silent I P (h e)" shows "silent I P (try_catch m h)"
  unfolding silent_def
proof (intro allI impI)
  fix orc :: outside and w :: "'a world"
  assume I: "I (wstate w)"
  obtain r w1 where m: "m orc w = (r, w1)" by fastforce
  obtain new where n: "I (wstate w1)" "wtrace w1 = wtrace w @ new" "\<forall>c\<in>set new. \<not> P (fst c)"
    using silentD[OF assms(1) m I] by blast
  show "I (wstate (snd (try_catch m h orc w))) \<and>
    (\<exists>new. wtrace (snd (try_catch m h orc w)) = wtrace w @ new \<and> (\<forall>c\<in>set new. \<not> P (fst c)))"
  proof (cases r)
    case (Inl e)
    obtain q w2 where f: "h e orc w1 = (q, w2)" by fastforce
    from silentD[OF assms(2) f n(1)] show ?thesis using n m Inl f by (force simp: try_catch_def)
  qed (use n m in \<open>auto simp: try_catch_def\<close>)
qed

lemma silent_if [silent_rules]: "silent I P a \<Longrightarrow> silent I P b \<Longrightarrow> silent I P (if c then a else b)"
  by simp

lemma silent_basic [silent_rules]:
  "silent I P (ret x)" "silent I P (raise e)" "silent I P get_st" "silent I P (prop_p v k)"
  "\<not> P (Ext n a) \<Longrightarrow> silent I P (call n a)" "\<not> P (Ext n a) \<Longrightarrow> silent I P (do_call n a)"
  by (intro silentI keep_rules cost_rules; assumption?)+

lemma silent_seq [silent_rules]: "(\<And>m. m \<in> set ms \<Longrightarrow> silent I P m) \<Longrightarrow> silent I P (seq_u ms)"
  by (induction ms) (auto intro!: silent_bind silent_basic)

lemma silent_upd [silent_rules]: "(\<And>s. I s \<Longrightarrow> I (f s)) \<Longrightarrow> silent I P (upd_st f)"
  by (intro silentI keep_rules cost_rules)

lemma silent_case_option [silent_rules]:
  "silent I P n \<Longrightarrow> (\<And>x. silent I P (f x)) \<Longrightarrow> silent I P (case v of None \<Rightarrow> n | Some x \<Rightarrow> f x)"
  by (cases v) simp_all

lemma silent_case_prod [silent_rules]: "(\<And>x y. silent I P (f x y)) \<Longrightarrow> silent I P (case p of (x, y) \<Rightarrow> f x y)"
  by (cases p) simp

text \<open>Without a stored secret the handler of a source escrow stops before any withdrawal.\<close>

abbreviation no_secrets :: "resolver_state \<Rightarrow> bool" where
  "no_secrets s \<equiv> fillSecrets s = []"

lemma no_secret_found:
  "no_secrets (wstate w) \<Longrightarrow> swap_getSecretForFill fill orc w = (Inr x, w1) \<Longrightarrow> x = JNull"
  by (auto simp: swap_getSecretForFill_def bind_get bind_prop js_or_def opt_val_def ret_def split: sum.splits)

lemma silent_set_status [silent_rules]: "silent I is_withdrawal (set_status self fill st extra)"
  by (intro silentI keep_rules set_status_quiet)

lemma silent_handleSource [silent_rules]: "silent no_secrets is_withdrawal (handleSourceEscrowCreated self fill src)"
proof -
  have s: "silent no_secrets is_withdrawal (swap_getSecretForFill fill)"
    unfolding swap_getSecretForFill_def by (intro silent_rules)
  have t: "silent no_secrets is_withdrawal (sleep 15000)"
    by (intro silentI keep_rules cost_rules) (simp add: is_withdrawal_def)
  have stop: "silent no_secrets is_withdrawal
    (bind_p (swap_getSecretForFill fill) (\<lambda>secret. if \<not> truthy secret then raise e else k secret))" for e and k :: "jsval \<Rightarrow> unit flow"
    by (rule silent_bind_result[OF s, where Q = "\<lambda>x. x = JNull"]) (auto dest: no_secret_found intro: silent_rules)
  show ?thesis
    unfolding handleSourceEscrowCreated_def
    by (intro silent_try stop silent_bind[OF silent_basic(4)] silent_bind[OF silent_set_status] silent_bind[OF t]
          silent_if silent_basic silent_set_status)
qed

lemma silent_poll_event: "silent no_secrets is_withdrawal (poll_event self event)"
proof -
  have f: "silent no_secrets is_withdrawal (formatEther v)" for v
    by (intro silentI keep_rules) (auto simp: formatEther_def is_withdrawal_def intro: cost_rules)
  show ?thesis
    unfolding poll_event_def Let_def
    by (auto split: jsval.split option.split list.split intro!: silent_rules f)
qed

lemma silent_poll: "silent no_secrets is_withdrawal (poll_escrows self)"
  unfolding poll_escrows_def
  by (auto split: option.split jsval.split intro!: silent_rules silent_poll_event simp: is_withdrawal_def)

definition demo_event :: jsval where
  "demo_event = JObj [(''blockNumber'', JNum (Fin 5)), (''transactionIndex'', JNum (Fin 0)),
     (''args'', JArr [JStr ''0xs'', JStr ''0xu'', JStr ''0xr'', JStr ''0xw'', JBig 5, JStr ''0xh'', JNum (Fin 9)])]"

definition poll_answers :: outside where
  "poll_answers t c = (if ext_name c = ''contract.queryFilter'' then Inr (JArr [demo_event]) else Inr (JNum (Fin 5)))"

end
