(* ===== verification/ResolverFlow.thy ===== *)
theory ResolverFlow
  imports SwapFlow
begin

section \<open>From an order to its escrows\<close>

text \<open>
  The part of \<^verbatim>\<open>ResolverServiceV2\<close> (\<^verbatim>\<open>backend/resolver/src/services/ResolverServiceV2.ts\<close>) that starts a
  swap: the evaluation of an order, its destination escrow, partial fills, the escrows made from a
  signed order, and the events of the socket. The decisions are those of \<open>ResolverPolicy\<close>, the reads
  they depend on are made here, up front. The dates of a fill object are left out, as is a symbol in front of the text of a message.
\<close>

subsection \<open>Reads\<close>

definition attempt :: "('s, 'a) prog \<Rightarrow> ('s, 'a res) prog" where
  "attempt m = try_catch (bind_p m (\<lambda>v. ret (Inr v))) (\<lambda>e. ret (Inl e))"

definition clock :: "('s, jsnum) prog" where
  "clock = bind_p (call ''Date.now'' []) (\<lambda>v. ret (num_of v))"

definition clock_seconds :: "('s, jsnum) prog" where
  "clock_seconds = bind_p clock (\<lambda>now. ret (js_floor (js_div now (Fin 1000))))"

text \<open>\<^verbatim>\<open>Math.floor(Date.now() / 1000) + 3600\<close>.\<close>

definition hour_lock :: "('s, jsnum) prog" where
  "hour_lock = bind_p clock_seconds (\<lambda>now. ret (js_add now (Fin 3600)))"

definition ms_of :: "jsnum \<Rightarrow> int" where
  "ms_of x = (case x of Fin q \<Rightarrow> \<lfloor>q\<rfloor> | _ \<Rightarrow> 0)"

text \<open>The answer of the price API, and the rate the price service makes of it.\<close>

definition price_data :: "jsval \<Rightarrow> (string \<Rightarrow> jsnum option) res" where
  "price_data response =
     bind_res (get_prop response ''data'') (\<lambda>data.
     bind_res (get_prop data ''ethereum'') (\<lambda>_.
     Inr (\<lambda>tokenId. case opt_prop (opt_prop data tokenId) ''usd'' of JNum x \<Rightarrow> Some x | _ \<Rightarrow> None)))"

definition wants_fetch :: "int \<Rightarrow> string \<Rightarrow> string \<Rightarrow> price_service \<Rightarrow> bool" where
  "wants_fetch now a b p \<longleftrightarrow> (a, b) \<in> {(''ETH'', ''APT''), (''APT'', ''ETH'')} \<and>
     (case map_get (cache p) (toUpperCase a @ ''/'' @ toUpperCase b) of Some entry \<Rightarrow> \<not> fresh now entry | None \<Rightarrow> True)"

definition quote_rate :: "string \<Rightarrow> string \<Rightarrow> jsnum flow" where
  "quote_rate a b =
     bind_p clock (\<lambda>now. bind_p get_st (\<lambda>s.
     bind_p (if wants_fetch (ms_of now) a b (prices s) then attempt (call ''axios.get'' [JStr a, JStr b])
             else ret (Inl (Error ''''))) (\<lambda>answer.
     bind_p (if wants_fetch (ms_of now) a b (prices s) then clock else ret now) (\<lambda>later.
     let (r, p) = getExchangeRate (\<lambda>_. bind_res answer price_data) (ms_of now) (ms_of later) a b (prices s)
     in bind_p (upd_st (\<lambda>s. s\<lparr>prices := p\<rparr>)) (\<lambda>_. ret r)))))"

definition getDestinationBalance :: "resolver_self \<Rightarrow> Order \<Rightarrow> ('s, int) prog" where
  "getDestinationBalance self order =
     (case toChain order of
        ETHEREUM \<Rightarrow> getEthereumBalance (ethereumAddress self) (Some (toToken order))
      | APTOS \<Rightarrow> bind_p (getAptosBalance (aptosAddress self)) (\<lambda>b. lift_res (bigint_of_num b)))"

definition env_text :: "string option \<Rightarrow> string" where
  "env_text v = (case v of None \<Rightarrow> ''undefined'' | Some t \<Rightarrow> t)"

definition read_fill_state :: "resolver_self \<Rightarrow> string \<Rightarrow> ('s, jsval) prog" where
  "read_fill_state self orderId =
     bind_p (attempt (call ''axios.get'' [JStr (env_text (engineEnv self) @ ''/api/orders/'' @ orderId)])) (\<lambda>response.
     ret (getCurrentFillPercentage response))"

definition optimal_fill_percentage :: "resolver_self \<Rightarrow> Order \<Rightarrow> ('s, jsnum) prog" where
  "optimal_fill_percentage self order =
     bind_p (attempt (getDestinationBalance self order)) (\<lambda>balance.
     bind_p (read_fill_state self (order_id order)) (\<lambda>current.
     bind_p clock_seconds (\<lambda>t1. bind_p clock_seconds (\<lambda>t2.
     ret (calculateOptimalFillPercentage (me self) balance (num_of current) t1 t2 order)))))"

text \<open>Formatted amounts, for the comparison of the quoted with the required output.\<close>

definition format_text :: "string \<Rightarrow> ('s, string) prog" where
  "format_text amount = bind_p (call ''ethers.formatEther'' [JStr amount]) (\<lambda>v. ret (to_string v))"

definition check_profitability :: "resolver_self \<Rightarrow> Order \<Rightarrow> bool flow" where
  "check_profitability self order =
     bind_p (attempt (quote_rate (map_token (wethAddress self) (fromToken order)) (map_token (wethAddress self) (toToken order)))) (\<lambda>quoted.
     bind_p (if fromChain order = ETHEREUM then attempt (format_text (fromAmount order)) else ret (Inr '''')) (\<lambda>a.
     bind_p (if toChain order = ETHEREUM then attempt (format_text (minToAmount order)) else ret (Inr '''')) (\<lambda>b.
     ret (checkProfitability (\<lambda>amount. if fromChain order = ETHEREUM \<and> amount = fromAmount order then a else b) (wethAddress self) (\<lambda>_ _. quoted) order))))"

definition aptos_view_balance :: "resolver_self \<Rightarrow> ('s, string option) prog" where
  "aptos_view_balance self =
     bind_p (call ''fetch'' [JStr ''0x1::coin::balance'', JStr ''0x1::aptos_coin::AptosCoin'', JStr (aptosAddress self)]) (\<lambda>response.
     bind_p (prop_p response ''ok'') (\<lambda>ok.
     if truthy ok then
       bind_p (call ''response.json'' [response]) (\<lambda>answer.
       bind_p (prop_p answer ''0'') (\<lambda>_.
       ret (Some (case answer of JArr (v # vs) \<Rightarrow> if truthy v then to_string v else ''0'' | _ \<Rightarrow> ''0''))))
     else ret None))"

definition check_balance :: "resolver_self \<Rightarrow> Order \<Rightarrow> ('s, bool) prog" where
  "check_balance self order =
     (if toChain order = ETHEREUM then
        if toToken order = ZeroAddress then
          bind_p (attempt (big_p (call ''provider.getBalance'' [JStr (ethereumAddress self)]))) (\<lambda>native.
          ret (checkBalance native (\<lambda>_. Inr 0) (Inr None) order))
        else
          bind_p (attempt (big_p (call ''contract.balanceOf'' [JStr (toToken order), JStr (ethereumAddress self)]))) (\<lambda>tokens.
          ret (checkBalance (Inr 0) (\<lambda>_. tokens) (Inr None) order))
      else
        bind_p (attempt (aptos_view_balance self)) (\<lambda>apt. ret (checkBalance (Inr 0) (\<lambda>_. Inr 0) apt order)))"

subsection \<open>Partial fills\<close>

definition hash_val :: "Order \<Rightarrow> jsval" where
  "hash_val order = opt_val JStr (secretHash order)"

definition createPartialEthereumEscrow :: "resolver_self \<Rightarrow> Order \<Rightarrow> jsval \<Rightarrow> string \<Rightarrow> ('s, unit) prog" where
  "createPartialEthereumEscrow self order escrowId amount =
     (if gasless order = Some True then formatEther (JStr amount)
      else
        bind_p (do_call ''ethers.getBytes'' [hash_val order]) (\<lambda>_.
        bind_p hour_lock (\<lambda>timelock.
        bind_p (parseEther ''0.000001'') (\<lambda>safetyDeposit.
        bind_p (createEthereumEscrow (chain self) escrowId (receiver order) (toToken order) amount (hash_val order) timelock
          (show_int safetyDeposit) None) (\<lambda>_. ret ())))))"

text \<open>The first branch of the method is disabled by the literal \<^verbatim>\<open>false\<close> in its condition.\<close>

definition createPartialAptosEscrow :: "resolver_self \<Rightarrow> Order \<Rightarrow> jsval \<Rightarrow> string \<Rightarrow> ('s, unit) prog" where
  "createPartialAptosEscrow self order escrowId amount =
     (let text = to_string escrowId;
          hex = (if str_includes text ''-'' then ''0x'' @ filter (\<lambda>c. c \<noteq> CHR ''-'') text
                 else if startsWith text ''0x'' then text else ''0x'' @ text)
      in bind_p (call ''ethers.getBytes'' [JStr hex]) (\<lambda>escrowIdBytes.
         bind_p (call ''ethers.getBytes'' [hash_val order]) (\<lambda>hashlock.
         bind_p hour_lock (\<lambda>timelock.
         bind_p (createAptosEscrow (chain self) escrowIdBytes (aptosAddress self) (receiver order) amount hashlock timelock ''0'') (\<lambda>_.
         ret ())))))"

definition partial_amount :: "string \<Rightarrow> jsnum \<Rightarrow> ('s, string) prog" where
  "partial_amount totalAmount pct =
     bind_p (getBigInt totalAmount) (\<lambda>total. lift_res (calculatePartialAmount (\<lambda>_. Inr total) totalAmount pct))"

text \<open>\<^verbatim>\<open>generatePartialEscrowId\<close> of the resolver.\<close>

definition partial_escrow_id :: "string \<Rightarrow> jsnum \<Rightarrow> ('s, jsval) prog" where
  "partial_escrow_id baseOrderId fillIdx =
     call ''ethers.id'' [JStr (baseOrderId @ ''-partial-'' @ show_num fillIdx)]"

definition partial_fill_data :: "resolver_self \<Rightarrow> Order \<Rightarrow> string \<Rightarrow> jsnum \<Rightarrow> jsnum \<Rightarrow> nat \<Rightarrow> jsnum \<Rightarrow> (string \<times> jsval) list" where
  "partial_fill_data self order amount pct cumulative secretIdx fillIdx =
     [(''resolver'', JStr (ethereumAddress self)), (''amount'', JStr amount), (''secretHash'', hash_val order),
      (''secretIndex'', JNum (Fin (of_nat secretIdx))), (''status'', JStr ''PENDING''), (''fillPercentage'', JNum pct),
      (''cumulativePercentage'', JNum cumulative), (''baseOrderId'', JStr (order_id order)), (''fillIndex'', JNum fillIdx)]"

text \<open>Registering the fill with the engine; the id and the order of its answer replace those of the fill.\<close>

definition register_partial_fill :: "resolver_self \<Rightarrow> string \<Rightarrow> jsval \<Rightarrow> (string \<times> jsval) list \<Rightarrow> ('s, jsval \<times> jsval) prog" where
  "register_partial_fill self orderId escrowId fillData =
     try_catch
       (bind_p (call ''axios.post'' [JStr (env_text (engineEnv self) @ ''/api/orders/'' @ orderId @ ''/fills''),
          JObj (fillData @ [(''destinationEscrowId'', escrowId)])]) (\<lambda>response.
        bind_p (prop_p response ''data'') (\<lambda>d.
        bind_p (prop_p d ''success'') (\<lambda>ok. bind_p (prop_p d ''data'') (\<lambda>created.
        if truthy ok \<and> truthy created then
          bind_p (prop_p created ''id'') (\<lambda>i. bind_p (prop_p created ''orderId'') (\<lambda>o1. ret (i, o1)))
        else ret (escrowId, JStr orderId))))))
       (\<lambda>error. ret (escrowId, JStr orderId))"

definition announce_partial_fill :: "resolver_self \<Rightarrow> Order \<Rightarrow> jsval \<Rightarrow> string \<Rightarrow> jsnum \<Rightarrow> jsnum \<Rightarrow> nat \<Rightarrow> ('s, unit) prog" where
  "announce_partial_fill self order escrowId amount pct cumulative secretIdx =
     bind_p (emit ''partial:fill:created''
       [(''orderId'', JStr (order_id order)), (''fillPercentage'', JNum pct), (''cumulativePercentage'', JNum cumulative),
        (''secretIndex'', JNum (Fin (of_nat secretIdx))), (''partialEscrowId'', escrowId), (''resolver'', JStr (ethereumAddress self))]) (\<lambda>_.
     bind_p hour_lock (\<lambda>timelock.
     bind_p (emit ''escrow:destination:created''
       [(''orderId'', JStr (order_id order)), (''chain'', chain_val (toChain order)), (''escrowId'', escrowId), (''amount'', JStr amount),
        (''secretHash'', hash_val order), (''timelock'', JNum timelock), (''isPartialFill'', JBool True), (''fillPercentage'', JNum pct),
        (''secretIndex'', JNum (Fin (of_nat secretIdx))),
        (''resolverPort'', if present (portEnv self) then JStr (the (portEnv self)) else JNum (Fin 8081))]) (\<lambda>_.
     emit ''order:update''
       [(''orderId'', JStr (order_id order)), (''status'', JStr ''PARTIALLY_FILLED''), (''filledPercentage'', JNum cumulative),
        (''message'', JStr (show_num cumulative @ ''% filled by partial fill''))])))"

definition createPartialEscrows :: "resolver_self \<Rightarrow> Order \<Rightarrow> jsnum \<Rightarrow> nat \<Rightarrow> string \<Rightarrow> string \<Rightarrow> unit flow" where
  "createPartialEscrows self order pct secretIdx partialFromAmount partialToAmount =
     bind_p (read_fill_state self (order_id order)) (\<lambda>current.
     let cumulative = js_add (num_of current) pct;
         fillIdx = js_floor (js_div (num_of current) pct);
         fillData = partial_fill_data self order partialToAmount pct cumulative secretIdx fillIdx
     in bind_p (partial_escrow_id (order_id order) fillIdx) (\<lambda>escrowId.
        bind_p (case toChain order of
            ETHEREUM \<Rightarrow> createPartialEthereumEscrow self order escrowId partialToAmount
          | APTOS \<Rightarrow> createPartialAptosEscrow self order escrowId partialToAmount) (\<lambda>_.
        bind_p (register_partial_fill self (order_id order) escrowId fillData) (\<lambda>(fillId, fillOrder).
        bind_p (upd_st (\<lambda>s. s\<lparr>monitoringFills :=
          map_set (monitoringFills s) escrowId (JObj ((''id'', fillId) # (''orderId'', fillOrder) # fillData))\<rparr>)) (\<lambda>_.
        announce_partial_fill self order escrowId partialToAmount pct cumulative secretIdx)))))"

text \<open>\<^verbatim>\<open>order.maxParts || 4\<close>, and the thresholds made of it.\<close>

definition max_parts :: "Order \<Rightarrow> jsnum" where
  "max_parts order = (case maxParts order of Some m \<Rightarrow> if m = Fin 0 \<or> m = NaN then Fin 4 else m | None \<Rightarrow> Fin 4)"

definition part_thresholds :: "jsnum \<Rightarrow> jsnum list" where
  "part_thresholds parts =
     map (\<lambda>i. js_div (js_mul (Fin (of_nat (i + 1))) (Fin 100)) parts)
       [0..<(case parts of Fin q \<Rightarrow> nat (trunc_rat q) | _ \<Rightarrow> 0)]"

definition handlePartialFillOrder :: "resolver_self \<Rightarrow> Order \<Rightarrow> unit flow" where
  "handlePartialFillOrder self order =
     bind_p (optimal_fill_percentage self order) (\<lambda>pct.
     if pct = Fin 0 then ret ()
     else
       bind_p (partial_amount (fromAmount order) pct) (\<lambda>partialFromAmount.
       bind_p (partial_amount (minToAmount order) pct) (\<lambda>partialToAmount.
       bind_p (formatEther (JStr partialFromAmount)) (\<lambda>_. bind_p (formatEther (JStr partialToAmount)) (\<lambda>_.
       bind_p (read_fill_state self (order_id order)) (\<lambda>current.
       let cumulative = js_add (num_of current) pct;
           secretIdx = getSecretIndex cumulative (part_thresholds (max_parts order))
       in bind_p (createPartialEscrows self order pct secretIdx partialFromAmount partialToAmount) (\<lambda>_.
          when_p (js_lt cumulative (Fin 100))
            (upd_st (\<lambda>s. s\<lparr>timers := timers s @ [RefillTimer order]\<rparr>)))))))))"

subsection \<open>The escrow of a signed gasless order\<close>

definition set_pending :: "jsval \<Rightarrow> swap_order \<Rightarrow> jsval \<Rightarrow> jsval \<Rightarrow> jsval \<Rightarrow> unit flow" where
  "set_pending orderId order fill src dest =
     upd_st (\<lambda>s. s\<lparr>pendingSecretReveals := map_set (pendingSecretReveals s) orderId
       \<lparr>pd_order = order, pd_fill = fill, sourceEscrowId = src, destinationEscrowId = dest\<rparr>\<rparr>)"

definition request_secret :: "jsval \<Rightarrow> ('s, unit) prog" where
  "request_secret orderId = emit ''secret:request''
     [(''orderId'', orderId),
      (''message'', JStr ''Both escrows confirmed on-chain. Please reveal your secret to complete the swap.'')]"

definition mark_processed :: "jsval \<Rightarrow> unit flow" where
  "mark_processed escrowId =
     upd_st (\<lambda>s. s\<lparr>processedEvents := set_add (processedEvents s) (''auto-'' @ to_string escrowId)\<rparr>)"

text \<open>The monitored fill of a gasless escrow with its destination escrow; the order id when there is none.\<close>

definition find_destination :: "swap_order \<Rightarrow> jsval \<Rightarrow> (jsval \<times> jsval) flow" where
  "find_destination order fill =
     bind_p (prop_p fill ''fillPercentage'') (\<lambda>pct.
     bind_p (if pct \<noteq> JUndef then
         bind_p get_st (\<lambda>s.
         ret (case find_entry (\<lambda>_ m. strict_eq (opt_prop m ''orderId'') (so_id order) \<and>
                 strict_eq (opt_prop m ''secretIndex'') (opt_prop fill ''secretIndex'')) (monitoringFills s) of
             Some (escrowId, m) \<Rightarrow> (m, escrowId) | None \<Rightarrow> (fill, JUndef)))
       else
         bind_p (call ''ethers.id'' [JStr (to_string (so_id order) @ ''-dest-'' @ to_string (so_secretHash order))]) (\<lambda>dest.
         bind_p get_st (\<lambda>s.
         ret (case map_get (monitoringFills s) dest of Some m \<Rightarrow> (m, dest) | None \<Rightarrow> (fill, dest))))) (\<lambda>(m, dest).
     ret (m, js_or dest (so_id order))))"

definition meta_tx_params :: "jsval \<Rightarrow> jsval" where
  "meta_tx_params g = JObj (map (\<lambda>k. (k, opt_prop g k))
     [''escrowId'', ''depositor'', ''beneficiary'', ''token'', ''amount'', ''hashlock'', ''timelock'', ''deadline''])"

definition executeGaslessWETHEscrow :: "resolver_self \<Rightarrow> swap_order \<Rightarrow> jsval \<Rightarrow> unit flow" where
  "executeGaslessWETHEscrow self order fill =
     (let g = so_gaslessData order
      in if \<not> truthy g then raise (Error ''No gasless data provided'')
         else if \<not> present (gaslessEnv (chain self)) then raise (Error ''Gasless escrow contract not configured'')
         else
           bind_p (prop_p fill ''amount'') (\<lambda>amount.
           bind_p (formatEther amount) (\<lambda>_.
           bind_p (parseEther ''0'') (\<lambda>safetyDeposit.
           bind_p (when_p (is_partial order) (formatEther amount)) (\<lambda>_.
           bind_p (send_tx (the (gaslessEnv (chain self))) ''createEscrowWithMetaTx''
             [meta_tx_params g, opt_prop g ''metaTxV'', opt_prop g ''metaTxR'', opt_prop g ''metaTxS''] [(''value'', JBig safetyDeposit)]) (\<lambda>tx.
           bind_p (prop_p tx ''hash'') (\<lambda>_.
           bind_p (call ''tx.wait'' [tx]) (\<lambda>receipt.
           bind_p (prop_p receipt ''gasUsed'') (\<lambda>gasUsed.
           bind_p (prop_p gasUsed ''toString'') (\<lambda>_.
           bind_p (emit ''escrow:source:created''
             [(''orderId'', so_id order), (''escrowId'', js_or (opt_prop fill ''actualEscrowId'') (opt_prop g ''escrowId'')),
              (''chain'', JStr ''ETHEREUM''), (''amount'', amount), (''txHash'', opt_prop receipt ''hash''), (''gasless'', JBool True)]) (\<lambda>_.
           bind_p (mark_processed (opt_prop g ''escrowId'')) (\<lambda>_.
           bind_p (request_secret (so_id order)) (\<lambda>_.
           bind_p (find_destination order fill) (\<lambda>(m, dest).
           set_pending (so_id order) order m (opt_prop g ''escrowId'') dest))))))))))))))"

subsection \<open>The destination escrow\<close>

definition ensure_approval :: "resolver_self \<Rightarrow> Order \<Rightarrow> ('s, unit) prog" where
  "ensure_approval self order =
     when_p (toChain order = ETHEREUM \<and> toToken order \<noteq> ZeroAddress)
       (try_catch
         (bind_p (big_p (getAllowance (wethAddress self) (ethereumAddress self) (env_text (escrowEnv self)))) (\<lambda>currentAllowance.
          bind_p (formatEther (JBig currentAllowance)) (\<lambda>_.
          bind_p (parseEther ''100'') (\<lambda>wanted.
          when_p (currentAllowance < wanted)
            (bind_p (parseEther ''100'') (\<lambda>allowance.
             bind_p (send_tx (wethAddress self) ''approve'' [JStr (env_text (escrowEnv self)), JBig allowance] []) (\<lambda>approveTx.
             bind_p (receipt_hash approveTx) (\<lambda>_. sleep 5000))))))))
         (\<lambda>error. ret ()))"

definition output_amount :: "resolver_self \<Rightarrow> Order \<Rightarrow> string flow" where
  "output_amount self order =
     bind_p (quote_rate (map_token (wethAddress self) (fromToken order)) (map_token (wethAddress self) (toToken order))) (\<lambda>exchangeRate.
     bind_p (if fromChain order = ETHEREUM then format_text (fromAmount order)
             else ret (show_num (js_div (js_parseInt (fromAmount order)) (Fin 100000000)))) (\<lambda>fromAmountFormatted.
     let outputAmount = calculateOutputAmount fromAmountFormatted exchangeRate True
     in if toChain order = ETHEREUM then
          bind_p (parseEther (to_fixed 18 (js_parseFloat outputAmount))) (\<lambda>n. ret (show_int n))
        else ret (show_num (js_floor (js_mul (js_parseFloat outputAmount) (Fin 100000000))))))"

definition order_hash :: "Order \<Rightarrow> ('s, jsval) prog" where
  "order_hash order =
     (if present (secretHash order) then ret (hash_val order)
      else bind_p (call ''ethers.randomBytes'' [JNum (Fin 32)]) (\<lambda>bytes. call ''ethers.keccak256'' [bytes]))"

text \<open>\<^verbatim>\<open>{...fill, key: value}\<close>.\<close>

fun with_prop :: "jsval \<Rightarrow> string \<Rightarrow> jsval \<Rightarrow> jsval" where
  "with_prop (JObj ps) k v = JObj (AList.update k v ps)"
| "with_prop _ k v = JObj [(k, v)]"

text \<open>The funds of the destination escrow are the resolver's, its beneficiary is the receiver of the order.\<close>

definition create_destination :: "resolver_self \<Rightarrow> Order \<Rightarrow> jsval \<Rightarrow> string \<Rightarrow> jsval \<Rightarrow> jsnum \<Rightarrow> string \<Rightarrow> ('s, jsval) prog" where
  "create_destination self order escrowId fillAmount hash timelock safetyDeposit =
     (case toChain order of
        ETHEREUM \<Rightarrow>
          bind_p (getEthereumBalance (ethereumAddress self) (Some (toToken order))) (\<lambda>currentBalance.
          bind_p (formatEther (JBig currentBalance)) (\<lambda>_. bind_p (formatEther (JStr fillAmount)) (\<lambda>_.
          bind_p (lift_res (js_BigInt fillAmount)) (\<lambda>needed.
          if currentBalance < needed then
            raise (Error (''Insufficient '' @ (if toToken order = ZeroAddress then ''ETH'' else ''token'') @ '' balance for escrow''))
          else createEthereumEscrow (chain self) escrowId (receiver order) (toToken order) fillAmount hash timelock safetyDeposit None))))
      | APTOS \<Rightarrow>
          bind_p (call ''ethers.getBytes'' [escrowId]) (\<lambda>escrowIdBytes.
          bind_p (call ''ethers.getBytes'' [hash]) (\<lambda>hashlock.
          createAptosEscrow (chain self) escrowIdBytes (aptosAddress self) (receiver order) fillAmount hashlock timelock safetyDeposit)))"

subsection \<open>The source escrow the resolver makes itself\<close>

definition has_permit :: "Order \<Rightarrow> bool" where
  "has_permit order \<longleftrightarrow> permit order \<noteq> None \<and> present (permitSignature order)"

definition is_weth_order :: "resolver_self \<Rightarrow> Order \<Rightarrow> bool" where
  "is_weth_order self order \<longleftrightarrow> fromChain order = ETHEREUM \<and> toLowerCase (fromToken order) = toLowerCase (wethAddress self)"

definition is_apt_order :: "Order \<Rightarrow> bool" where
  "is_apt_order order \<longleftrightarrow> fromChain order = APTOS \<and> fromToken order = ''0x1::aptos_coin::AptosCoin''"

text \<open>An APT escrow needs the user; the method only prints.\<close>

definition createSourceEscrowForAPT :: "Order \<Rightarrow> jsval \<Rightarrow> ('s, unit) prog" where
  "createSourceEscrowForAPT order fill = ret ()"

definition auto_source :: "resolver_self \<Rightarrow> Order \<Rightarrow> jsval \<Rightarrow> jsval \<Rightarrow> jsval \<Rightarrow> jsnum \<Rightarrow> unit flow" where
  "auto_source self order fill hash escrowId timelock =
     try_catch
       (bind_p (call ''ethers.id'' [JStr (order_id order @ ''-source-'' @ to_string hash)]) (\<lambda>src.
        bind_p (createEthereumEscrowFor (chain self) src (maker order) (ethereumAddress self) (fromToken order)
          (fromAmount order) hash timelock) (\<lambda>sourceTxHash.
        bind_p (emit ''escrow:source:created''
          [(''orderId'', JStr (order_id order)), (''escrowId'', src), (''chain'', JStr ''ETHEREUM''), (''txHash'', sourceTxHash),
           (''amount'', JStr (fromAmount order))]) (\<lambda>_.
        bind_p (mark_processed src) (\<lambda>_.
        bind_p (request_secret (JStr (order_id order))) (\<lambda>_.
        set_pending (JStr (order_id order)) (view_of order) fill src escrowId))))))
       (\<lambda>error. ret ())"

definition source_step :: "resolver_self \<Rightarrow> Order \<Rightarrow> jsval \<Rightarrow> jsval \<Rightarrow> jsval \<Rightarrow> jsnum \<Rightarrow> unit flow" where
  "source_step self order fill hash escrowId timelock =
     (if is_apt_order order then
        bind_p (createSourceEscrowForAPT order fill) (\<lambda>_.
        when_p (has_permit order) (auto_source self order fill hash escrowId timelock))
      else if is_weth_order self order then
        if gasless order = Some True \<and> gaslessData order \<noteq> None then
          try_catch (executeGaslessWETHEscrow self (view_of order) fill)
            (\<lambda>error. raise (Error (''Gasless WETH escrow failed: '' @ message error)))
        else raise (Error ''WETH swaps require gasless flow. Non-gasless WETH orders are not supported.'')
      else if has_permit order \<and> fromChain order = ETHEREUM then
        bind_p (attempt (executePermitTransfer (permitContract self) (the (permit order)) (JStr (the (permitSignature order)))
          (fromToken order) (env_text (escrowEnv self)))) (\<lambda>transferred.
        case transferred of
          Inl error \<Rightarrow> ret ()
        | Inr _ \<Rightarrow> auto_source self order fill hash escrowId timelock)
      else when_p (has_permit order) (auto_source self order fill hash escrowId timelock))"

definition destination_steps :: "resolver_self \<Rightarrow> Order \<Rightarrow> string \<Rightarrow> jsval \<Rightarrow> jsval \<Rightarrow> unit flow" where
  "destination_steps self order fillAmount hash fill =
     bind_p (call ''ethers.id'' [JStr (order_id order @ ''-dest-'' @ to_string hash)]) (\<lambda>escrowId.
     bind_p hour_lock (\<lambda>timelock.
     bind_p (parseEther ''0.000001'') (\<lambda>safetyDeposit.
     bind_p (create_destination self order escrowId fillAmount hash timelock (show_int safetyDeposit)) (\<lambda>destTxHash.
     bind_p (prop_p fill ''id'') (\<lambda>fillId.
     bind_p (updateFillStatus self (JStr (order_id order)) fillId ''DESTINATION_CREATED''
       [(''destTxHash'', destTxHash), (''destinationEscrowId'', escrowId)]) (\<lambda>_.
     bind_p (upd_st (\<lambda>s. s\<lparr>monitoringFills :=
       map_set (monitoringFills s) escrowId (with_prop fill ''destinationEscrowId'' escrowId)\<rparr>)) (\<lambda>_.
     bind_p (emit ''escrow:destination:created''
       [(''orderId'', JStr (order_id order)), (''escrowId'', escrowId), (''chain'', chain_val (toChain order)), (''txHash'', destTxHash),
        (''secretHash'', hash), (''timelock'', JNum timelock), (''amount'', JStr fillAmount), (''isPartialFill'', JBool False),
        (''fillRatio'', JNum (Fin 1))]) (\<lambda>_.
     source_step self order fill hash escrowId timelock))))))))"

definition destination_failed :: "resolver_self \<Rightarrow> Order \<Rightarrow> jsval \<Rightarrow> js_error \<Rightarrow> ('s, unit) prog" where
  "destination_failed self order fill error =
     bind_p (emit ''order:error''
       [(''orderId'', JStr (order_id order)), (''error'', JStr ''Failed to create destination escrow''), (''details'', JStr (message error)),
        (''reason'', JStr (if str_includes (message error) ''insufficient'' then ''Resolver has insufficient WETH balance''
          else ''Escrow creation failed''))]) (\<lambda>_.
     bind_p (when_p (truthy fill) (bind_p (prop_p fill ''id'') (\<lambda>fillId.
       updateFillStatus self (JStr (order_id order)) fillId ''FAILED'' []))) (\<lambda>_.
     raise error))"

definition createDestinationEscrow :: "resolver_self \<Rightarrow> Order \<Rightarrow> unit flow" where
  "createDestinationEscrow self order =
     bind_p (ensure_approval self order) (\<lambda>_.
     bind_p (output_amount self order) (\<lambda>fillAmount.
     bind_p (order_hash order) (\<lambda>hash.
     bind_p (attempt (createFill self (order_id order)
       [(''resolver'', JStr (if toChain order = ETHEREUM then ethereumAddress self else aptosAddress self)),
        (''amount'', JStr fillAmount), (''secretHash'', hash), (''secretIndex'', JNum (Fin 0)), (''merkleIndex'', JNum (Fin 0)),
        (''status'', JStr ''PENDING'')])) (\<lambda>created.
     case created of
       Inl error \<Rightarrow> destination_failed self order JUndef error
     | Inr fill \<Rightarrow>
         try_catch (destination_steps self order fillAmount hash fill) (destination_failed self order fill)))))"

subsection \<open>A new order\<close>

text \<open>The balances shown when an order fails for lack of funds; their errors are dropped.\<close>

definition show_balances :: "resolver_self \<Rightarrow> Order \<Rightarrow> js_error \<Rightarrow> ('s, unit) prog" where
  "show_balances self order error =
     when_p (str_includes (message error) ''Insufficient'' \<or> str_includes (message error) ''balance'')
       (try_catch
         (bind_p (getEthereumBalance (ethereumAddress self) (Some (toToken order))) (\<lambda>wethBalance.
          bind_p (call ''provider.getBalance'' [JStr (ethereumAddress self)]) (\<lambda>ethBalance.
          seq_u [formatEther ethBalance, formatEther (JBig wethBalance),
            formatEther (JStr (if toChain order = ETHEREUM then minToAmount order else ''0''))])))
         (\<lambda>_. ret ()))"

definition isProcessing_delete :: "Order \<Rightarrow> unit flow" where
  "isProcessing_delete order = upd_st (\<lambda>s. s\<lparr>isProcessing := set_remove (isProcessing s) (order_id order)\<rparr>)"

definition take_order :: "resolver_self \<Rightarrow> Order \<Rightarrow> unit flow" where
  "take_order self order =
     bind_p (check_profitability self order) (\<lambda>isProfitable.
     if \<not> isProfitable then ret ()
     else
       bind_p (check_balance self order) (\<lambda>hasSufficientBalance.
       if \<not> hasSufficientBalance then ret ()
       else
         bind_p (track_balances self) (\<lambda>_.
         bind_p (createDestinationEscrow self order) (\<lambda>_.
         track_balances self))))"

text \<open>
  The promise of a partial fill is returned, not awaited: the clause \<^verbatim>\<open>finally\<close> runs at its first await,
  before the fill is made, and the catch clause does not see its errors.
\<close>

definition handleNewOrder :: "resolver_self \<Rightarrow> Order \<Rightarrow> unit flow" where
  "handleNewOrder self order =
     bind_p get_st (\<lambda>s.
     if order_id order \<in> set (isProcessing s) then ret ()
     else
       bind_p (upd_st (\<lambda>s. s\<lparr>isProcessing := set_add (isProcessing s) (order_id order),
         activeOrders := map_set (activeOrders s) (JStr (order_id order)) order\<rparr>)) (\<lambda>_.
       if partialFillAllowed order \<or> partialFillEnabled order \<or> (fromChain order = APTOS \<and> toChain order = ETHEREUM) then
         bind_p (isProcessing_delete order) (\<lambda>_. handlePartialFillOrder self order)
       else
         finally_p (try_catch (take_order self order) (show_balances self order)) (isProcessing_delete order)))"

subsection \<open>Signed orders\<close>

text \<open>Hexadecimal text of bytes.\<close>

definition hex_digit :: "nat \<Rightarrow> char" where
  "hex_digit d = (if d < 10 then digit_char d else char_of (87 + d))"

function hex_nat :: "nat \<Rightarrow> string" where
  "hex_nat n = (if n < 16 then [hex_digit n] else hex_nat (n div 16) @ [hex_digit (n mod 16)])"
  by auto
termination by (relation "measure id") auto

text \<open>\<^verbatim>\<open>'0x' + v.map(b => b.toString(16).padStart(2, '0')).join('')\<close> of an array of natural numbers.\<close>

fun byte_text :: "jsval \<Rightarrow> string res" where
  "byte_text (JNum (Fin x)) = Inr (pad_zeros 2 (hex_nat (nat \<lfloor>x\<rfloor>)))"
| "byte_text _ = Inl (TypeError ''b.toString is not a function'')"

fun texts :: "string res list \<Rightarrow> string res" where
  "texts [] = Inr ''''"
| "texts (r # rs) = bind_res r (\<lambda>t. bind_res (texts rs) (\<lambda>u. Inr (t @ u)))"

definition hex_of_bytes :: "jsval \<Rightarrow> jsval res" where
  "hex_of_bytes v =
     (case v of JArr xs \<Rightarrow> bind_res (texts (map byte_text xs)) (\<lambda>t. Inr (JStr (''0x'' @ t)))
      | _ \<Rightarrow> Inl (TypeError ''escrow_id.map is not a function''))"

text \<open>\<^verbatim>\<open>'0x' + Buffer.from(v).toString('hex')\<close>.\<close>

definition buffer_hex :: "jsval \<Rightarrow> jsval res" where
  "buffer_hex v = hex_of_bytes (uint8array v)"

definition monitored_of :: "resolver_state \<Rightarrow> jsval \<Rightarrow> jsval option" where
  "monitored_of s orderId =
     map_option snd (find_entry (\<lambda>_ fill. strict_eq (opt_prop fill ''orderId'') orderId) (monitoringFills s))"

text \<open>\<^verbatim>\<open>parseInt(byte, 16)\<close> on the pairs of digits of a key or a signature.\<close>

fun pairs :: "string \<Rightarrow> string list" where
  "pairs [] = []"
| "pairs [c] = [[c]]"
| "pairs (c # d # cs) = [c, d] # pairs cs"

definition hex_byte :: "string \<Rightarrow> jsval" where
  "hex_byte t = (case digits_prefix 16 0 0 t of (n, k, _) \<Rightarrow> JNum (Fin (of_int n)))"

definition key_bytes :: "jsval \<Rightarrow> jsval res" where
  "key_bytes v =
     (case v of
        JStr t \<Rightarrow>
          let hex = (if startsWith t ''0x'' then drop 2 t else t)
          in if hex = '''' then Inl (TypeError ''Cannot read properties of null (reading map)'')
             else Inr (JArr (map hex_byte (pairs hex)))
      | _ \<Rightarrow> Inl (TypeError ''startsWith is not a function''))"

definition delegated_arguments :: "jsval \<Rightarrow> jsval \<Rightarrow> jsval \<Rightarrow> jsval res" where
  "delegated_arguments msg pk sg =
     bind_res (get_prop (opt_prop msg ''timelock'') ''toString'') (\<lambda>_.
     bind_res (get_prop (opt_prop msg ''nonce'') ''toString'') (\<lambda>_.
     bind_res (get_prop (opt_prop msg ''expiry'') ''toString'') (\<lambda>_.
     Inr (JArr [opt_prop msg ''escrow_id'', opt_prop msg ''depositor'', opt_prop msg ''beneficiary'', opt_prop msg ''amount'',
       opt_prop msg ''hashlock'', JStr (to_string (opt_prop msg ''timelock'')), JStr (to_string (opt_prop msg ''nonce'')),
       JStr (to_string (opt_prop msg ''expiry'')), JStr ''100000'', pk, sg]))))"

text \<open>The delegated escrow is built for the older module \<^verbatim>\<open>escrow\<close>, signed and paid by the resolver.\<close>

definition submit_delegated :: "resolver_self \<Rightarrow> string \<Rightarrow> jsval \<Rightarrow> ('s, jsval) prog" where
  "submit_delegated self escrowModule args =
     (let a = aptos (chain self)
      in bind_p (call ''aptos.account.getAccountInfo'' [accountAddress a]) (\<lambda>accountInfo.
         bind_p (prop_p accountInfo ''sequence_number'') (\<lambda>seqNo.
         bind_p (lift_res (js_BigInt (to_string seqNo))) (\<lambda>n.
         bind_p (call ''aptos.transaction.build.simple''
           [accountAddress a, JStr (escrowModule @ ''::escrow::create_escrow_delegated''), args, JBig n]) (\<lambda>txn.
         bind_p (sign_submit a txn) (\<lambda>hash.
         call ''aptos.waitForTransaction'' [hash]))))))"

definition apt_required :: "jsval \<Rightarrow> jsnum" where
  "apt_required msg = js_add (js_parseFloat (to_string (opt_prop msg ''amount''))) (Fin 100000)"

definition delegated_steps :: "resolver_self \<Rightarrow> string \<Rightarrow> Order \<Rightarrow> jsval \<Rightarrow> ('s, unit) prog" where
  "delegated_steps self escrowModule order signedOrder =
     bind_p (getBalance (accountAddress (aptos (chain self)))) (\<lambda>resolverBalance.
     bind_p (prop_p signedOrder ''orderMessage'') (\<lambda>msg.
     bind_p (prop_p msg ''amount'') (\<lambda>_.
     if js_lt (js_parseFloat resolverBalance) (apt_required msg) then
       raise (Error (''Insufficient resolver balance: need '' @ to_fixed 8 (js_div (apt_required msg) (Fin 100000000)) @ '' APT''))
     else
       bind_p (lift_res (key_bytes (opt_prop signedOrder ''publicKey''))) (\<lambda>pk.
       bind_p (lift_res (key_bytes (opt_prop signedOrder ''signature''))) (\<lambda>sg.
       bind_p (lift_res (delegated_arguments msg pk sg)) (\<lambda>args.
       bind_p (submit_delegated self escrowModule args) (\<lambda>executedTx.
       bind_p (prop_p executedTx ''success'') (\<lambda>ok.
       if truthy ok then
         bind_p (call ''ethers.hexlify'' [uint8array (opt_prop msg ''escrow_id'')]) (\<lambda>createdEscrowId.
         bind_p (if truthy (opt_prop signedOrder ''secretHash'') then ret (opt_prop signedOrder ''secretHash'')
                 else call ''ethers.hexlify'' [uint8array (opt_prop msg ''hashlock'')]) (\<lambda>hash.
         emit ''escrow:source:created''
           [(''orderId'', JStr (order_id order)), (''escrowId'', createdEscrowId), (''chain'', JStr ''APTOS''),
            (''txHash'', opt_prop executedTx ''hash''), (''amount'', JStr (fromAmount order)), (''secretHash'', hash)]))
       else raise (Error (''Failed to create escrow: '' @ to_string (opt_prop executedTx ''vm_status'')))))))))))"

definition handleSignedAptosOrder :: "resolver_self \<Rightarrow> string \<Rightarrow> jsval \<Rightarrow> unit flow" where
  "handleSignedAptosOrder self escrowModule signedOrder =
     bind_p (prop_p signedOrder ''orderId'') (\<lambda>orderId.
     try_catch
       (bind_p get_st (\<lambda>s.
        case map_get (activeOrders s) orderId of
          None \<Rightarrow> ret ()
        | Some order \<Rightarrow>
            if truthy (opt_prop signedOrder ''userFundedTx'') then ret ()
            else if monitored_of s (JStr (order_id order)) = None then ret ()
            else delegated_steps self escrowModule order signedOrder))
       (\<lambda>error. emit ''order:failed''
          [(''orderId'', orderId), (''reason'', JStr ''Failed to create APT escrow''), (''stage'', JStr ''source_escrow_creation'')]))"

subsection \<open>Sponsored and multi-agent transactions\<close>

definition order_error :: "jsval \<Rightarrow> string \<Rightarrow> js_error \<Rightarrow> (string \<times> jsval) list \<Rightarrow> ('s, unit) prog" where
  "order_error orderId text error extra =
     emit ''order:error'' ([(''orderId'', orderId), (''error'', JStr text), (''details'', JStr (message error))] @ extra)"

fun split_dash :: "string \<Rightarrow> string \<Rightarrow> string list" where
  "split_dash acc [] = [rev acc]"
| "split_dash acc (c # cs) = (if c = CHR ''-'' then rev acc # split_dash [] cs else split_dash (c # acc) cs)"

definition part_at :: "string list \<Rightarrow> nat \<Rightarrow> string" where
  "part_at ps i = (if i < length ps then ps ! i else '''')"

text \<open>
  The first version submits nothing: it reports a made-up transaction hash. The order is rebuilt from
  the message when the key of a monitored fill contains its id.
\<close>

definition handleSponsoredAptosOrder :: "resolver_self \<Rightarrow> jsval \<Rightarrow> unit flow" where
  "handleSponsoredAptosOrder self signedOrder =
     bind_p (prop_p signedOrder ''orderId'') (\<lambda>orderId.
     try_catch
       (bind_p get_st (\<lambda>s.
        case find_entry (\<lambda>k _. str_includes (to_string k) (to_string orderId)) (monitoringFills s) of
          None \<Rightarrow> ret ()
        | Some (k, _) \<Rightarrow>
            bind_p (prop_p (opt_prop signedOrder ''orderMessage'') ''depositor'') (\<lambda>_.
            bind_p (do_call ''Date.now'' []) (\<lambda>_.
            bind_p (prop_p (opt_prop signedOrder ''sponsoredTransaction'') ''rawTransaction'') (\<lambda>_.
            let parts = split_dash [] (to_string k);
                order = \<lparr>so_id = orderId, so_fromChain = opt_prop signedOrder ''fromChain'', so_toChain = opt_prop signedOrder ''toChain'',
                  so_fromAmount = opt_prop signedOrder ''fromAmount'', so_minToAmount = opt_prop signedOrder ''toAmount'',
                  so_gasless = JUndef, so_gaslessData = JUndef, so_partialFillAllowed = JBool False, so_partialFillEnabled = JUndef,
                  so_secretHash = opt_prop signedOrder ''secretHash''\<rparr>;
                monitoringKey = JStr (to_string orderId @ ''-'' @ part_at parts 1 @ ''-'' @ part_at parts 2)
            in bind_p (lift_res (hex_of_bytes (opt_prop (opt_prop signedOrder ''orderMessage'') ''escrow_id''))) (\<lambda>escrowId.
               bind_p (emit ''escrow:source:created''
                 [(''orderId'', orderId), (''escrowId'', escrowId), (''chain'', JStr ''APTOS''),
                  (''txHash'', JStr (''0x'' @ replicate 64 (CHR ''a''))), (''amount'', so_fromAmount order), (''secretHash'', so_secretHash order)]) (\<lambda>_.
               bind_p get_st (\<lambda>s.
               case map_get (monitoringFills s) monitoringKey of
                 None \<Rightarrow> ret ()
               | Some fill \<Rightarrow>
                   when_p (truthy fill \<and> truthy (opt_prop fill ''destinationEscrowId''))
                     (bind_p (set_pending orderId order fill escrowId (opt_prop fill ''destinationEscrowId'')) (\<lambda>_.
                      request_secret orderId))))))))))
       (\<lambda>error. order_error orderId ''Failed to create APT escrow with sponsored transaction'' error []))"

text \<open>The transaction and the authenticator of the user, from their bytes.\<close>

definition deserialize_pair :: "jsval \<Rightarrow> string \<Rightarrow> string \<Rightarrow> ('s, jsval \<times> jsval) prog" where
  "deserialize_pair v k1 k2 =
     bind_p (prop_p v k1) (\<lambda>txBytes.
     bind_p (prop_p v k2) (\<lambda>authBytes.
     bind_p (call ''Transaction.deserialize'' [txBytes]) (\<lambda>txn.
     bind_p (call ''AccountAuthenticator.deserialize'' [authBytes]) (\<lambda>auth.
     ret (txn, auth)))))"

definition await_success :: "jsval \<Rightarrow> ('s, jsval) prog" where
  "await_success pendingTx =
     bind_p (prop_p pendingTx ''hash'') (\<lambda>hash.
     bind_p (call ''aptos.waitForTransaction'' [hash]) (\<lambda>executedTx.
     bind_p (check_success executedTx hash) (\<lambda>_. ret hash)))"

definition source_created_by_user :: "jsval \<Rightarrow> jsval \<Rightarrow> jsval \<Rightarrow> jsval \<Rightarrow> ('s, unit) prog" where
  "source_created_by_user orderId escrowId hash signedOrder =
     emit ''escrow:source:created''
       [(''orderId'', orderId), (''escrowId'', escrowId), (''chain'', JStr ''APTOS''), (''txHash'', hash),
        (''amount'', opt_prop signedOrder ''fromAmount''), (''secretHash'', opt_prop signedOrder ''secretHash''), (''userFunded'', JBool True)]"

definition handleSponsoredAptosOrderV2 :: "resolver_self \<Rightarrow> jsval \<Rightarrow> unit flow" where
  "handleSponsoredAptosOrderV2 self signedOrder =
     bind_p (prop_p signedOrder ''orderId'') (\<lambda>orderId.
     try_catch
       (bind_p (deserialize_pair (opt_prop signedOrder ''sponsoredTransaction'') ''transactionBytes'' ''userAuthenticatorBytes'') (\<lambda>(txn, userAuth).
        bind_p (call ''aptos.transaction.sign'' [accountAddress (aptos (chain self)), txn]) (\<lambda>resolverAuth.
        bind_p (call ''aptos.transaction.signAsFeePayer'' [accountAddress (aptos (chain self)), txn]) (\<lambda>feePayer.
        bind_p (call ''aptos.transaction.submit.multiAgent'' [txn, userAuth, JArr [resolverAuth], feePayer]) (\<lambda>pendingTx.
        bind_p (await_success pendingTx) (\<lambda>hash.
        bind_p (prop_p (opt_prop signedOrder ''orderMessage'') ''escrow_id'') (\<lambda>idBytes.
        bind_p (lift_res (buffer_hex idBytes)) (\<lambda>escrowId.
        bind_p (source_created_by_user orderId escrowId hash signedOrder) (\<lambda>_.
        bind_p get_st (\<lambda>s.
        case (map_get (activeOrders s) orderId, monitored_of s orderId) of
          (Some order, Some fill) \<Rightarrow>
            when_p (truthy (opt_prop fill ''destinationEscrowId''))
              (bind_p (set_pending orderId (view_of order) fill escrowId (opt_prop fill ''destinationEscrowId'')) (\<lambda>_.
               emit ''secret:request'' [(''orderId'', orderId),
                 (''message'', JStr ''Both escrows confirmed. Please reveal your secret to complete the swap.'')]))
        | _ \<Rightarrow> ret ()))))))))))
       (\<lambda>error. order_error orderId ''Failed to submit sponsored transaction'' error []))"

definition v3_steps :: "resolver_self \<Rightarrow> jsval \<Rightarrow> jsval \<Rightarrow> unit flow" where
  "v3_steps self orderId signedOrder =
     bind_p (deserialize_pair (opt_prop signedOrder ''sponsoredTransaction'') ''transactionBytes'' ''userAuthenticatorBytes'') (\<lambda>(txn, userAuth).
     bind_p (call ''aptos.transaction.signAsFeePayer'' [accountAddress (aptos (chain self)), txn]) (\<lambda>feePayer.
     bind_p (call ''aptos.transaction.submit.simple'' [txn, userAuth, feePayer]) (\<lambda>pendingTx.
     bind_p (await_success pendingTx) (\<lambda>hash.
     bind_p (prop_p (opt_prop signedOrder ''orderMessage'') ''escrow_id'') (\<lambda>idBytes.
     bind_p (lift_res (buffer_hex idBytes)) (\<lambda>escrowId.
     bind_p get_st (\<lambda>s.
     let order = map_get (activeOrders s) orderId
     in bind_p (when_p (case order of Some d \<Rightarrow> \<not> partialFillEnabled d \<and> \<not> partialFillAllowed d | None \<Rightarrow> True)
          (source_created_by_user orderId escrowId hash signedOrder)) (\<lambda>_.
        case (order, monitored_of s orderId) of
          (Some d, Some fill) \<Rightarrow>
            bind_p (prop_p fill ''id'') (\<lambda>fillId.
            updateFillStatus self orderId fillId ''SOURCE_CREATED'' [(''sourceEscrowId'', escrowId)])
        | _ \<Rightarrow> ret ()))))))))"

definition v3_failed :: "resolver_self \<Rightarrow> jsval \<Rightarrow> jsval \<Rightarrow> js_error \<Rightarrow> ('s, unit) prog" where
  "v3_failed self orderId signedOrder error =
     (let last = lastSubmitted self error;
          report = order_error orderId ''Failed to sponsor transaction'' error [(''txHash'', opt_prop last ''hash'')]
      in if str_includes (message error) ''timed out'' then
           bind_p (attempt
             (bind_p (call ''aptos.getTransactionByHash'' [opt_prop last ''hash'']) (\<lambda>txStatus.
              if truthy txStatus \<and> truthy (opt_prop txStatus ''success'') then
                bind_p (prop_p (opt_prop signedOrder ''orderMessage'') ''escrow_id'') (\<lambda>idBytes.
                bind_p (lift_res (buffer_hex idBytes)) (\<lambda>escrowId.
                bind_p (source_created_by_user orderId escrowId (opt_prop last ''hash'') signedOrder) (\<lambda>_. ret True)))
              else ret False))) (\<lambda>checked.
           if checked = Inr True then ret () else report)
         else report)"

definition handleSponsoredAptosOrderV3 :: "resolver_self \<Rightarrow> jsval \<Rightarrow> unit flow" where
  "handleSponsoredAptosOrderV3 self signedOrder =
     bind_p (prop_p signedOrder ''orderId'') (\<lambda>orderId.
     try_catch (v3_steps self orderId signedOrder) (v3_failed self orderId signedOrder))"

definition handlePermitBasedAptosOrder :: "resolver_self \<Rightarrow> string \<Rightarrow> jsval \<Rightarrow> unit flow" where
  "handlePermitBasedAptosOrder self escrowModule signedOrder =
     bind_p (prop_p signedOrder ''orderId'') (\<lambda>orderId.
     try_catch
       (bind_p get_st (\<lambda>s.
        if map_get (activeOrders s) orderId = None then ret ()
        else bind_p (prop_p (opt_prop signedOrder ''permit'') ''nonce'') (\<lambda>_. handleSignedAptosOrder self escrowModule signedOrder)))
       (\<lambda>error. order_error orderId ''Failed to create APT escrow with permit'' error []))"

definition resolver_fill :: "string \<Rightarrow> Order \<Rightarrow> (string \<times> jsval) list \<Rightarrow> jsval" where
  "resolver_fill resolver order extra = JObj ([(''id'', JStr (order_id order @ ''-resolver'')), (''orderId'', JStr (order_id order)),
     (''resolver'', JStr resolver), (''amount'', JStr (fromAmount order)), (''secretHash'', js_or (hash_val order) (JStr '''')),
     (''secretIndex'', JNum (Fin 0)), (''merkleIndex'', JNum (Fin 0)), (''status'', JStr ''PENDING'')] @ extra)"

definition handleMultiAgentAptosOrder :: "resolver_self \<Rightarrow> jsval \<Rightarrow> unit flow" where
  "handleMultiAgentAptosOrder self signedOrder =
     bind_p (prop_p signedOrder ''orderId'') (\<lambda>orderId.
     try_catch
       (bind_p get_st (\<lambda>s.
        case map_get (activeOrders s) orderId of
          None \<Rightarrow> ret ()
        | Some order \<Rightarrow>
            bind_p (deserialize_pair (opt_prop signedOrder ''multiAgentTransaction'') ''transactionBytes'' ''userSignatureBytes'') (\<lambda>(txn, userSig).
            bind_p (call ''account.signAsFeePayer'' [accountAddress (aptos (chain self)), txn]) (\<lambda>feePayer.
            bind_p (submitMultiAgentTransaction txn userSig feePayer) (\<lambda>pendingTx.
            bind_p (await_success pendingTx) (\<lambda>hash.
            bind_p (prop_p (opt_prop signedOrder ''orderMessage'') ''escrow_id'') (\<lambda>idBytes.
            bind_p (lift_res (hex_of_bytes idBytes)) (\<lambda>escrowId.
            bind_p (emit ''escrow:source:created''
              [(''orderId'', JStr (order_id order)), (''escrowId'', escrowId), (''transactionHash'', hash), (''userFunded'', JBool True),
               (''gaslessForUser'', JBool True)]) (\<lambda>_.
            bind_p (set_pending (JStr (order_id order)) (view_of order)
              (resolver_fill (aptosAddress self) order [(''sourceEscrowId'', escrowId)]) escrowId (JStr '''')) (\<lambda>_.
            createDestinationEscrow self order))))))))))
       (\<lambda>error. order_error orderId ''Failed to create multi-agent APT escrow'' error []))"

subsection \<open>Signed Ethereum orders and user-made escrows\<close>

text \<open>
  \<^verbatim>\<open>handleSignedEthereumOrder\<close>, which no listener calls. The amount of a partial fill replaces that of the
  order and of its gasless data.
\<close>

definition handleSignedEthereumOrder :: "resolver_self \<Rightarrow> jsval \<Rightarrow> unit flow" where
  "handleSignedEthereumOrder self data =
     bind_p (prop_p data ''orderId'') (\<lambda>orderId.
     bind_p get_st (\<lambda>s.
     case map_get (activeOrders s) orderId of
       None \<Rightarrow> ret ()
     | Some order \<Rightarrow>
         let view = view_of order;
             part = opt_prop data ''isPartialFill'';
             pct = opt_prop data ''fillPercentage'';
             wanted = (truthy part \<and> truthy pct);
             match = find_entry (\<lambda>_ f. strict_eq (opt_prop f ''orderId'') orderId \<and> strict_eq (opt_prop f ''fillPercentage'') pct)
               (monitoringFills s)
         in if wanted \<and> match = None then ret ()
            else
              let fill = (if wanted then snd (the match) else resolver_fill (ethereumAddress self) order []);
                  amount = (if wanted then js_or (opt_prop data ''escrowAmount'') (opt_prop fill ''amount'') else JStr (fromAmount order))
              in bind_p (when_p wanted (formatEther amount)) (\<lambda>_.
                 bind_p (if gaslessData order \<noteq> None \<and> truthy part
                         then call ''ethers.id'' [JStr (order_id order @ ''-source-'' @ to_string pct)]
                         else ret (opt_prop (so_gaslessData view) ''escrowId'')) (\<lambda>escrowId.
                 let g = (if gaslessData order \<noteq> None
                       then with_prop (with_prop (so_gaslessData view) ''amount'' amount) ''escrowId'' escrowId else JUndef)
                 in try_catch (executeGaslessWETHEscrow self (view\<lparr>so_fromAmount := amount, so_gaslessData := g\<rparr>) fill)
                      (\<lambda>error. emit ''order:failed''
                        [(''orderId'', JStr (order_id order)), (''error'', JStr ''Failed to create WETH escrow''),
                         (''details'', JStr (message error))])))))"

definition checkPartialFillOrderExists :: "string \<Rightarrow> jsval \<Rightarrow> ('s, bool) prog" where
  "checkPartialFillOrderExists gaslessEscrow baseOrderId =
     try_catch
       (bind_p (call ''contract.getPartialFillOrder'' [JStr gaslessEscrow, baseOrderId]) (\<lambda>orderData.
        bind_p (big_p (prop_p orderData ''totalAmount'')) (\<lambda>total. ret (0 < total))))
       (\<lambda>error. ret False)"

text \<open>
  A user reports an escrow on Aptos: the fill is the first monitored one of the order whose hash is
  the reported one, when one is reported. Nothing is read from the chain.
\<close>

definition handleAPTEscrowCreated :: "jsval \<Rightarrow> unit flow" where
  "handleAPTEscrowCreated data =
     try_catch
       (bind_p (prop_p data ''orderId'') (\<lambda>orderId.
        bind_p (lift_res (case opt_prop data ''escrowId'' of
            JArr xs \<Rightarrow> hex_of_bytes (JArr xs) | v \<Rightarrow> Inr v)) (\<lambda>escrowIdHex.
        bind_p get_st (\<lambda>s.
        let hash = opt_prop data ''secretHash''
        in case find_entry (\<lambda>_ fill. strict_eq (opt_prop fill ''orderId'') orderId \<and>
               (truthy hash \<longrightarrow> strict_eq (opt_prop fill ''secretHash'') hash)) (monitoringFills s) of
             None \<Rightarrow> ret ()
           | Some (dest, fill) \<Rightarrow>
               (case map_get (activeOrders s) orderId of
                  None \<Rightarrow> ret ()
                | Some order \<Rightarrow>
                    if \<not> truthy fill \<or> \<not> truthy dest then ret ()
                    else
                      bind_p (request_secret (JStr (order_id order))) (\<lambda>_.
                      set_pending (JStr (order_id order)) (view_of order) fill escrowIdHex dest))))))
       (\<lambda>error. ret ())"

text \<open>The listener of \<^verbatim>\<open>order:signed\<close> for an order from Ethereum.\<close>

definition no_order :: swap_order where
  "no_order = \<lparr>so_id = JUndef, so_fromChain = JUndef, so_toChain = JUndef, so_fromAmount = JUndef, so_minToAmount = JUndef,
     so_gasless = JUndef, so_gaslessData = JUndef, so_partialFillAllowed = JUndef, so_partialFillEnabled = JUndef, so_secretHash = JUndef\<rparr>"

definition signed_ethereum :: "resolver_self \<Rightarrow> jsval \<Rightarrow> jsval \<Rightarrow> unit flow" where
  "signed_ethereum self orderId data =
     bind_p get_st (\<lambda>s.
     if truthy (opt_prop data ''isPartialFill'') \<and> truthy (opt_prop data ''escrowAmount'') then
       (case monitored_of s orderId of
          None \<Rightarrow> ret ()
        | Some fill \<Rightarrow>
            let order = (case map_get (activeOrders s) orderId of Some order \<Rightarrow> view_of order | None \<Rightarrow> no_order)
            in executeGaslessWETHEscrow self
                 (order\<lparr>so_gaslessData := opt_prop data ''gaslessData'', so_secretHash := opt_prop data ''secretHash''\<rparr>)
                 (with_prop fill ''amount'' (opt_prop data ''escrowAmount'')))
     else
       (case (map_get (activeOrders s) orderId, monitored_of s orderId) of
          (Some order, Some fill) \<Rightarrow> executeGaslessWETHEscrow self (view_of order) fill
        | _ \<Rightarrow> ret ()))"

subsection \<open>Events\<close>

datatype event =
    Connected
  | AddressAsked
  | OrderNew Order
  | OrderUpdated Order
  | OrderFilled Order
  | SourceCreated jsval
  | OrderSigned jsval
  | SignedSponsored jsval
  | SignedSponsoredV2 jsval
  | SignedSponsoredV3 jsval
  | SignedWithPermit jsval
  | SignedMultiagent jsval
  | SecretRevealed jsval
  | Disconnected
  | PollTimer
  | TimerFires nat

definition track_order :: "Order \<Rightarrow> unit flow" where
  "track_order order = upd_st (\<lambda>s. s\<lparr>activeOrders := map_set (activeOrders s) (JStr (order_id order)) order\<rparr>)"

definition open_for_fills :: "Order \<Rightarrow> bool" where
  "open_for_fills order \<longleftrightarrow> (partialFillAllowed order \<or> partialFillEnabled order) \<and> js_lt (js_or0 (filledPercentage order)) (Fin 100)"

definition fire_timer :: "resolver_self \<Rightarrow> nat \<Rightarrow> unit flow" where
  "fire_timer self i =
     bind_p get_st (\<lambda>s.
     if i < length (timers s) then
       bind_p (upd_st (\<lambda>s. s\<lparr>timers := take i (timers s) @ drop (Suc i) (timers s)\<rparr>)) (\<lambda>_.
       case timers s ! i of
         RefillTimer order \<Rightarrow> handlePartialFillOrder self order
       | ReevaluateTimer order \<Rightarrow> handleNewOrder self order)
     else ret ())"

fun on_event :: "resolver_self \<Rightarrow> string \<Rightarrow> event \<Rightarrow> unit flow" where
  "on_event self m Connected = emit ''subscribe:active'' []"
| "on_event self m AddressAsked = do_call ''callback'' [JObj [(''ethereumAddress'', JStr (ethereumAddress self))]]"
| "on_event self m (OrderNew order) = handleNewOrder self order"
| "on_event self m (OrderUpdated order) =
     bind_p (track_order order) (\<lambda>_. when_p (open_for_fills order) (handleNewOrder self order))"
| "on_event self m (OrderFilled order) =
     bind_p (track_order order) (\<lambda>_.
     when_p (open_for_fills order \<and> order_status order \<noteq> FILLED)
       (upd_st (\<lambda>s. s\<lparr>timers := timers s @ [ReevaluateTimer order]\<rparr>)))"
| "on_event self m (SourceCreated data) =
     bind_p (prop_p data ''chain'') (\<lambda>c. when_p (c = JStr ''APTOS'') (handleAPTEscrowCreated data))"
| "on_event self m (OrderSigned data) =
     bind_p (prop_p data ''fromChain'') (\<lambda>c. bind_p (prop_p data ''orderId'') (\<lambda>orderId.
     if c = JStr ''APTOS'' then handleSignedAptosOrder self m data
     else when_p (c = JStr ''ETHEREUM'') (signed_ethereum self orderId data)))"
| "on_event self m (SignedSponsored data) =
     bind_p (prop_p data ''fromChain'') (\<lambda>c.
     when_p (c = JStr ''APTOS'' \<and> truthy (opt_prop data ''sponsoredTransaction'')) (handleSponsoredAptosOrder self data))"
| "on_event self m (SignedSponsoredV2 data) =
     bind_p (prop_p data ''fromChain'') (\<lambda>c.
     when_p (c = JStr ''APTOS'' \<and> truthy (opt_prop data ''sponsoredTransaction'')) (handleSponsoredAptosOrderV2 self data))"
| "on_event self m (SignedSponsoredV3 data) =
     bind_p (prop_p data ''fromChain'') (\<lambda>c.
     when_p (c = JStr ''APTOS'' \<and> truthy (opt_prop data ''sponsoredTransaction'')) (handleSponsoredAptosOrderV3 self data))"
| "on_event self m (SignedWithPermit data) =
     bind_p (prop_p data ''fromChain'') (\<lambda>c.
     if c = JStr ''APTOS'' \<and> truthy (opt_prop data ''permit'') then handlePermitBasedAptosOrder self m data
     else handleSignedAptosOrder self m data)"
| "on_event self m (SignedMultiagent data) =
     bind_p (prop_p data ''fromChain'') (\<lambda>c.
     if c = JStr ''APTOS'' \<and> truthy (opt_prop data ''multiAgentTransaction'') then handleMultiAgentAptosOrder self data
     else handleSignedAptosOrder self m data)"
| "on_event self m (SecretRevealed data) = on_secret_reveal self data"
| "on_event self m Disconnected = ret ()"
| "on_event self m PollTimer = poll_escrows self"
| "on_event self m (TimerFires i) = fire_timer self i"

text \<open>The process: an error that leaves a handler is an unhandled rejection and ends it.\<close>

definition resolver_init :: resolver_state where
  "resolver_init = \<lparr>isProcessing = [], activeOrders = [], monitoringFills = [], fillSecrets = [], processedEvents = [],
     pendingSecretReveals = [], lastBalances = [], prices = \<lparr>cache = [], requests = []\<rparr>, timers = []\<rparr>"

definition run_events :: "resolver_self \<Rightarrow> string \<Rightarrow> event list \<Rightarrow> unit flow" where
  "run_events self m evs = seq_u (map (on_event self m) evs)"

subsection \<open>What the events keep\<close>

lemma keeps_finally [keep_rules]: "keeps I m \<Longrightarrow> keeps I f \<Longrightarrow> keeps I (finally_p m f)"
  unfolding keeps_def finally_p_def by (auto split: prod.splits sum.splits) (metis snd_conv)+

lemma keeps_case_sum [keep_rules]:
  "(\<And>e. keeps I (f e)) \<Longrightarrow> (\<And>x. keeps I (g x)) \<Longrightarrow> keeps I (case r of Inl e \<Rightarrow> f e | Inr x \<Rightarrow> g x)"
  by (cases r) simp_all

lemma keeps_case_Chain [keep_rules]: "keeps I a \<Longrightarrow> keeps I b \<Longrightarrow> keeps I (case c of ETHEREUM \<Rightarrow> a | APTOS \<Rightarrow> b)"
  by (cases c) simp_all

lemma keeps_case_timer [keep_rules]:
  "(\<And>x. keeps I (f x)) \<Longrightarrow> (\<And>x. keeps I (g x)) \<Longrightarrow> keeps I (case t of RefillTimer x \<Rightarrow> f x | ReevaluateTimer x \<Rightarrow> g x)"
  by (cases t) simp_all

lemma keeps_attempt [keep_rules]: "keeps I m \<Longrightarrow> keeps I (attempt m)"
  unfolding attempt_def by (intro keep_rules)

lemma keeps_seq_p [keep_rules]: "(\<And>m. m \<in> set ms \<Longrightarrow> keeps I m) \<Longrightarrow> keeps I (seq_p ms)"
  by (induction ms) (auto intro!: keep_rules)

lemma keeps_arguments [keep_rules]:
  "keeps I (u64 r)" "keeps I (address t)" "keeps I expiry_arg" "keeps I clock" "keeps I clock_seconds" "keeps I hour_lock"
  unfolding u64_def address_def expiry_arg_def clock_def clock_seconds_def hour_lock_def by (intro keep_rules)+

lemma keeps_aptos_escrow [keep_rules]: "keeps I (createAptosEscrow c e d b a h t sd)"
  unfolding createAptosEscrow_def createEscrow_def entry_function_def by (intro keep_rules) (auto intro!: keep_rules)

lemma keeps_ethereum_escrow [keep_rules]:
  "keeps I buffered_gas_price" "keeps I (ether_value a sd)" "keeps I (create_token_escrow c e b tk a h t sd)"
  "keeps I (createEthereumEscrow c e b tk a h t sd dep)" "keeps I (createEthereumEscrowFor c e dd b tk a h t)"
  unfolding buffered_gas_price_def ether_value_def create_token_escrow_def createEthereumEscrow_def createEthereumEscrowFor_def
  by (intro keep_rules)+

lemma keeps_reads [keep_rules]:
  "keeps I (getEthereumBalance addr tok)" "keeps I (getBalance v)" "keeps I (getAptosBalance addr)" "keeps I (getAllowance wt ow sp)"
  "keeps I (getDestinationBalance self order)" "keeps I (read_fill_state self i)" "keeps I (optimal_fill_percentage self order)"
  "keeps I (format_text t)" "keeps I (aptos_view_balance self)" "keeps I (check_balance self order)" "keeps I (order_hash order)"
  unfolding getEthereumBalance_def getBalance_def getAptosBalance_def getAllowance_def getDestinationBalance_def read_fill_state_def
    optimal_fill_percentage_def format_text_def aptos_view_balance_def check_balance_def order_hash_def
  by (intro keep_rules)+

lemma keeps_partial_steps [keep_rules]:
  "keeps I (createPartialEthereumEscrow self order e a)" "keeps I (createPartialAptosEscrow self order e a)"
  "keeps I (partial_amount t p)" "keeps I (partial_escrow_id t n)" "keeps I (register_partial_fill self i e ds)"
  "keeps I (announce_partial_fill self order e a p cu k)" "keeps I (request_secret v)" "keeps I (ensure_approval self order)"
  "keeps I (create_destination self order e a h tlk sd)" "keeps I (destination_failed self order fill err)"
  "keeps I (show_balances self order err)" "keeps I (executePermitTransfer pc prm sg tok rcp)"
  unfolding createPartialEthereumEscrow_def createPartialAptosEscrow_def partial_amount_def partial_escrow_id_def
    register_partial_fill_def announce_partial_fill_def request_secret_def ensure_approval_def create_destination_def
    destination_failed_def show_balances_def executePermitTransfer_def
  by (intro keep_rules; auto intro!: keep_rules)+

lemma keeps_signed_steps [keep_rules]:
  "keeps I (submit_delegated self mo args)" "keeps I (delegated_steps self mo order data)" "keeps I (order_error v t err extra)"
  "keeps I (deserialize_pair v k1 k2)" "keeps I (await_success v)" "keeps I (source_created_by_user v e h data)"
  "keeps I (v3_failed self v data err)" "keeps I (submitMultiAgentTransaction v e h)"
  unfolding submit_delegated_def delegated_steps_def order_error_def deserialize_pair_def await_success_def
    source_created_by_user_def v3_failed_def submitMultiAgentTransaction_def Let_def
  by (intro keep_rules; auto intro!: keep_rules)+

text \<open>
  The invariant of the state: the maps and sets have each key once, an active order is kept under its
  own id, monitored fills are objects, and no secret of a fill is stored.
\<close>

definition resolver_ok :: "resolver_state \<Rightarrow> bool" where
  "resolver_ok s \<longleftrightarrow> map_wf (activeOrders s) \<and> map_wf (monitoringFills s) \<and> map_wf (pendingSecretReveals s) \<and>
     distinct (isProcessing s) \<and> distinct (processedEvents s) \<and>
     (\<forall>(k, order) \<in> set (activeOrders s). k = JStr (order_id order)) \<and>
     (\<forall>(k, fill) \<in> set (monitoringFills s). \<exists>ps. fill = JObj ps) \<and>
     fillSecrets s = []"

lemma set_update_subset: "x \<in> set (AList.update k v m) \<Longrightarrow> x = (k, v) \<or> x \<in> set m"
  by (induction m) (auto split: if_splits)

lemma set_delete_subset: "x \<in> set (AList.delete k m) \<Longrightarrow> x \<in> set m"
  by (auto simp: AList.delete_eq)

lemma resolver_ok_updates:
  assumes "resolver_ok s"
  shows "resolver_ok (s\<lparr>lastBalances := b\<rparr>)" "resolver_ok (s\<lparr>prices := pr\<rparr>)" "resolver_ok (s\<lparr>timers := ts\<rparr>)"
    "resolver_ok (s\<lparr>monitoringFills := map_remove (monitoringFills s) k\<rparr>)"
    "resolver_ok (s\<lparr>monitoringFills := map_set (monitoringFills s) k (JObj ps)\<rparr>)"
    "resolver_ok (s\<lparr>fillSecrets := map_remove (fillSecrets s) k\<rparr>)"
    "resolver_ok (s\<lparr>processedEvents := set_add (processedEvents s) e\<rparr>)"
    "resolver_ok (s\<lparr>isProcessing := set_remove (isProcessing s) e\<rparr>)"
    "resolver_ok (s\<lparr>pendingSecretReveals := map_remove (pendingSecretReveals s) k\<rparr>)"
    "resolver_ok (s\<lparr>pendingSecretReveals := map_set (pendingSecretReveals s) k p\<rparr>)"
    "resolver_ok (s\<lparr>activeOrders := map_set (activeOrders s) (JStr (order_id order)) order\<rparr>)"
    "resolver_ok (s\<lparr>isProcessing := set_add (isProcessing s) (order_id order),
       activeOrders := map_set (activeOrders s) (JStr (order_id order)) order\<rparr>)"
  using assms unfolding resolver_ok_def set_add_def set_remove_def
  by (auto simp: map_wf_def distinct_update distinct_delete dest!: set_update_subset set_delete_subset)

lemma with_prop_obj: "\<exists>ps. with_prop fill k v = JObj ps"
  by (cases fill) auto

lemma resolver_ok_with_prop:
  "resolver_ok s \<Longrightarrow> resolver_ok (s\<lparr>monitoringFills := map_set (monitoringFills s) k (with_prop fill j v)\<rparr>)"
  using with_prop_obj[of fill j v] resolver_ok_updates(5) by fastforce

lemma ok_steps [keep_rules]:
  "keeps resolver_ok (track_balances self)" "keeps resolver_ok (quote_rate a b)" "keeps resolver_ok (set_pending v o1 fill e d)"
  "keeps resolver_ok (mark_processed v)" "keeps resolver_ok (find_destination o1 fill)" "keeps resolver_ok (forget_pending v)"
  "keeps resolver_ok (isProcessing_delete order)" "keeps resolver_ok (track_order order)"
  "keeps resolver_ok (completeSwap self o1 fill x src dest)"
  unfolding track_balances_def quote_rate_def set_pending_def mark_processed_def find_destination_def forget_pending_def
    isProcessing_delete_def track_order_def
  by (intro keep_rules; simp add: resolver_ok_updates)+

lemma ok_creation [keep_rules]:
  "keeps resolver_ok (executeGaslessWETHEscrow self o1 fill)" "keeps resolver_ok (output_amount self order)"
  "keeps resolver_ok (auto_source self order fill h e n)" "keeps resolver_ok (createSourceEscrowForAPT order fill)"
  "keeps resolver_ok (source_step self order fill h e n)" "keeps resolver_ok (destination_steps self order a h fill)"
  "keeps resolver_ok (createDestinationEscrow self order)" "keeps resolver_ok (check_profitability self order)"
  "keeps resolver_ok (take_order self order)"
  unfolding executeGaslessWETHEscrow_def output_amount_def auto_source_def createSourceEscrowForAPT_def source_step_def
    destination_steps_def createDestinationEscrow_def check_profitability_def take_order_def
  by (intro keep_rules; simp add: resolver_ok_with_prop)+

lemma ok_orders [keep_rules]:
  "keeps resolver_ok (createPartialEscrows self order pct k a b)" "keeps resolver_ok (handlePartialFillOrder self order)"
  "keeps resolver_ok (handleNewOrder self order)" "keeps resolver_ok (fire_timer self i)"
  unfolding createPartialEscrows_def handlePartialFillOrder_def handleNewOrder_def fire_timer_def Let_def
  by (intro keep_rules; simp add: resolver_ok_updates)+

lemma ok_signed [keep_rules]:
  "keeps resolver_ok (handleSignedAptosOrder self m data)" "keeps resolver_ok (handleSponsoredAptosOrder self data)"
  "keeps resolver_ok (handleSponsoredAptosOrderV2 self data)" "keeps resolver_ok (handleSponsoredAptosOrderV3 self data)"
  "keeps resolver_ok (handlePermitBasedAptosOrder self m data)" "keeps resolver_ok (handleMultiAgentAptosOrder self data)"
  "keeps resolver_ok (handleAPTEscrowCreated data)" "keeps resolver_ok (signed_ethereum self v data)"
  "keeps resolver_ok (handleSignedEthereumOrder self data)"
  unfolding handleSignedAptosOrder_def handleSponsoredAptosOrder_def handleSponsoredAptosOrderV2_def handleSponsoredAptosOrderV3_def
    v3_steps_def handlePermitBasedAptosOrder_def handleMultiAgentAptosOrder_def handleAPTEscrowCreated_def signed_ethereum_def
    handleSignedEthereumOrder_def Let_def
  by (intro keep_rules)+

lemma ok_reveal [keep_rules]: "keeps resolver_ok (on_secret_reveal self data)" "keeps resolver_ok (poll_escrows self)"
proof -
  show "keeps resolver_ok (on_secret_reveal self data)"
    unfolding on_secret_reveal_def reveal_partial_def reveal_full_def by (intro keep_rules)
  have h: "keeps resolver_ok (handleSourceEscrowCreated self fill src)" for fill src
    unfolding handleSourceEscrowCreated_def swap_getSecretForFill_def withdraw_seen_def actual_escrow_id_def after_source_def
      seen_completed_def Let_def
    by (intro keep_rules) (simp_all add: resolver_ok_updates)
  have "keeps resolver_ok (poll_event self ev)" for ev
    unfolding poll_event_def Let_def
    by (auto split: jsval.split option.split list.split intro!: keep_rules h simp: resolver_ok_updates)
  then show "keeps resolver_ok (poll_escrows self)"
    unfolding poll_escrows_def by (auto split: option.split jsval.split intro!: keep_rules)
qed

lemma ok_on_event: "keeps resolver_ok (on_event self m ev)"
  by (cases ev) (simp_all, (intro keep_rules; simp add: resolver_ok_updates)+)

subsection \<open>The order of calls\<close>

text \<open>
  \<open>makes Q m\<close>: a run of \<open>m\<close> that returns has made a call with an outcome in \<open>Q\<close>. \<open>ordered P Q m\<close>: in every
  run of \<open>m\<close>, a call in \<open>P\<close> comes after a call with an outcome in \<open>Q\<close>.
\<close>

definition makes :: "(ext \<times> jsval res \<Rightarrow> bool) \<Rightarrow> ('s, 'a) prog \<Rightarrow> bool" where
  "makes Q m \<longleftrightarrow> (\<forall>orc w x w1. m orc w = (Inr x, w1) \<longrightarrow> (\<exists>new. wtrace w1 = wtrace w @ new \<and> (\<exists>c\<in>set new. Q c)))"

fun led_by :: "(ext \<Rightarrow> bool) \<Rightarrow> (ext \<times> jsval res \<Rightarrow> bool) \<Rightarrow> trace \<Rightarrow> bool" where
  "led_by P Q [] = True"
| "led_by P Q (c # cs) = (\<not> P (fst c) \<and> (Q c \<or> led_by P Q cs))"

definition ordered :: "(ext \<Rightarrow> bool) \<Rightarrow> (ext \<times> jsval res \<Rightarrow> bool) \<Rightarrow> ('s, 'a) prog \<Rightarrow> bool" where
  "ordered P Q m \<longleftrightarrow> (\<forall>orc w. \<exists>new. wtrace (snd (m orc w)) = wtrace w @ new \<and> led_by P Q new)"

named_theorems order_rules

lemma led_by_none: "\<forall>c\<in>set new. \<not> P (fst c) \<Longrightarrow> led_by P Q new"
  by (induction new) auto

lemma led_by_append: "led_by P Q a \<Longrightarrow> led_by P Q b \<Longrightarrow> led_by P Q (a @ b)"
  by (induction a) auto

lemma led_by_after: "led_by P Q a \<Longrightarrow> \<exists>d\<in>set a. Q d \<Longrightarrow> led_by P Q (a @ b)"
  by (induction a) auto

lemma led_byD: "led_by P Q (pre @ c # post) \<Longrightarrow> P (fst c) \<Longrightarrow> \<exists>d\<in>set pre. Q d"
  by (induction pre) auto

lemma orderedD: "ordered P Q m \<Longrightarrow> m orc w = (r, w1) \<Longrightarrow> \<exists>new. wtrace w1 = wtrace w @ new \<and> led_by P Q new"
  by (metis ordered_def snd_conv)

lemma makesD: "makes Q m \<Longrightarrow> m orc w = (Inr x, w1) \<Longrightarrow> \<exists>new. wtrace w1 = wtrace w @ new \<and> (\<exists>c\<in>set new. Q c)"
  by (auto simp: makes_def)

lemma ordered_quiet: "costs P 0 m \<Longrightarrow> ordered P Q m"
  unfolding ordered_def using costs_0D[of P m] led_by_none[of _ P Q] by (metis prod.collapse)

lemma ordered_bind [order_rules]:
  assumes "ordered P Q m" "\<And>x. ordered P Q (f x)" shows "ordered P Q (bind_p m f)"
  unfolding ordered_def
proof (intro allI)
  fix orc :: outside and w :: "'a world"
  obtain r w1 where m: "m orc w = (r, w1)" by fastforce
  obtain a where a: "wtrace w1 = wtrace w @ a" "led_by P Q a" using orderedD[OF assms(1) m] by blast
  show "\<exists>new. wtrace (snd (bind_p m f orc w)) = wtrace w @ new \<and> led_by P Q new"
  proof (cases r)
    case (Inr x)
    obtain q w2 where f: "f x orc w1 = (q, w2)" by fastforce
    obtain b where "wtrace w2 = wtrace w1 @ b" "led_by P Q b" using orderedD[OF assms(2) f] by blast
    then show ?thesis using m f a Inr led_by_append[of P Q a b] by (simp add: bind_p_def)
  qed (use m a in \<open>auto simp: bind_p_def\<close>)
qed

lemma ordered_after:
  assumes "ordered P Q m" "makes Q m" "\<And>x. grows (f x)" shows "ordered P Q (bind_p m f)"
  unfolding ordered_def
proof (intro allI)
  fix orc :: outside and w :: "'a world"
  obtain r w1 where m: "m orc w = (r, w1)" by fastforce
  obtain a where a: "wtrace w1 = wtrace w @ a" "led_by P Q a" using orderedD[OF assms(1) m] by blast
  show "\<exists>new. wtrace (snd (bind_p m f orc w)) = wtrace w @ new \<and> led_by P Q new"
  proof (cases r)
    case (Inr x)
    obtain q w2 where f: "f x orc w1 = (q, w2)" by fastforce
    obtain b where "wtrace w2 = wtrace w1 @ b" using growsD[OF assms(3) f] by blast
    moreover have "\<exists>d\<in>set a. Q d" using makesD[OF assms(2)] m a(1) Inr by fastforce
    ultimately show ?thesis using m f a Inr led_by_after[of P Q a b] by (simp add: bind_p_def)
  qed (use m a in \<open>auto simp: bind_p_def\<close>)
qed

lemma ordered_try [order_rules]:
  assumes "ordered P Q m" "\<And>e. ordered P Q (h e)" shows "ordered P Q (try_catch m h)"
  unfolding ordered_def
proof (intro allI)
  fix orc :: outside and w :: "'a world"
  obtain r w1 where m: "m orc w = (r, w1)" by fastforce
  obtain a where a: "wtrace w1 = wtrace w @ a" "led_by P Q a" using orderedD[OF assms(1) m] by blast
  show "\<exists>new. wtrace (snd (try_catch m h orc w)) = wtrace w @ new \<and> led_by P Q new"
  proof (cases r)
    case (Inl e)
    obtain q w2 where f: "h e orc w1 = (q, w2)" by fastforce
    obtain b where "wtrace w2 = wtrace w1 @ b" "led_by P Q b" using orderedD[OF assms(2) f] by blast
    then show ?thesis using m f a Inl led_by_append[of P Q a b] by (simp add: try_catch_def)
  qed (use m a in \<open>auto simp: try_catch_def\<close>)
qed

lemma ordered_case_sum [order_rules]:
  "(\<And>e. ordered P Q (f e)) \<Longrightarrow> (\<And>x. ordered P Q (g x)) \<Longrightarrow> ordered P Q (case r of Inl e \<Rightarrow> f e | Inr x \<Rightarrow> g x)"
  by (cases r) simp_all

lemma makes_call: "(\<And>v. Q (Ext n a, Inr v)) \<Longrightarrow> makes Q (call n a)" "(\<And>v. Q (Ext n a, Inr v)) \<Longrightarrow> makes Q (do_call n a)"
  by (auto simp: makes_def call_def do_call_def bind_p_def ret_def Let_def split: sum.splits)

lemma makes_then:
  assumes "grows m" "\<And>x. makes Q (f x)" shows "makes Q (bind_p m f)"
  unfolding makes_def
proof (intro allI impI)
  fix orc w y w2 assume "bind_p m f orc w = (Inr y, w2)"
  then obtain x w1 where m: "m orc w = (Inr x, w1)" and f: "f x orc w1 = (Inr y, w2)" by (auto simp: bind_p_Inr)
  obtain a b where "wtrace w1 = wtrace w @ a" "wtrace w2 = wtrace w1 @ b" "\<exists>c\<in>set b. Q c"
    using growsD[OF assms(1) m] makesD[OF assms(2) f] by blast
  then show "\<exists>new. wtrace w2 = wtrace w @ new \<and> (\<exists>c\<in>set new. Q c)" by (intro exI[of _ "a @ b"]) auto
qed

lemma makes_first:
  assumes "makes Q m" "\<And>x. grows (f x)" shows "makes Q (bind_p m f)"
  unfolding makes_def
proof (intro allI impI)
  fix orc w y w2 assume "bind_p m f orc w = (Inr y, w2)"
  then obtain x w1 where m: "m orc w = (Inr x, w1)" and f: "f x orc w1 = (Inr y, w2)" by (auto simp: bind_p_Inr)
  obtain a b where "wtrace w1 = wtrace w @ a" "wtrace w2 = wtrace w1 @ b" "\<exists>c\<in>set a. Q c"
    using growsD[OF assms(2) f] makesD[OF assms(1) m] by blast
  then show "\<exists>new. wtrace w2 = wtrace w @ new \<and> (\<exists>c\<in>set new. Q c)" by (intro exI[of _ "a @ b"]) auto
qed

subsection \<open>Properties\<close>

text \<open>
  C19. The state stays well formed. After any sequence of events, whatever the chains, the engine and
  the libraries answer, and also when a handler ends with an error: every map and set has each
  key once, an active order is kept under its own id, every monitored fill is an object, and no
  secret of a fill is stored.
\<close>

theorem resolver_state_ok:
  assumes "run_events self m evs orc \<lparr>wstate = resolver_init, wtrace = t\<rparr> = (r, w)"
  shows "resolver_ok (wstate w)"
proof -
  have "keeps resolver_ok (run_events self m evs)"
    unfolding run_events_def by (intro keep_rules) (auto intro: ok_on_event)
  from keepsD[OF this assms] show ?thesis by (simp add: resolver_ok_def resolver_init_def)
qed

definition demo_order :: Order where
  "demo_order = \<lparr>fromChain = APTOS, toChain = ETHEREUM, fromToken = ''0x1::aptos_coin::AptosCoin'', toToken = ''0xw'',
     fromAmount = ''50'', minToAmount = ''90'', maker = ''0xu'', receiver = ''0xv'', signature = '''', deadline = Fin 0, nonce = ''1'',
     partialFillAllowed = False, partialFillEnabled = False, secretHash = Some ''0xh'', secretHashes = None,
     partialFillSecrets = None, maxParts = None, activeResolvers = None, dutchAuction = None, permit = None,
     permitSignature = None, gasless = Some True, gaslessData = None, order_id = ''o'', order_status = PENDING,
     filledAmount = ''0'', filledPercentage = Fin 0, createdAt = 0, updatedAt = 0, fills = []\<rparr>"

lemma demo_order_simps [simp]:
  "order_id demo_order = ''o''" "open_for_fills demo_order = False" "toChain demo_order = ETHEREUM" "gasless demo_order = Some True"
  by (simp_all add: demo_order_def open_for_fills_def)

definition demo_report :: jsval where
  "demo_report = JObj [(''chain'', JStr ''APTOS''), (''orderId'', JStr ''o''), (''escrowId'', JStr ''0xs'')]"

theorem resolver_state_ok_witness:
  "let (r, w) = run_events demo_self ''0xm'' [Connected, OrderFilled demo_order, SourceCreated demo_report, PollTimer]
       poll_answers \<lparr>wstate = resolver_init, wtrace = []\<rparr>
   in r = Inr () \<and> map_get (activeOrders (wstate w)) (JStr ''o'') = Some demo_order \<and> resolver_ok (wstate w)"
proof -
  obtain r w where run: "run_events demo_self ''0xm'' [Connected, OrderFilled demo_order, SourceCreated demo_report, PollTimer]
       poll_answers \<lparr>wstate = resolver_init, wtrace = []\<rparr> = (r, w)" by fastforce
  have "r = Inr () \<and> map_get (activeOrders (wstate w)) (JStr ''o'') = Some demo_order"
    using run by (auto simp: run_events_def track_order_def handleAPTEscrowCreated_def poll_escrows_def poll_event_def
      find_entry_def set_add_def demo_event_def poll_answers_def demo_report_def flow_eval demo_self_def resolver_init_def)
  then show ?thesis using resolver_state_ok[OF run] run by simp
qed

text \<open>
  C37. A source escrow seen on chain is never redeemed from there. After any sequence of events, a
  round of polling submits no withdrawal: the secret it would need is looked up in a map no
  handler ever fills.
\<close>

theorem polling_after_events_never_withdraws:
  assumes "run_events self m evs orc \<lparr>wstate = resolver_init, wtrace = t\<rparr> = (r, w)" "poll_escrows self orc1 w = (q, w1)"
  shows "\<exists>new. wtrace w1 = wtrace w @ new \<and> (\<forall>c\<in>set new. \<not> is_withdrawal (fst c))"
proof -
  have "keeps resolver_ok (run_events self m evs)"
    unfolding run_events_def by (intro keep_rules) (auto intro: ok_on_event)
  from keepsD[OF this assms(1)] have "no_secrets (wstate w)" by (simp add: resolver_ok_def resolver_init_def)
  from silentD[OF silent_poll assms(2) this] show ?thesis by blast
qed

theorem polling_after_events_never_withdraws_witness:
  "let (r, w) = run_events demo_self ''0xm'' [Connected, OrderFilled demo_order] poll_answers \<lparr>wstate = resolver_init, wtrace = []\<rparr>;
       (q, w1) = poll_escrows demo_self poll_answers w
   in r = Inr () \<and> q = Inr () \<and> processedEvents (wstate w1) = [''5-0''] \<and>
     (\<exists>new. wtrace w1 = wtrace w @ new \<and> (\<forall>c\<in>set new. \<not> is_withdrawal (fst c)))"
proof -
  obtain r w where run: "run_events demo_self ''0xm'' [Connected, OrderFilled demo_order] poll_answers \<lparr>wstate = resolver_init, wtrace = []\<rparr> = (r, w)"
    by fastforce
  obtain q w1 where poll: "poll_escrows demo_self poll_answers w = (q, w1)" by fastforce
  have k: "to_string (JNum (Fin 5)) = ''5''" "show_pos_num 5 = ''5''" by code_simp+
  have "r = Inr () \<and> q = Inr () \<and> processedEvents (wstate w1) = [''5-0'']"
    using run poll by (auto simp: run_events_def track_order_def poll_escrows_def poll_event_def k
      find_entry_def set_add_def demo_event_def poll_answers_def flow_eval demo_self_def resolver_init_def)
  then show ?thesis using polling_after_events_never_withdraws[OF run poll] run poll by simp
qed

text \<open>
  A gasless order to Ethereum is announced without an escrow. When the resolver takes a share of
  such an order it makes no transaction on any chain: the only calls are the reads of the fill
  state and of the clock, the derivation of an id, a format, the registration of the fill and
  messages. Yet a call that returns has told the clients that a destination escrow was created.
\<close>

definition announces :: "string \<Rightarrow> ext \<Rightarrow> bool" where
  "announces ev c \<longleftrightarrow> is_emit c \<and> (case ext_args c of JStr e # _ \<Rightarrow> e = ev | _ \<Rightarrow> False)"

definition no_chain_names :: "string set" where
  "no_chain_names = {''axios.get'', ''axios.post'', ''ethers.id'', ''ethers.formatEther'', ''Date.now'', ''socket.emit''}"

lemma bind_emit:
  "bind_p (emit ev payload) f orc w = f () orc (w\<lparr>wtrace := wtrace w @
     [(Ext ''socket.emit'' [JStr ev, JObj payload], orc (wtrace w) (Ext ''socket.emit'' [JStr ev, JObj payload]))]\<rparr>)"
  by (auto simp: emit_def try_catch_def do_call_def bind_p_def call_def ret_def Let_def split: sum.splits)

lemma makes_emit: "makes (\<lambda>c. announces ev (fst c)) (emit ev payload)"
  by (auto simp: makes_def emit_def try_catch_def do_call_def bind_p_def call_def ret_def Let_def announces_def is_emit_def split: sum.splits)

lemma grows_steps:
  "grows (read_fill_state self i)" "grows (partial_escrow_id t n)" "grows (register_partial_fill self i e ds)" "grows (upd_st f)"
  "grows hour_lock"
  unfolding grows_def read_fill_state_def attempt_def partial_escrow_id_def register_partial_fill_def hour_lock_def clock_seconds_def clock_def
  by (intro cost_rules; simp)+

theorem gasless_partial_unfunded:
  assumes "gasless order = Some True" "toChain order = ETHEREUM"
    "createPartialEscrows self order pct secretIdx a b orc w = (r, w1)"
  shows "\<exists>new. wtrace w1 = wtrace w @ new \<and> (\<forall>c\<in>set new. ext_name (fst c) \<in> no_chain_names) \<and>
    (r = Inr () \<longrightarrow> (\<exists>c\<in>set new. announces ''escrow:destination:created'' (fst c)))"
proof -
  have gf: "grows (formatEther v :: unit flow)" for v unfolding grows_def formatEther_def by (intro cost_rules) simp
  have "uses no_chain_names (createPartialEscrows self order pct secretIdx a b)"
    unfolding uses_def createPartialEscrows_def read_fill_state_def attempt_def partial_escrow_id_def createPartialEthereumEscrow_def
      register_partial_fill_def announce_partial_fill_def emit_def hour_lock_def clock_seconds_def clock_def formatEther_def
    by (simp only: assms Chain.case simp_thms if_True, intro cost_rules) (simp_all add: no_chain_names_def)
  from costs_0D[OF this[unfolded uses_def] assms(3)]
  obtain new where n: "wtrace w1 = wtrace w @ new" "\<forall>c\<in>set new. ext_name (fst c) \<in> no_chain_names" by auto
  have "makes (\<lambda>c. announces ''escrow:destination:created'' (fst c)) (announce_partial_fill self order e b pct cu secretIdx :: unit flow)" for e cu
    unfolding announce_partial_fill_def
    by (intro makes_then[OF grows_services(5)] makes_then[OF grows_steps(5)] makes_first[OF makes_emit] grows_services(5))
  then have "makes (\<lambda>c. announces ''escrow:destination:created'' (fst c)) (createPartialEscrows self order pct secretIdx a b)"
    unfolding createPartialEscrows_def Let_def createPartialEthereumEscrow_def assms(1,2) Chain.case
    by (auto intro!: makes_then[OF grows_steps(1)] makes_then[OF grows_steps(2)] makes_then[OF grows_steps(3)] makes_then[OF grows_steps(4)]
        makes_then[OF gf])
  from makesD[OF this] assms(3) n show ?thesis by fastforce
qed

theorem gasless_partial_unfunded_witness:
  "let (r, w1) = createPartialEscrows demo_self demo_order (Fin 50) 0 ''25'' ''45'' demo_answers demo_world
   in r = Inr () \<and> (\<exists>new. wtrace w1 = wtrace demo_world @ new \<and> (\<forall>c\<in>set new. ext_name (fst c) \<in> no_chain_names) \<and>
     (\<exists>c\<in>set new. announces ''escrow:destination:created'' (fst c)))"
proof -
  obtain r w1 where run: "createPartialEscrows demo_self demo_order (Fin 50) 0 ''25'' ''45'' demo_answers demo_world = (r, w1)" by fastforce
  have "r = Inr ()"
    using run by (auto simp: createPartialEscrows_def read_fill_state_def attempt_def partial_escrow_id_def createPartialEthereumEscrow_def
      register_partial_fill_def announce_partial_fill_def hour_lock_def clock_seconds_def clock_def bind_emit flow_eval demo_answers_def demo_world_def)
  then show ?thesis using gasless_partial_unfunded[OF demo_order_simps(4,3) run] run by simp
qed


definition demo_monitor :: "resolver_state world" where
  "demo_monitor = demo_world\<lparr>wstate := (wstate demo_world)\<lparr>activeOrders := [(JStr ''o'', demo_order)]\<rparr>\<rparr>"


text \<open>Calls that lock or move the maker's tokens, and accepted transactions that lock the resolver's.\<close>

definition locks_maker :: "ext \<Rightarrow> bool" where
  "locks_maker c \<longleftrightarrow> ext_name c \<in> {''contract.createEscrowFor'', ''contract.createEscrowWithMetaTx'', ''contract.transferWithPermit''}"

definition locked_resolver :: "ext \<times> jsval res \<Rightarrow> bool" where
  "locked_resolver c \<longleftrightarrow> is_ok (snd c) \<and> ext_name (fst c) \<in> {''contract.createEscrow'', ''aptos.transaction.submit.simple''}"

lemma grows_ethers: "grows (formatEther v)" "grows (getBigInt t)" "grows (parseEther t)" "grows (receipt_hash tx)" "grows buffered_gas_price"
  "grows (ether_value a d)"
  unfolding grows_def formatEther_def getBigInt_def parseEther_def receipt_hash_def buffered_gas_price_def ether_value_def
  by (intro cost_rules; simp)+

lemma makes_send: "makes locked_resolver (send_tx addr ''createEscrow'' args opts)"
  unfolding send_tx_def by (rule makes_call) (simp add: locked_resolver_def)

lemma makes_if: "makes Q a \<Longrightarrow> makes Q b \<Longrightarrow> makes Q (if c then a else b)"
  by simp

lemma makes_raise: "makes Q (raise e)"
  by (simp add: makes_def raise_def)

lemma grows_atoms: "grows (call n a)" "grows (do_call n a)" "grows (prop_p v k)" "grows (lift_res r)" "grows get_st" "grows (ret x)" "grows (raise e)"
  unfolding grows_def by (intro cost_rules; simp)+

lemma grows_bind: "grows m \<Longrightarrow> (\<And>x. grows (f x)) \<Longrightarrow> grows (bind_p m f)"
  unfolding grows_def by (rule costs_bind0)

lemma grows_when: "grows m \<Longrightarrow> grows (when_p b m)"
  by (simp add: when_p_def grows_atoms)

lemma grows_big: "grows m \<Longrightarrow> grows (big_p m)"
  unfolding big_p_def by (intro grows_bind grows_atoms)

lemmas grows_compound = grows_bind grows_when grows_big

lemma makes_token_escrow: "makes locked_resolver (create_token_escrow c e b tk a h t sd)"
  unfolding create_token_escrow_def
  by (intro makes_then makes_if makes_raise makes_first[OF makes_send] grows_ethers grows_atoms grows_compound)

lemma makes_ethereum_escrow: "makes locked_resolver (createEthereumEscrow c e b tk a h t sd None)"
proof -
  have "makes locked_resolver (if tk = ZeroAddress then bind_p (ether_value a sd) (\<lambda>value. send_tx (escrowAddr c) ''createEscrow''
      [e, JStr b, JStr tk, JStr a, h, JNum t] [(''value'', value)]) else create_token_escrow c e b tk a h t sd)"
    by (intro makes_if makes_then makes_send makes_token_escrow grows_ethers)
  then show ?thesis unfolding createEthereumEscrow_def option.case
    by (intro makes_then makes_first[of _ "if tk = ZeroAddress then _ else _"] grows_ethers grows_atoms grows_compound) simp_all
qed

lemma grows_seq_p: "(\<And>m. m \<in> set ms \<Longrightarrow> grows m) \<Longrightarrow> grows (seq_p ms)"
  by (induction ms) (auto intro!: grows_atoms grows_compound)

lemma makes_aptos_escrow: "makes locked_resolver (createAptosEscrow c e d b a h t sd)"
proof -
  have m: "makes locked_resolver (sign_submit s txn)" for s txn
    unfolding sign_submit_def
    by (intro makes_then makes_first[OF makes_call(1)] grows_atoms) (simp add: locked_resolver_def)
  have g: "grows (check_success v x)" for v x
    unfolding check_success_def grows_def by (intro cost_rules)
  show ?thesis
    unfolding createAptosEscrow_def createEscrow_def entry_function_def
    by (intro makes_then[OF grows_seq_p] makes_then[OF grows_atoms(1)] makes_first[OF m] g grows_atoms grows_bind)
       (auto simp: u64_def intro!: grows_atoms grows_bind)
qed

lemma makes_case_Chain: "makes Q a \<Longrightarrow> makes Q b \<Longrightarrow> makes Q (case c of ETHEREUM \<Rightarrow> a | APTOS \<Rightarrow> b)"
  by (cases c) simp_all

lemma grows_balance: "grows (getEthereumBalance addr tok)"
  unfolding getEthereumBalance_def grows_def by (intro cost_rules; simp)

lemma makes_destination: "makes locked_resolver (create_destination self order e a h t sd)"
  unfolding create_destination_def
  by (intro makes_case_Chain makes_then makes_if makes_raise makes_ethereum_escrow makes_aptos_escrow grows_balance grows_ethers grows_atoms)

lemma costs_case_Chain [cost_rules]: "costs P n a \<Longrightarrow> costs P n b \<Longrightarrow> costs P n (case c of ETHEREUM \<Rightarrow> a | APTOS \<Rightarrow> b)"
  by (cases c) simp_all

lemma costs_case_sum [cost_rules]:
  "(\<And>e. costs P n (f e)) \<Longrightarrow> (\<And>x. costs P n (g x)) \<Longrightarrow> costs P n (case r of Inl e \<Rightarrow> f e | Inr x \<Rightarrow> g x)"
  by (cases r) simp_all

lemma costs_attempt [cost_rules]: "costs P n m \<Longrightarrow> costs P n (attempt m)"
  unfolding attempt_def by (intro costs_try0 costs_bind1 cost_rules)

lemma costs_seq_p [cost_rules]: "(\<And>m. m \<in> set ms \<Longrightarrow> costs P 0 m) \<Longrightarrow> costs P 0 (seq_p ms)"
  by (induction ms) (auto intro!: cost_rules)

lemma quiet_destination: "costs locks_maker 0 (create_destination self order e a h t sd)"
  unfolding create_destination_def createEthereumEscrow_def create_token_escrow_def getEthereumBalance_def ether_value_def
    buffered_gas_price_def formatEther_def getBigInt_def parseEther_def send_tx_def createAptosEscrow_def createEscrow_def
    entry_function_def sign_submit_def check_success_def u64_def option.case
  by (intro cost_rules) (auto simp: locks_maker_def intro!: cost_rules)

lemma quiet_preparation:
  "costs locks_maker 0 (ensure_approval self order)" "costs locks_maker 0 (output_amount self order)"
  "costs locks_maker 0 (order_hash order)" "costs locks_maker 0 (createFill self i ds)"
  "costs locks_maker 0 (destination_failed self order fill err)" "costs locks_maker 0 hour_lock" "costs locks_maker 0 (parseEther t)"
  unfolding ensure_approval_def output_amount_def order_hash_def createFill_def destination_failed_def updateFillStatus_def hour_lock_def
    clock_seconds_def clock_def parseEther_def quote_rate_def format_text_def getAllowance_def formatEther_def send_tx_def receipt_hash_def emit_def
  by (intro cost_rules; simp add: locks_maker_def)+

lemma grows_permit: "grows (executePermitTransfer pc prm sg tok rcp)" "grows (createEthereumEscrowFor c e dd b tk a h t)"
  unfolding executePermitTransfer_def createEthereumEscrowFor_def parseEther_def send_tx_def receipt_hash_def grows_def
  by (intro cost_rules; simp)+

lemma grows_emits: "grows (emit ev payload)" "grows (request_secret v)" "grows (updateFillStatus self vo i st extra)"
  "grows (mark_processed v)" "grows (set_pending v o1 fill e d)" "grows (find_destination o1 fill)"
  unfolding request_secret_def updateFillStatus_def mark_processed_def set_pending_def find_destination_def emit_def grows_def
  by (intro cost_rules; simp)+

lemma grows_source: "grows (executeGaslessWETHEscrow self o1 fill)" "grows (auto_source self order fill h e n)"
  "grows (source_step self order fill h e n)"
proof -
  show x: "grows (executeGaslessWETHEscrow self o1 fill)" for self o1 fill
    unfolding executeGaslessWETHEscrow_def Let_def send_tx_def formatEther_def parseEther_def grows_def
    by (intro cost_rules grows_emits) simp_all
  show y: "grows (auto_source self order fill h e n)" for self order fill h e n
    unfolding auto_source_def grows_def by (intro cost_rules grows_emits grows_permit) simp_all
  show "grows (source_step self order fill h e n)"
    unfolding source_step_def createSourceEscrowForAPT_def grows_def by (intro cost_rules x y grows_permit)
qed


lemmas creation_eval = createDestinationEscrow_def ensure_approval_def output_amount_def quote_rate_def wants_fetch_def clock_def ms_of_def
  getExchangeRate_def format_text_def order_hash_def hash_val_def opt_val_def attempt_def createFill_def destination_steps_def
  clock_seconds_def hour_lock_def parseEther_def create_destination_def createAptosEscrow_def createEscrow_def entry_function_def u64_def
  source_step_def is_apt_order_def is_weth_order_def has_permit_def executePermitTransfer_def auto_source_def createEthereumEscrowFor_def
  mark_processed_def request_secret_def set_pending_def set_add_def env_text_def

definition lock_order :: Order where
  "lock_order = \<lparr>fromChain = ETHEREUM, toChain = APTOS, fromToken = ''0xt'', toToken = ''0x1::aptos_coin::AptosCoin'',
     fromAmount = ''2000'', minToAmount = ''90'', maker = ''0xu'', receiver = ''0xv'', signature = '''', deadline = Fin 0, nonce = ''1'',
     partialFillAllowed = False, partialFillEnabled = False, secretHash = Some ''0xh'', secretHashes = None,
     partialFillSecrets = None, maxParts = None, activeResolvers = None, dutchAuction = None,
     permit = Some \<lparr>permit_owner = ''0xu'', permit_spender = ''0xr'', permit_value = ''2000'', permit_nonce = ''1'', permit_deadline = Fin 9\<rparr>,
     permitSignature = Some ''0xsig'', gasless = None, gaslessData = None, order_id = ''o'', order_status = PENDING,
     filledAmount = ''0'', filledPercentage = Fin 0, createdAt = 0, updatedAt = 0, fills = []\<rparr>"

lemma lock_order_simps [simp]:
  "fromChain lock_order = ETHEREUM" "toChain lock_order = APTOS" "fromToken lock_order = ''0xt''"
  "toToken lock_order = ''0x1::aptos_coin::AptosCoin''" "fromAmount lock_order = ''2000''" "maker lock_order = ''0xu''"
  "receiver lock_order = ''0xv''" "secretHash lock_order = Some ''0xh''" "order_id lock_order = ''o''" "permitSignature lock_order = Some ''0xsig''"
  "permit lock_order = Some \<lparr>permit_owner = ''0xu'', permit_spender = ''0xr'', permit_value = ''2000'', permit_nonce = ''1'', permit_deadline = Fin 9\<rparr>"
  by (simp_all add: lock_order_def)

definition lock_answers :: outside where
  "lock_answers t c =
     (if ext_name c = ''ethers.parseEther'' then Inr (JBig 7)
      else if ext_name c = ''ethers.formatEther'' then Inr (JStr ''2'')
      else if ext_name c = ''Date.now'' then Inr (JNum (Fin 5))
      else if ext_name c = ''axios.post'' then Inr (JObj [(''data'', JObj [(''data'', demo_fill)])])
      else Inr (JObj [(''hash'', JStr ''0xt''), (''success'', JBool True)]))"

lemma lock_numbers:
  "calculateOutputAmount ''2'' (Fin 1) True = ''1.98''"
  "show_num (js_floor (js_mul (js_parseFloat ''1.98'') (Fin 100000000))) = ''198000000''"
  "js_BigInt ''198000000'' = Inr 198000000"
  "js_add (js_floor (fl (1 / 200))) (Fin 3600) = Fin 3600" "bigint_of_num (Fin 3600) = Inr 3600" "show_int 7 = ''7''" "js_BigInt ''7'' = Inr 7"
  "fallback_rate ''0XT/APT'' = Fin 1" "toUpperCase ''0xt'' = ''0XT''" "toUpperCase ''APT'' = ''APT''"
  "map_token ''0xw'' ''0xt'' = ''0xt''" "map_token ''0xw'' ''0x1::aptos_coin::AptosCoin'' = ''APT''"
  "toLowerCase ''0xt'' = ''0xt''" "toLowerCase ''0xw'' = ''0xw''"
  by code_simp+



abbreviation maker_locks :: "(string \<times> bool) list" where
  "maker_locks \<equiv> [(''contract.transferWithPermit'', True), (''contract.createEscrowFor'', True)]"

lemma returns_attempt: "returns P orc m v L \<Longrightarrow> returns P orc (attempt m) (Inr v) L"
  unfolding attempt_def by (rule returns_try, rule returns_bind[where K = "[]", simplified, OF _ returns_ret])

lemma run_output:
  "\<exists>u s1. output_amount demo_self lock_order lock_answers \<lparr>wstate = resolver_init, wtrace = t\<rparr> =
     (Inr ''198000000'', \<lparr>wstate = s1, wtrace = t @ u\<rparr>) \<and> seen locks_maker u = []"
  by (simp add: creation_eval lock_numbers lock_answers_def demo_self_def resolver_init_def locks_maker_def seen_def flow_eval)

lemma run_fill: "returns locks_maker lock_answers (createFill demo_self ''o'' ds) demo_fill []"
  unfolding returns_def seen_def by (simp add: createFill_def lock_answers_def demo_self_def locks_maker_def flow_eval)

lemma run_create:
  "returns locks_maker lock_answers (create_destination demo_self lock_order i ''198000000'' (JStr ''0xh'') (Fin 3600) ''7'') (JStr ''0xt'') []"
  unfolding returns_def seen_def
  by (simp add: creation_eval lock_numbers lock_answers_def demo_self_def locks_maker_def flow_eval)

lemma run_source:
  "returns locks_maker lock_answers (source_step demo_self lock_order demo_fill (JStr ''0xh'') i (Fin 3600)) ()
     maker_locks"
  unfolding returns_def seen_def
  by (simp add: creation_eval lock_numbers lock_answers_def demo_self_def locks_maker_def flow_eval bind_emit)

lemma run_small:
  "returns locks_maker lock_answers (call ''ethers.id'' a) (JObj [(''hash'', JStr ''0xt''), (''success'', JBool True)]) []"
  "returns locks_maker lock_answers hour_lock (Fin 3600) []" "returns locks_maker lock_answers (parseEther x) 7 []"
  "returns locks_maker lock_answers (prop_p demo_fill ''id'') (JStr ''f'') []" "returns locks_maker lock_answers (updateFillStatus demo_self o1 i st ds) () []"
  "returns locks_maker lock_answers (upd_st g) () []"
  by (simp_all add: returns_def seen_def lock_answers_def locks_maker_def hour_lock_def clock_seconds_def clock_def parseEther_def
    demo_fill_def lock_numbers flow_eval)

lemma run_emit: "returns locks_maker orc (emit ev p) () []"
  by (rule returns_emit) (simp add: locks_maker_def)

lemma run_steps:
  "returns locks_maker lock_answers (destination_steps demo_self lock_order ''198000000'' (JStr ''0xh'') demo_fill) ()
     maker_locks"
  unfolding destination_steps_def
  by (intro returns_quiet[OF run_small(1)] returns_quiet[OF run_small(2)] returns_quiet[OF run_small(3)] returns_quiet[OF run_create[folded lock_numbers(6)]]
     returns_quiet[OF run_small(4)] returns_quiet[OF run_small(5)] returns_quiet[OF run_small(6)] returns_quiet[OF run_emit] run_source)
  

end
