(* ===== verification/Transactions.thy ===== *)
theory Transactions
  imports Prelude
begin

section \<open>Transactions that complete or abort\<close>

text \<open>
  Contract code in Solidity and in Move changes the state of its chain step by step; when a step
  aborts, nothing of the transaction remains. \<open>('e, 'c, 'a) tx\<close> is such code: from a chain state it
  gives an error or a value with the new state. The collection \<open>tx_runs\<close> unfolds a run.
\<close>

type_synonym ('e, 'c, 'a) tx = "'c \<Rightarrow> 'e + 'a \<times> 'c"

definition tx_ret :: "'a \<Rightarrow> ('e, 'c, 'a) tx" where
  "tx_ret x s = Inr (x, s)"

definition tx_bind :: "('e, 'c, 'a) tx \<Rightarrow> ('a \<Rightarrow> ('e, 'c, 'b) tx) \<Rightarrow> ('e, 'c, 'b) tx" where
  "tx_bind m f s = (case m s of Inl e \<Rightarrow> Inl e | Inr (x, t) \<Rightarrow> f x t)"

definition tx_then :: "('e, 'c, 'a) tx \<Rightarrow> ('e, 'c, 'b) tx \<Rightarrow> ('e, 'c, 'b) tx" where
  "tx_then m n = tx_bind m (\<lambda>_. n)"

definition revert_with :: "'e \<Rightarrow> ('e, 'c, 'a) tx" where
  "revert_with e s = Inl e"

definition require_that :: "bool \<Rightarrow> 'e \<Rightarrow> ('e, 'c, unit) tx" where
  "require_that b e s = (if b then Inr ((), s) else Inl e)"

definition read :: "('c \<Rightarrow> 'a) \<Rightarrow> ('e, 'c, 'a) tx" where
  "read f s = Inr (f s, s)"

definition update :: "('c \<Rightarrow> 'c) \<Rightarrow> ('e, 'c, unit) tx" where
  "update f s = Inr ((), f s)"

primrec tx_seq :: "('e, 'c, unit) tx list \<Rightarrow> ('e, 'c, unit) tx" where
  "tx_seq [] = tx_ret ()"
| "tx_seq (m # ms) = tx_then m (tx_seq ms)"

lemma tx_seq_require:
  "tx_seq (require_that b e # ms) s = (if b then tx_seq ms s else Inl e)"
  by (simp add: tx_then_def tx_bind_def require_that_def)

lemma tx_seq_last: "tx_seq [m] s = m s"
  by (simp add: tx_then_def tx_bind_def tx_ret_def split: sum.splits prod.splits)

named_theorems tx_runs \<open>what a run of a contract function does\<close>

lemma tx_ret_run [tx_runs]: "tx_ret x s = Inr (x, s)"
  by (simp add: tx_ret_def)

lemma read_run [tx_runs]: "tx_bind (read f) g s = g (f s) s"
  by (simp add: tx_bind_def read_def)

lemma update_run [tx_runs]: "tx_bind (update f) g s = g () (f s)"
  by (simp add: tx_bind_def update_def)

lemma require_run [tx_runs]:
  "tx_bind (require_that b e) g s = (if b then g () s else Inl e)"
  by (simp add: tx_bind_def require_that_def)

lemma tx_bind_Inr: "tx_bind m f s = Inr r \<longleftrightarrow> (\<exists>x t. m s = Inr (x, t) \<and> f x t = Inr r)"
  by (auto simp: tx_bind_def split: sum.splits)

lemma tx_bind_assoc [tx_runs]: "tx_bind (tx_bind m f) g s = tx_bind m (\<lambda>x. tx_bind (f x) g) s"
  by (simp add: tx_bind_def split: sum.splits)

lemma tx_bind_if [tx_runs]: "tx_bind (if b then m else n) f s = (if b then tx_bind m f s else tx_bind n f s)"
  by simp

lemma tx_bind_ret [tx_runs]: "tx_bind (tx_ret x) f s = f x s"
  by (simp add: tx_bind_def tx_ret_def)

lemmas tx_last_runs [tx_runs] = revert_with_def require_that_def read_def update_def

declare tx_seq.simps [simp del, tx_runs] tx_then_def [tx_runs]

text \<open>The state after a transaction.\<close>

definition outcome :: "('e, 'c, 'a) tx \<Rightarrow> 'c \<Rightarrow> 'c" where
  "outcome f s = (case f s of Inl _ \<Rightarrow> s | Inr (_, t) \<Rightarrow> t)"

lemma outcome_cases:
  obtains (aborted) "outcome f s = s" | (completed) x where "f s = Inr (x, outcome f s)"
  by (cases "f s") (auto simp: outcome_def)

end
