(* ===== verification/Evm.thy ===== *)
theory Evm
  imports Transactions "HOL-Library.Word"
begin

section \<open>Contracts on an Ethereum chain\<close>

text \<open>
  What the Solidity contracts under \<^verbatim>\<open>contracts/ethereum/contracts\<close> share: the machine types, the
  state of the chain as a contract sees it, transactions that either complete or revert, the
  \<^verbatim>\<open>Escrow\<close> structure with the events of the escrow contracts, and the interface \<open>htlc\<close> of a contract
  that keeps hash time locks.

  Code outside the repository is an argument, collected in \<open>sol_env\<close>: the hash function, the token
  contracts, the OpenZeppelin wrappers around them and signature recovery. A call of a token
  contract may change the whole chain, the storage of the calling contract included; what a theorem
  needs of it is a hypothesis. A transaction starts with the reentrancy guard released, so
  \<^verbatim>\<open>nonReentrant\<close> has no counterpart: what it excludes is the subject of those hypotheses.
\<close>

subsection \<open>Machine types\<close>

type_synonym evm_address = "160 word"
type_synonym uint256 = "256 word"
type_synonym bytes32 = "256 word"
type_synonym byte = "8 word"

text \<open>The big-endian bytes of a machine word, as \<^verbatim>\<open>abi.encode\<close> lays it out.\<close>

definition word_bytes :: "bytes32 \<Rightarrow> byte list" where
  "word_bytes w = map (\<lambda>i. ucast (drop_bit (8 * i) w)) (rev [0..<32])"

definition address_word :: "evm_address \<Rightarrow> bytes32" where
  "address_word a = ucast a"

definition text_bytes :: "string \<Rightarrow> byte list" where
  "text_bytes s = map of_char s"

definition abi_encode :: "bytes32 list \<Rightarrow> byte list" where
  "abi_encode ws = concat (map word_bytes ws)"

lemma length_word_bytes [simp]: "length (word_bytes w) = 32"
  by (simp add: word_bytes_def)

lemma word_bytes_inject [simp]: "word_bytes v = word_bytes w \<longleftrightarrow> v = w"
proof
  assume eq: "word_bytes v = word_bytes w"
  show "v = w"
  proof (rule bit_word_eqI)
    fix n :: nat assume "n < LENGTH(256)"
    then have k: "n div 8 \<in> set (rev [0..<32])" by auto
    have "\<forall>i \<in> set (rev [0..<32]). (ucast (drop_bit (8 * i) v) :: byte) = ucast (drop_bit (8 * i) w)"
      using eq unfolding word_bytes_def map_eq_conv .
    then have "bit (ucast (drop_bit (8 * (n div 8)) v) :: byte) (n mod 8) =
        bit (ucast (drop_bit (8 * (n div 8)) w) :: byte) (n mod 8)"
      using k by metis
    then show "bit v n = bit w n" by (simp add: bit_ucast_iff bit_drop_bit_eq)
  qed
qed simp

lemma abi_encode_inject [simp]:
  "length vs = length ws \<Longrightarrow> abi_encode vs = abi_encode ws \<longleftrightarrow> vs = ws"
  by (induction vs ws rule: list_induct2) (auto simp: abi_encode_def append_eq_append_conv)

lemma address_word_inject [simp]: "address_word a = address_word b \<longleftrightarrow> a = b"
proof
  assume eq: "address_word a = address_word b"
  show "a = b"
  proof (rule bit_word_eqI)
    fix n :: nat assume "n < LENGTH(160)"
    moreover have "bit (address_word a) n = bit (address_word b) n" using eq by simp
    ultimately show "bit a n = bit b n" by (simp add: address_word_def bit_ucast_iff)
  qed
qed simp

subsection \<open>The chain and the transactions\<close>

text \<open>
  \<open>balance\<close> holds the ether of every account (far below the word size, so a natural number),
  \<open>storage\<close> the variables of the contract under study, \<open>world\<close> everything else, and \<open>logs\<close> the events
  the contract has emitted, the latest first.
\<close>

datatype sol_event =
    EscrowCreated bytes32 evm_address evm_address evm_address uint256 bytes32 uint256
  | EscrowWithdrawn bytes32 bytes32
  | EscrowRefunded bytes32
  | PartialFillOrderCreated bytes32 evm_address evm_address uint256 bytes32 uint256
  | PermitUsed evm_address evm_address uint256 uint256
  | TransferWithPermit evm_address evm_address evm_address uint256
  | SecretRevealSent "32 word" bytes32 bytes32 evm_address
  | SecretRevealReceived "32 word" bytes32 bytes32 evm_address

record ('s, 'w) evm =
  balance :: "evm_address \<Rightarrow> nat"
  storage :: 's
  world :: 'w
  logs :: "sol_event list"

record msg =
  sender :: evm_address
  val :: uint256
  now :: uint256

text \<open>A failed call: \<^verbatim>\<open>require\<close> with its text, a custom error, a checked arithmetic operation, or a
  failed external call.\<close>

datatype revert = Require string | Custom string | Arithmetic | CallFailed

type_synonym ('c, 'a) sol = "(revert, 'c, 'a) tx"

text \<open>Checked arithmetic.\<close>

definition checked_add :: "uint256 \<Rightarrow> uint256 \<Rightarrow> ('c, uint256) sol" where
  "checked_add a b s = (if unat a + unat b < 2 ^ 256 then Inr (a + b, s) else Inl Arithmetic)"

definition checked_sub :: "uint256 \<Rightarrow> uint256 \<Rightarrow> ('c, uint256) sol" where
  "checked_sub a b s = (if b \<le> a then Inr (a - b, s) else Inl Arithmetic)"

lemma checked_add_run [tx_runs]:
  "tx_bind (checked_add a b) g s = (if unat a + unat b < 2 ^ 256 then g (a + b) s else Inl Arithmetic)"
  by (simp add: tx_bind_def checked_add_def)

lemma checked_sub_run [tx_runs]:
  "tx_bind (checked_sub a b) g s = (if b \<le> a then g (a - b) s else Inl Arithmetic)"
  by (simp add: tx_bind_def checked_sub_def)

text \<open>A function that is not payable reverts when ether comes with the call.\<close>

definition nonpayable :: "msg \<Rightarrow> ('c, 'a) sol \<Rightarrow> ('c, 'a) sol" where
  "nonpayable m f = tx_then (require_that (val m = 0) CallFailed) f"

lemma nonpayable_run [tx_runs]: "nonpayable m f s = (if val m = 0 then f s else Inl CallFailed)"
  by (simp add: nonpayable_def tx_runs)

subsection \<open>Code outside the repository\<close>

text \<open>
  \<open>accepts\<close> says which accounts take a plain transfer of ether with its 2300 units of gas, too few
  to change any state. A token call gives \<open>None\<close> when it reverts. \<open>recover\<close> is \<^verbatim>\<open>ECDSA.recover\<close>, which
  reverts on a malformed signature; \<open>hashTypedDataV4\<close> binds a structure to the domain of the contract.
\<close>

record 'c sol_env =
  this :: evm_address
  keccak256 :: "byte list \<Rightarrow> bytes32"
  accepts :: "evm_address \<Rightarrow> bool"
  erc20_transferFrom :: "evm_address \<Rightarrow> evm_address \<Rightarrow> evm_address \<Rightarrow> uint256 \<Rightarrow> 'c \<Rightarrow> (bool \<times> 'c) option"
  erc20_transfer :: "evm_address \<Rightarrow> evm_address \<Rightarrow> uint256 \<Rightarrow> 'c \<Rightarrow> (bool \<times> 'c) option"
  erc20_balanceOf :: "evm_address \<Rightarrow> evm_address \<Rightarrow> 'c \<Rightarrow> uint256 option"
  erc20_permit :: "evm_address \<Rightarrow> evm_address \<Rightarrow> evm_address \<Rightarrow> uint256 \<Rightarrow> uint256 \<Rightarrow>
    byte \<Rightarrow> bytes32 \<Rightarrow> bytes32 \<Rightarrow> 'c \<Rightarrow> 'c option"
  safeTransferFrom :: "evm_address \<Rightarrow> evm_address \<Rightarrow> evm_address \<Rightarrow> uint256 \<Rightarrow> 'c \<Rightarrow> 'c option"
  safeTransfer :: "evm_address \<Rightarrow> evm_address \<Rightarrow> uint256 \<Rightarrow> 'c \<Rightarrow> 'c option"
  eth_call :: "evm_address \<Rightarrow> uint256 \<Rightarrow> 'c \<Rightarrow> bool \<times> 'c"
  recover :: "bytes32 \<Rightarrow> byte \<Rightarrow> bytes32 \<Rightarrow> bytes32 \<Rightarrow> evm_address option"
  hashTypedDataV4 :: "bytes32 \<Rightarrow> bytes32"

definition external :: "('c \<Rightarrow> ('a \<times> 'c) option) \<Rightarrow> ('c, 'a) sol" where
  "external f s = (case f s of None \<Rightarrow> Inl CallFailed | Some r \<Rightarrow> Inr r)"

definition external_unit :: "('c \<Rightarrow> 'c option) \<Rightarrow> ('c, unit) sol" where
  "external_unit f s = (case f s of None \<Rightarrow> Inl CallFailed | Some t \<Rightarrow> Inr ((), t))"

definition external_view :: "('c \<Rightarrow> 'a option) \<Rightarrow> ('c, 'a) sol" where
  "external_view f s = (case f s of None \<Rightarrow> Inl CallFailed | Some x \<Rightarrow> Inr (x, s))"

lemma external_runs [tx_runs]:
  "tx_bind (external f) g s = (case f s of None \<Rightarrow> Inl CallFailed | Some (x, t) \<Rightarrow> g x t)"
  "tx_bind (external_unit h) k s = (case h s of None \<Rightarrow> Inl CallFailed | Some t \<Rightarrow> k () t)"
  "tx_bind (external_view v) l s = (case v s of None \<Rightarrow> Inl CallFailed | Some y \<Rightarrow> l y s)"
  by (simp_all add: tx_bind_def external_def external_unit_def external_view_def split: option.splits)

definition move_eth :: "evm_address \<Rightarrow> evm_address \<Rightarrow> nat \<Rightarrow> ('s, 'w) evm \<Rightarrow> ('s, 'w) evm" where
  "move_eth a b n s = s\<lparr>balance := (let f = (balance s)(a := balance s a - n) in f(b := f b + n))\<rparr>"

text \<open>
  \<^verbatim>\<open>payable(to).transfer(amount)\<close>. None of the escrow contracts has a receive function, so a transfer
  to the contract itself reverts.
\<close>

definition pay :: "('s, 'w) evm sol_env \<Rightarrow> evm_address \<Rightarrow> uint256 \<Rightarrow> (('s, 'w) evm, unit) sol" where
  "pay env to amt s =
     (if unat amt \<le> balance s (this env) \<and> accepts env to \<and> to \<noteq> this env
      then Inr ((), move_eth (this env) to (unat amt) s) else Inl CallFailed)"

lemma pay_run [tx_runs]:
  "tx_bind (pay env to amt) g s =
     (if unat amt \<le> balance s (this env) \<and> accepts env to \<and> to \<noteq> this env
      then g () (move_eth (this env) to (unat amt) s) else Inl CallFailed)"
  by (simp add: tx_bind_def pay_def)

definition emit :: "sol_event \<Rightarrow> (('s, 'w) evm, unit) sol" where
  "emit ev = update (\<lambda>s. s\<lparr>logs := ev # logs s\<rparr>)"

definition store :: "('s \<Rightarrow> 's) \<Rightarrow> (('s, 'w) evm, unit) sol" where
  "store f = update (\<lambda>s. s\<lparr>storage := f (storage s)\<rparr>)"

declare emit_def [tx_runs] store_def [tx_runs]

text \<open>A transaction brings its ether into the contract first; when the call reverts nothing remains of it.\<close>

definition transact :: "('s, 'w) evm sol_env \<Rightarrow> msg \<Rightarrow> (('s, 'w) evm, 'a) sol \<Rightarrow> (('s, 'w) evm, 'a) sol" where
  "transact env m f s =
     (if unat (val m) \<le> balance s (sender m)
      then f (move_eth (sender m) (this env) (unat (val m)) s) else Inl CallFailed)"

lemma move_eth_fields [simp]:
  "storage (move_eth a b n s) = storage s" "world (move_eth a b n s) = world s"
  "logs (move_eth a b n s) = logs s"
  by (simp_all add: move_eth_def)

lemma move_eth_balance:
  "a \<noteq> b \<Longrightarrow> balance (move_eth a b n s) c =
     (if c = a then balance s a - n else if c = b then balance s b + n else balance s c)"
  by (simp add: move_eth_def Let_def)

end
