(* ===== verification/Htlc.thy ===== *)
theory Htlc
  imports Prelude
begin

section \<open>The interface of a hash time lock contract\<close>

text \<open>
  Every escrow contract of the repository, in Solidity and in Move, keeps entries that pass from
  open to paid (against a secret) or to returned (after the time lock). The locale states what a
  contract promises of each of its steps; what follows for every sequence of steps is proved here
  once, and each contract interprets the locale on its own transactions.
\<close>

datatype phase = Absent | Open | Paid | Returned

fun phase_step :: "phase \<Rightarrow> phase \<Rightarrow> bool" where
  "phase_step Absent q = (q = Absent \<or> q = Open)"
| "phase_step Open q = (q \<noteq> Absent)"
| "phase_step Paid q = (q = Paid)"
| "phase_step Returned q = (q = Returned)"

definition settled :: "phase \<Rightarrow> bool" where
  "settled p \<longleftrightarrow> p = Paid \<or> p = Returned"

lemma phase_step_refl [simp, intro]: "phase_step p p"
  by (cases p) simp_all

lemma phase_step_settled: "phase_step p q \<Longrightarrow> settled p \<Longrightarrow> q = p"
  by (cases p) (simp_all add: settled_def)

text \<open>The phases that can follow a phase in any number of steps.\<close>

fun phase_leads :: "phase \<Rightarrow> phase \<Rightarrow> bool" where
  "phase_leads Absent q = True"
| "phase_leads p q = phase_step p q"

lemma phase_leads_refl: "phase_leads p p"
  by (cases p) simp_all

lemma phase_leads_trans: "phase_leads p q \<Longrightarrow> phase_leads q r \<Longrightarrow> phase_leads p r"
  by (cases p; cases q) simp_all

lemma phase_step_leads: "phase_step p q \<Longrightarrow> phase_leads p q"
  by (cases p) simp_all

text \<open>How often an entry is settled in a run.\<close>

fun settlements :: "('s \<Rightarrow> 'e \<Rightarrow> 's) \<Rightarrow> ('s \<Rightarrow> phase) \<Rightarrow> 's \<Rightarrow> 'e list \<Rightarrow> nat" where
  "settlements step ph s [] = 0"
| "settlements step ph s (e # es) =
     (if \<not> settled (ph s) \<and> settled (ph (step s e)) then 1 else 0) + settlements step ph (step s e) es"

locale htlc = machine step ok inv
  for step :: "'s \<Rightarrow> 'e \<Rightarrow> 's" and ok :: "'s \<Rightarrow> 'e \<Rightarrow> bool" and inv :: "'s \<Rightarrow> bool" +
  fixes phase_of :: "'s \<Rightarrow> 'i \<Rightarrow> phase"
    and terms_of :: "'s \<Rightarrow> 'i \<Rightarrow> 't"
  assumes entry_phase: "inv s \<Longrightarrow> ok s e \<Longrightarrow> phase_step (phase_of s i) (phase_of (step s e) i)"
    and entry_terms: "inv s \<Longrightarrow> ok s e \<Longrightarrow> phase_of s i \<noteq> Absent \<Longrightarrow> terms_of (step s e) i = terms_of s i"
begin

lemma run_phase:
  "inv s \<Longrightarrow> legal_run step ok s es \<Longrightarrow> phase_leads (phase_of s i) (phase_of (foldl step s es) i)"
  by (rule run_rel[where R = "\<lambda>s t. phase_leads (phase_of s i) (phase_of t i)"])
    (auto intro: phase_leads_refl phase_step_leads entry_phase dest: phase_leads_trans)

lemma run_settled:
  assumes "inv s" "legal_run step ok s es" "settled (phase_of s i)"
  shows "phase_of (foldl step s es) i = phase_of s i"
  using run_phase[OF assms(1,2), of i] assms(3) by (cases "phase_of s i") (auto simp: settled_def)

lemma run_terms:
  assumes "inv s" "legal_run step ok s es" "phase_of s i \<noteq> Absent"
  shows "phase_of (foldl step s es) i \<noteq> Absent \<and> terms_of (foldl step s es) i = terms_of s i"
proof -
  let ?R = "\<lambda>s t. phase_of s i \<noteq> Absent \<longrightarrow> phase_of t i \<noteq> Absent \<and> terms_of t i = terms_of s i"
  have "?R s (foldl step s es)"
  proof (rule run_rel[where R = ?R, OF _ _ _ assms(1,2)])
    fix t e assume "inv t" "ok t e"
    with entry_phase[of t e i] entry_terms[of t e i] show "?R t (step t e)"
      by (cases "phase_of t i") auto
  qed auto
  with assms(3) show ?thesis by simp
qed

lemma settled_no_more:
  "inv s \<Longrightarrow> legal_run step ok s es \<Longrightarrow> settled (phase_of s i) \<Longrightarrow> settlements step (\<lambda>s. phase_of s i) s es = 0"
proof (induction es arbitrary: s)
  case (Cons e es)
  from Cons.prems have "phase_of (step s e) i = phase_of s i"
    by (auto intro!: phase_step_settled[OF entry_phase])
  moreover have "inv (step s e)" using Cons.prems by (auto intro: step_inv)
  ultimately show ?case using Cons by simp
qed simp

lemma settles_once:
  "inv s \<Longrightarrow> legal_run step ok s es \<Longrightarrow> settlements step (\<lambda>s. phase_of s i) s es \<le> 1"
proof (induction es arbitrary: s)
  case (Cons e es)
  show ?case
  proof (cases "settled (phase_of (step s e) i)")
    case True
    with Cons.prems have "settlements step (\<lambda>s. phase_of s i) (step s e) es = 0"
      by (intro settled_no_more) (auto intro: step_inv)
    then show ?thesis by simp
  qed (use Cons in \<open>auto intro: step_inv\<close>)
qed simp

end

end
