(* ===== verification/EvmEscrow.thy ===== *)
theory EvmEscrow
  imports Evm Htlc
begin

section \<open>The escrow contracts on Ethereum\<close>

text \<open>
  \<^verbatim>\<open>FusionPlusEscrow.sol\<close> and \<^verbatim>\<open>FusionPlusEscrowV2.sol\<close>, and what the gasless contracts share with them:
  the \<^verbatim>\<open>Escrow\<close> structure and the accounting of what a contract owes. The mapping \<^verbatim>\<open>escrows\<close> is a total
  function; an identifier that was never used reads as the structure of zeros. A storage reference
  is read again after each external call, as the compiled code does.
\<close>

record Escrow =
  depositor :: evm_address
  beneficiary :: evm_address
  token :: evm_address
  amount :: uint256
  hashlock :: bytes32
  timelock :: uint256
  withdrawn :: bool
  refunded :: bool
  safetyDeposit :: uint256

definition no_escrow :: Escrow where
  "no_escrow = \<lparr>depositor = 0, beneficiary = 0, token = 0, amount = 0, hashlock = 0, timelock = 0,
     withdrawn = False, refunded = False, safetyDeposit = 0\<rparr>"

record escrow_storage =
  escrows :: "bytes32 \<Rightarrow> Escrow"

text \<open>Reading and writing one entry of the mapping.\<close>

abbreviation entry :: "bytes32 \<Rightarrow> ('a escrow_storage_scheme, 'w) evm \<Rightarrow> Escrow" where
  "entry i s \<equiv> escrows (storage s) i"

definition put_escrow :: "bytes32 \<Rightarrow> Escrow \<Rightarrow> (('a escrow_storage_scheme, 'w) evm, unit) sol" where
  "put_escrow i e = store (\<lambda>st. st\<lparr>escrows := (escrows st)(i := e)\<rparr>)"

definition mod_escrow :: "bytes32 \<Rightarrow> (Escrow \<Rightarrow> Escrow) \<Rightarrow> (('a escrow_storage_scheme, 'w) evm, unit) sol" where
  "mod_escrow i f = store (\<lambda>st. st\<lparr>escrows := (escrows st)(i := f (escrows st i))\<rparr>)"

declare put_escrow_def [tx_runs] mod_escrow_def [tx_runs]

definition new_escrow ::
  "evm_address \<Rightarrow> evm_address \<Rightarrow> evm_address \<Rightarrow> uint256 \<Rightarrow> bytes32 \<Rightarrow> uint256 \<Rightarrow> uint256 \<Rightarrow> Escrow" where
  "new_escrow dep ben tok amt lock until deposit =
     \<lparr>depositor = dep, beneficiary = ben, token = tok, amount = amt, hashlock = lock, timelock = until,
      withdrawn = False, refunded = False, safetyDeposit = deposit\<rparr>"

subsection \<open>FusionPlusEscrow\<close>

definition v1_createEscrow ::
  "('a escrow_storage_scheme, 'w) evm sol_env \<Rightarrow> msg \<Rightarrow> bytes32 \<Rightarrow> evm_address \<Rightarrow> evm_address \<Rightarrow> uint256 \<Rightarrow>
   bytes32 \<Rightarrow> uint256 \<Rightarrow> (('a escrow_storage_scheme, 'w) evm, unit) sol" where
  "v1_createEscrow env m escrowId ben tok amt lock until =
     tx_bind (read (entry escrowId)) (\<lambda>old. tx_seq [
       require_that (depositor old = 0) (Require ''Escrow already exists''),
       require_that (0 < amt) (Require ''Amount must be greater than 0''),
       require_that (now m < until) (Require ''Timelock must be in the future''),
       if tok = 0 then
         tx_then (require_that (amt \<le> val m) (Require ''Insufficient ETH sent''))
           (tx_bind (checked_sub (val m) amt) (\<lambda>deposit.
              put_escrow escrowId (new_escrow (sender m) ben tok amt lock until deposit)))
       else
         tx_bind (external (erc20_transferFrom env tok (sender m) (this env) amt)) (\<lambda>_.
           put_escrow escrowId (new_escrow (sender m) ben tok amt lock until (val m))),
       emit (EscrowCreated escrowId (sender m) ben tok amt lock until)])"

definition v1_withdraw ::
  "('a escrow_storage_scheme, 'w) evm sol_env \<Rightarrow> msg \<Rightarrow> bytes32 \<Rightarrow> bytes32 \<Rightarrow>
   (('a escrow_storage_scheme, 'w) evm, unit) sol" where
  "v1_withdraw env m escrowId secret = nonpayable m
     (tx_bind (read (entry escrowId)) (\<lambda>e. tx_seq [
       require_that (depositor e \<noteq> 0) (Require ''Escrow does not exist''),
       require_that (\<not> withdrawn e) (Require ''Already withdrawn''),
       require_that (\<not> refunded e) (Require ''Already refunded''),
       require_that (keccak256 env (word_bytes secret) = hashlock e) (Require ''Invalid secret''),
       mod_escrow escrowId (\<lambda>e. e\<lparr>withdrawn := True\<rparr>),
       if token e = 0 then pay env (beneficiary e) (amount e)
       else tx_bind (external (erc20_transfer env (token e) (beneficiary e) (amount e))) (\<lambda>_. tx_ret ()),
       tx_bind (read (entry escrowId)) (\<lambda>e.
         if 0 < safetyDeposit e then pay env (sender m) (safetyDeposit e) else tx_ret ()),
       emit (EscrowWithdrawn escrowId secret)]))"

definition v1_refund ::
  "('a escrow_storage_scheme, 'w) evm sol_env \<Rightarrow> msg \<Rightarrow> bytes32 \<Rightarrow>
   (('a escrow_storage_scheme, 'w) evm, unit) sol" where
  "v1_refund env m escrowId = nonpayable m
     (tx_bind (read (entry escrowId)) (\<lambda>e. tx_seq [
       require_that (depositor e \<noteq> 0) (Require ''Escrow does not exist''),
       require_that (\<not> withdrawn e) (Require ''Already withdrawn''),
       require_that (\<not> refunded e) (Require ''Already refunded''),
       require_that (timelock e \<le> now m) (Require ''Timelock not expired''),
       mod_escrow escrowId (\<lambda>e. e\<lparr>refunded := True\<rparr>),
       if token e = 0 then pay env (depositor e) (amount e)
       else tx_bind (external (erc20_transfer env (token e) (depositor e) (amount e))) (\<lambda>_. tx_ret ()),
       tx_bind (read (entry escrowId)) (\<lambda>e.
         if 0 < safetyDeposit e then pay env (sender m) (safetyDeposit e) else tx_ret ()),
       emit (EscrowRefunded escrowId)]))"

definition v1_getEscrow :: "bytes32 \<Rightarrow> (('a escrow_storage_scheme, 'w) evm, Escrow) sol" where
  "v1_getEscrow escrowId = read (entry escrowId)"

subsection \<open>FusionPlusEscrowV2\<close>

definition v2_createEscrowInternal ::
  "('a escrow_storage_scheme, 'w) evm sol_env \<Rightarrow> msg \<Rightarrow> bytes32 \<Rightarrow> evm_address \<Rightarrow> evm_address \<Rightarrow> evm_address \<Rightarrow>
   uint256 \<Rightarrow> bytes32 \<Rightarrow> uint256 \<Rightarrow> (('a escrow_storage_scheme, 'w) evm, unit) sol" where
  "v2_createEscrowInternal env m escrowId dep ben tok amt lock until =
     tx_bind (read (entry escrowId)) (\<lambda>old. tx_seq [
       require_that (depositor old = 0) (Require ''Escrow already exists''),
       require_that (0 < amt) (Require ''Amount must be greater than 0''),
       require_that (now m < until) (Require ''Timelock must be in the future''),
       if tok = 0 then
         tx_then (require_that (amt \<le> val m) (Require ''Insufficient ETH sent''))
           (tx_bind (checked_sub (val m) amt) (\<lambda>deposit.
              put_escrow escrowId (new_escrow dep ben tok amt lock until deposit)))
       else
         tx_bind (external (erc20_transferFrom env tok dep (this env) amt)) (\<lambda>_.
           put_escrow escrowId (new_escrow dep ben tok amt lock until (val m))),
       emit (EscrowCreated escrowId dep ben tok amt lock until)])"

definition v2_createEscrow ::
  "('a escrow_storage_scheme, 'w) evm sol_env \<Rightarrow> msg \<Rightarrow> bytes32 \<Rightarrow> evm_address \<Rightarrow> evm_address \<Rightarrow> uint256 \<Rightarrow>
   bytes32 \<Rightarrow> uint256 \<Rightarrow> (('a escrow_storage_scheme, 'w) evm, unit) sol" where
  "v2_createEscrow env m escrowId ben tok amt lock until =
     v2_createEscrowInternal env m escrowId (sender m) ben tok amt lock until"

definition v2_createEscrowFor ::
  "('a escrow_storage_scheme, 'w) evm sol_env \<Rightarrow> msg \<Rightarrow> bytes32 \<Rightarrow> evm_address \<Rightarrow> evm_address \<Rightarrow> evm_address \<Rightarrow>
   uint256 \<Rightarrow> bytes32 \<Rightarrow> uint256 \<Rightarrow> (('a escrow_storage_scheme, 'w) evm, unit) sol" where
  "v2_createEscrowFor env m escrowId dep ben tok amt lock until =
     v2_createEscrowInternal env m escrowId dep ben tok amt lock until"

definition v2_withdraw ::
  "('a escrow_storage_scheme, 'w) evm sol_env \<Rightarrow> msg \<Rightarrow> bytes32 \<Rightarrow> bytes32 \<Rightarrow>
   (('a escrow_storage_scheme, 'w) evm, unit) sol" where
  "v2_withdraw env m escrowId secret = nonpayable m
     (tx_bind (read (entry escrowId)) (\<lambda>e. tx_seq [
       require_that (depositor e \<noteq> 0) (Require ''Escrow does not exist''),
       require_that (\<not> withdrawn e) (Require ''Already withdrawn''),
       require_that (\<not> refunded e) (Require ''Already refunded''),
       require_that (keccak256 env (word_bytes secret) = hashlock e) (Require ''Invalid secret''),
       mod_escrow escrowId (\<lambda>e. e\<lparr>withdrawn := True\<rparr>),
       if token e = 0 then pay env (beneficiary e) (amount e)
       else tx_bind (external (erc20_transfer env (token e) (beneficiary e) (amount e))) (\<lambda>_. tx_ret ()),
       tx_bind (read (entry escrowId)) (\<lambda>e.
         if 0 < safetyDeposit e then pay env (sender m) (safetyDeposit e) else tx_ret ()),
       emit (EscrowWithdrawn escrowId secret)]))"

definition v2_refund ::
  "('a escrow_storage_scheme, 'w) evm sol_env \<Rightarrow> msg \<Rightarrow> bytes32 \<Rightarrow>
   (('a escrow_storage_scheme, 'w) evm, unit) sol" where
  "v2_refund env m escrowId = nonpayable m
     (tx_bind (read (entry escrowId)) (\<lambda>e. tx_seq [
       require_that (depositor e \<noteq> 0) (Require ''Escrow does not exist''),
       require_that (\<not> withdrawn e) (Require ''Already withdrawn''),
       require_that (\<not> refunded e) (Require ''Already refunded''),
       require_that (timelock e \<le> now m) (Require ''Timelock not expired''),
       mod_escrow escrowId (\<lambda>e. e\<lparr>refunded := True\<rparr>),
       if token e = 0 then pay env (depositor e) (amount e)
       else tx_bind (external (erc20_transfer env (token e) (depositor e) (amount e))) (\<lambda>_. tx_ret ()),
       tx_bind (read (entry escrowId)) (\<lambda>e.
         if 0 < safetyDeposit e then pay env (sender m) (safetyDeposit e) else tx_ret ()),
       emit (EscrowRefunded escrowId)]))"

definition v2_getEscrow ::
  "bytes32 \<Rightarrow> (('a escrow_storage_scheme, 'w) evm, evm_address \<times> evm_address \<times> evm_address \<times> uint256 \<times>
     bytes32 \<times> uint256 \<times> bool \<times> bool \<times> uint256) sol" where
  "v2_getEscrow escrowId = tx_bind (read (entry escrowId)) (\<lambda>e.
     tx_ret (depositor e, beneficiary e, token e, amount e, hashlock e, timelock e, withdrawn e,
       refunded e, safetyDeposit e))"

subsection \<open>Transactions\<close>

text \<open>
  A step of the chain is a transaction to the contract or anything else: \<open>Outside\<close> replaces the
  state of the chain by another one. A call with an unknown selector reverts.
\<close>

datatype escrow_call =
    CreateEscrow bytes32 evm_address evm_address uint256 bytes32 uint256
  | CreateEscrowFor bytes32 evm_address evm_address evm_address uint256 bytes32 uint256
  | Withdraw bytes32 bytes32
  | Refund bytes32

datatype ('c, 'k) chain_event = Tx msg 'k | Outside 'c

fun v1_call ::
  "('a escrow_storage_scheme, 'w) evm sol_env \<Rightarrow> msg \<Rightarrow> escrow_call \<Rightarrow> (('a escrow_storage_scheme, 'w) evm, unit) sol"
where
  "v1_call env m (CreateEscrow i b t a h u) = v1_createEscrow env m i b t a h u"
| "v1_call env m (CreateEscrowFor i d b t a h u) = revert_with CallFailed"
| "v1_call env m (Withdraw i x) = v1_withdraw env m i x"
| "v1_call env m (Refund i) = v1_refund env m i"

fun v2_call ::
  "('a escrow_storage_scheme, 'w) evm sol_env \<Rightarrow> msg \<Rightarrow> escrow_call \<Rightarrow> (('a escrow_storage_scheme, 'w) evm, unit) sol"
where
  "v2_call env m (CreateEscrow i b t a h u) = v2_createEscrow env m i b t a h u"
| "v2_call env m (CreateEscrowFor i d b t a h u) = v2_createEscrowFor env m i d b t a h u"
| "v2_call env m (Withdraw i x) = v2_withdraw env m i x"
| "v2_call env m (Refund i) = v2_refund env m i"

fun chain_step ::
  "('s, 'w) evm sol_env \<Rightarrow> (msg \<Rightarrow> 'k \<Rightarrow> (('s, 'w) evm, unit) sol) \<Rightarrow> ('s, 'w) evm \<Rightarrow>
   (('s, 'w) evm, 'k) chain_event \<Rightarrow> ('s, 'w) evm" where
  "chain_step env call s (Tx m c) = outcome (transact env m (call m c)) s"
| "chain_step env call s (Outside t) = t"

abbreviation "v1_step env \<equiv> chain_step env (v1_call env)"
abbreviation "v2_step env \<equiv> chain_step env (v2_call env)"

subsection \<open>What a contract owes\<close>

definition escrow_phase :: "Escrow \<Rightarrow> phase" where
  "escrow_phase e =
     (if depositor e = 0 then Absent else if withdrawn e then Paid else if refunded e then Returned else Open)"

definition escrow_terms ::
  "Escrow \<Rightarrow> evm_address \<times> evm_address \<times> evm_address \<times> uint256 \<times> bytes32 \<times> uint256 \<times> uint256" where
  "escrow_terms e =
     (depositor e, beneficiary e, token e, amount e, hashlock e, timelock e, safetyDeposit e)"

text \<open>The sum of a measure over the open escrows.\<close>

definition owed :: "(Escrow \<Rightarrow> nat) \<Rightarrow> (bytes32 \<Rightarrow> Escrow) \<Rightarrow> nat" where
  "owed f es = (\<Sum>i\<in>UNIV. if escrow_phase (es i) = Open then f (es i) else 0)"

definition eth_due :: "Escrow \<Rightarrow> nat" where
  "eth_due e = (if token e = 0 then unat (amount e) else 0) + unat (safetyDeposit e)"

definition token_due :: "evm_address \<Rightarrow> Escrow \<Rightarrow> nat" where
  "token_due t e = (if token e = t then unat (amount e) else 0)"

definition solvent :: "('a escrow_storage_scheme, 'w) evm sol_env \<Rightarrow> ('a escrow_storage_scheme, 'w) evm \<Rightarrow> bool" where
  "solvent env s \<longleftrightarrow> owed eth_due (escrows (storage s)) \<le> balance s (this env)"

lemma owed_update:
  "owed f (es(i := e)) + (if escrow_phase (es i) = Open then f (es i) else 0) =
   owed f es + (if escrow_phase e = Open then f e else 0)"
proof -
  let ?g = "\<lambda>es j. if escrow_phase (es j) = Open then f (es j) else 0"
  have "owed f (es(i := e)) = ?g (es(i := e)) i + sum (?g (es(i := e))) (UNIV - {i})"
    unfolding owed_def by (rule sum.remove) auto
  moreover have "owed f es = ?g es i + sum (?g es) (UNIV - {i})"
    unfolding owed_def by (rule sum.remove) auto
  moreover have "sum (?g (es(i := e))) (UNIV - {i}) = sum (?g es) (UNIV - {i})"
    by (rule sum.cong) auto
  ultimately show ?thesis by auto
qed

lemma owed_ge: "escrow_phase (es i) = Open \<Longrightarrow> f (es i) \<le> owed f es"
  using owed_update[of f es i no_escrow] by (simp add: escrow_phase_def no_escrow_def)

lemma owed_none [simp]: "owed f (\<lambda>i. no_escrow) = 0"
  by (simp add: owed_def escrow_phase_def no_escrow_def)

subsection \<open>The effect of a transaction\<close>

text \<open>
  What a transaction of any of the escrow contracts does to the mapping, together with a measure
  \<open>f\<close> of an escrow and the \<open>funds\<close> that have to cover it: it enters an escrow under an unused
  identifier, it settles an open one with its terms kept, or it leaves the mapping alone.
\<close>

definition escrow_effect ::
  "(Escrow \<Rightarrow> nat) \<Rightarrow> nat \<Rightarrow> nat \<Rightarrow> (bytes32 \<Rightarrow> Escrow) \<Rightarrow> (bytes32 \<Rightarrow> Escrow) \<Rightarrow> bool" where
  "escrow_effect f before after es es' \<longleftrightarrow>
     (es' = es \<and> before \<le> after) \<or>
     (\<exists>i e. escrow_phase (es i) = Absent \<and> es' = es(i := e) \<and> escrow_phase e \<in> {Absent, Open} \<and>
        before + f e \<le> after) \<or>
     (\<exists>i e. escrow_phase (es i) = Open \<and> es' = es(i := e) \<and> settled (escrow_phase e) \<and>
        escrow_terms e = escrow_terms (es i) \<and> before \<le> after + f (es i))"

lemma escrow_effect_cases:
  assumes "escrow_effect f before after es es'"
  obtains (same) "es' = es" "before \<le> after"
  | (enter) i e where "escrow_phase (es i) = Absent" "es' = es(i := e)" "escrow_phase e \<in> {Absent, Open}"
      "before + f e \<le> after"
  | (settle) i e where "escrow_phase (es i) = Open" "es' = es(i := e)" "settled (escrow_phase e)"
      "escrow_terms e = escrow_terms (es i)" "before \<le> after + f (es i)"
  using assms unfolding escrow_effect_def by blast

lemma effect_covered:
  assumes "escrow_effect f before after es es'" "owed f es \<le> before"
  shows "owed f es' \<le> after"
  using assms(1)
proof (cases rule: escrow_effect_cases)
  case (enter i e)
  with owed_update[of f es i e] assms(2) show ?thesis by (auto split: if_splits)
next
  case (settle i e)
  with owed_update[of f es i e] assms(2) show ?thesis by (auto simp: settled_def)
qed (use assms(2) in simp)

lemma effect_phase:
  assumes "escrow_effect f before after es es'"
  shows "phase_step (escrow_phase (es i)) (escrow_phase (es' i))"
  using assms by (cases rule: escrow_effect_cases) (auto simp: settled_def)

lemma effect_terms:
  assumes "escrow_effect f before after es es'" "escrow_phase (es i) \<noteq> Absent"
  shows "escrow_terms (es' i) = escrow_terms (es i)"
  using assms(1) by (cases rule: escrow_effect_cases) (use assms(2) in auto)

text \<open>
  A token call that leaves the storage of the contract and its ether alone. This is what keeps the
  functions without a reentrancy guard safe.
\<close>

definition inert_call :: "('s, 'w) evm sol_env \<Rightarrow> (('s, 'w) evm \<Rightarrow> ('x \<times> ('s, 'w) evm) option) \<Rightarrow> bool" where
  "inert_call env f \<longleftrightarrow>
     (\<forall>s x t. f s = Some (x, t) \<longrightarrow> storage t = storage s \<and> balance t (this env) = balance s (this env))"

definition tokens_inert :: "('s, 'w) evm sol_env \<Rightarrow> bool" where
  "tokens_inert env \<longleftrightarrow>
     (\<forall>tok a b v. inert_call env (erc20_transferFrom env tok a b v)) \<and>
     (\<forall>tok a v. inert_call env (erc20_transfer env tok a v))"

lemma inert_transferFrom:
  "tokens_inert env \<Longrightarrow> erc20_transferFrom env tok a b v s = Some (x, t) \<Longrightarrow>
   storage t = storage s \<and> balance t (this env) = balance s (this env)"
  by (auto simp: tokens_inert_def inert_call_def)

lemma inert_transfer:
  "tokens_inert env \<Longrightarrow> erc20_transfer env tok a v s = Some (x, t) \<Longrightarrow>
   storage t = storage s \<and> balance t (this env) = balance s (this env)"
  by (auto simp: tokens_inert_def inert_call_def)

fun escrow_ok :: "('s, 'w) evm sol_env \<Rightarrow> ('s, 'w) evm \<Rightarrow> (('s, 'w) evm, 'k) chain_event \<Rightarrow> bool" where
  "escrow_ok env s (Tx m c) \<longleftrightarrow> sender m \<noteq> this env \<and> tokens_inert env"
| "escrow_ok env s (Outside t) \<longleftrightarrow>
     storage t = storage s \<and> balance s (this env) \<le> balance t (this env)"

lemma v2_create_effect:
  assumes "v2_createEscrowInternal env m i d b tok a h u s = Inr (x, t)" "tokens_inert env"
  shows "\<exists>e. escrow_phase (entry i s) = Absent \<and> escrow_phase e \<in> {Absent, Open} \<and>
    escrow_terms e = (d, b, tok, a, h, u, if tok = 0 then val m - a else val m) \<and> eth_due e = unat (val m) \<and>
    storage t = (storage s)\<lparr>escrows := (escrows (storage s))(i := e)\<rparr> \<and>
    balance t (this env) = balance s (this env)"
proof -
  let ?dep = "if tok = 0 then val m - a else val m"
  have st: "storage t = (storage s)\<lparr>escrows := (escrows (storage s))(i := new_escrow d b tok a h u ?dep)\<rparr>"
    and "balance t (this env) = balance s (this env)" "depositor (entry i s) = 0" and v: "tok = 0 \<Longrightarrow> a \<le> val m"
    using assms(1) inert_transferFrom[OF assms(2)]
    by (auto simp: v2_createEscrowInternal_def tx_runs split: if_splits option.splits prod.splits)
  moreover have "eth_due (new_escrow d b tok a h u ?dep) = unat (val m)"
    using v by (auto simp: eth_due_def new_escrow_def unat_sub word_le_nat_alt)
  ultimately show ?thesis
    by (intro exI[of _ "new_escrow d b tok a h u ?dep"])
      (auto simp: escrow_phase_def new_escrow_def escrow_terms_def)
qed

text \<open>The part that pays out, the same in the two contracts.\<close>

lemma v1_as_v2:
  "v1_createEscrow env m i b tok a h u = v2_createEscrowInternal env m i (sender m) b tok a h u"
  "v1_withdraw = v2_withdraw" "v1_refund = v2_refund"
  by (simp_all add: fun_eq_iff v1_createEscrow_def v2_createEscrowInternal_def v1_withdraw_def v2_withdraw_def
    v1_refund_def v2_refund_def)

lemma v2_withdraw_effect:
  assumes "v2_withdraw env m i x s = Inr (y, t)" "tokens_inert env" "sender m \<noteq> this env"
  shows "escrow_phase (entry i s) = Open \<and> keccak256 env (word_bytes x) = hashlock (entry i s) \<and> val m = 0 \<and>
    storage t = (storage s)\<lparr>escrows := (escrows (storage s))(i := (entry i s)\<lparr>withdrawn := True\<rparr>)\<rparr> \<and>
    balance t (this env) + eth_due (entry i s) = balance s (this env)"
  using assms(1,3) inert_transfer[OF assms(2)]
  by (auto simp: v2_withdraw_def tx_runs escrow_phase_def eth_due_def move_eth_balance word_gt_0
      split: if_splits option.splits prod.splits)

lemma v2_refund_effect:
  assumes "v2_refund env m i s = Inr (y, t)" "tokens_inert env" "sender m \<noteq> this env"
  shows "escrow_phase (entry i s) = Open \<and> timelock (entry i s) \<le> now m \<and> val m = 0 \<and>
    storage t = (storage s)\<lparr>escrows := (escrows (storage s))(i := (entry i s)\<lparr>refunded := True\<rparr>)\<rparr> \<and>
    balance t (this env) + eth_due (entry i s) = balance s (this env)"
  using assms(1,3) inert_transfer[OF assms(2)]
  by (auto simp: v2_refund_def tx_runs escrow_phase_def eth_due_def move_eth_balance word_gt_0
      split: if_splits option.splits prod.splits)

lemma transact_Inr:
  "transact env m f s = Inr r \<longleftrightarrow>
     unat (val m) \<le> balance s (sender m) \<and> f (move_eth (sender m) (this env) (unat (val m)) s) = Inr r"
  by (auto simp: transact_def)

lemma v2_call_effect:
  assumes "v2_call env m c s = Inr (x, t)" "tokens_inert env" "sender m \<noteq> this env"
    "before + unat (val m) = balance s (this env)"
  shows "escrow_effect eth_due before (balance t (this env)) (escrows (storage s)) (escrows (storage t))"
proof (cases c)
  case (CreateEscrow i b tok a h u)
  with v2_create_effect[of env m i "sender m" b tok a h u s x t] assms show ?thesis
    by (force simp: v2_createEscrow_def escrow_effect_def)
next
  case (CreateEscrowFor i d b tok a h u)
  with v2_create_effect[of env m i d b tok a h u s x t] assms show ?thesis
    by (force simp: v2_createEscrowFor_def escrow_effect_def)
next
  case (Withdraw i y)
  let ?e = "(entry i s)\<lparr>withdrawn := True\<rparr>"
  from Withdraw v2_withdraw_effect[of env m i y s x t] assms
  have "escrow_phase (entry i s) = Open" "before \<le> balance t (this env) + eth_due (entry i s)"
    "escrows (storage t) = (escrows (storage s))(i := ?e)" "depositor (entry i s) \<noteq> 0"
    by (auto simp: escrow_phase_def split: if_splits)
  moreover from this have "settled (escrow_phase ?e)" "escrow_terms ?e = escrow_terms (entry i s)"
    by (auto simp: escrow_phase_def settled_def escrow_terms_def)
  ultimately show ?thesis unfolding escrow_effect_def by blast
next
  case (Refund i)
  let ?e = "(entry i s)\<lparr>refunded := True\<rparr>"
  from Refund v2_refund_effect[of env m i s x t] assms
  have "escrow_phase (entry i s) = Open" "before \<le> balance t (this env) + eth_due (entry i s)"
    "escrows (storage t) = (escrows (storage s))(i := ?e)" "depositor (entry i s) \<noteq> 0"
    by (auto simp: escrow_phase_def split: if_splits)
  moreover from this have "settled (escrow_phase ?e)" "escrow_terms ?e = escrow_terms (entry i s)"
    by (auto simp: escrow_phase_def settled_def escrow_terms_def)
  ultimately show ?thesis unfolding escrow_effect_def by blast
qed

text \<open>From a call to a step: the transaction brings its ether, and a reverted call changes nothing.\<close>

lemma chain_step_effect:
  fixes s :: "('a escrow_storage_scheme, 'w) evm"
  assumes ok: "escrow_ok env s e"
    and call: "\<And>m c s0 x t. call m c s0 = Inr (x, t) \<Longrightarrow> tokens_inert env \<Longrightarrow> sender m \<noteq> this env \<Longrightarrow>
      balance s (this env) + unat (val m) = balance s0 (this env) \<Longrightarrow>
      escrow_effect eth_due (balance s (this env)) (balance t (this env)) (escrows (storage s0)) (escrows (storage t))"
  shows "escrow_effect eth_due (balance s (this env)) (balance (chain_step env call s e) (this env))
    (escrows (storage s)) (escrows (storage (chain_step env call s e)))"
proof (cases e)
  case (Tx m c)
  show ?thesis
  proof (cases "transact env m (call m c) s")
    case (Inr r)
    obtain x t where r: "r = (x, t)" by (cases r)
    let ?s0 = "move_eth (sender m) (this env) (unat (val m)) s"
    have "call m c ?s0 = Inr (x, t)" using Inr r by (simp add: transact_Inr)
    from call[OF this] ok Tx have "escrow_effect eth_due (balance s (this env)) (balance t (this env))
        (escrows (storage ?s0)) (escrows (storage t))"
      by (simp add: move_eth_balance)
    then show ?thesis using Tx Inr r by (simp add: outcome_def)
  qed (simp add: Tx outcome_def escrow_effect_def)
qed (use ok in \<open>simp add: escrow_effect_def\<close>)

lemma v2_step_effect:
  "escrow_ok env s e \<Longrightarrow>
   escrow_effect eth_due (balance s (this env)) (balance (v2_step env s e) (this env))
    (escrows (storage s)) (escrows (storage (v2_step env s e)))"
  by (rule chain_step_effect) (auto intro: v2_call_effect)

lemma v1_call_v2: "v1_call env m c s = Inr r \<Longrightarrow> v2_call env m c s = Inr r"
  by (cases c) (simp_all add: v1_as_v2 v2_createEscrow_def revert_with_def)

lemma v1_step_effect:
  "escrow_ok env s e \<Longrightarrow>
   escrow_effect eth_due (balance s (this env)) (balance (v1_step env s e) (this env))
    (escrows (storage s)) (escrows (storage (v1_step env s e)))"
  by (rule chain_step_effect) (auto intro: v2_call_effect dest: v1_call_v2)

lemma step_solvent:
  "escrow_effect eth_due (balance s (this env)) (balance t (this env)) (escrows (storage s)) (escrows (storage t)) \<Longrightarrow>
   solvent env s \<Longrightarrow> solvent env t"
  by (auto simp: solvent_def intro: effect_covered)

interpretation v1_lock: htlc "v1_step env" "escrow_ok env" "solvent env"
  "\<lambda>s i. escrow_phase (entry i s)" "\<lambda>s i. escrow_terms (entry i s)" for env
  by unfold_locales
    (blast intro: step_solvent v1_step_effect, blast intro: effect_phase v1_step_effect,
     blast intro: effect_terms v1_step_effect)

interpretation v2_lock: htlc "v2_step env" "escrow_ok env" "solvent env"
  "\<lambda>s i. escrow_phase (entry i s)" "\<lambda>s i. escrow_terms (entry i s)" for env
  by unfold_locales
    (blast intro: step_solvent v2_step_effect, blast intro: effect_phase v2_step_effect,
     blast intro: effect_terms v2_step_effect)

subsection \<open>Properties\<close>

lemma move_eth_zero [simp]: "move_eth a b 0 s = s"
  by (simp add: move_eth_def Let_def)

lemma fresh_solvent: "escrows (storage s) = (\<lambda>i. no_escrow) \<Longrightarrow> solvent env s"
  by (simp add: solvent_def)

lemma solvent_entry:
  "solvent env s \<Longrightarrow> escrow_phase (entry i s) = Open \<Longrightarrow> eth_due (entry i s) \<le> balance s (this env)"
  using owed_ge[of "escrows (storage s)" i eth_due] by (simp add: solvent_def)

text \<open>A chain for the examples: accounts 1 and 2, the contract at 99, tokens that agree to every transfer.\<close>

definition demo_env :: "(escrow_storage, unit) evm sol_env" where
  "demo_env = \<lparr>this = 99, keccak256 = (\<lambda>bs. ucast (last bs) + 1), accepts = (\<lambda>a. True),
     erc20_transferFrom = (\<lambda>tok a b v s. Some (True, s)), erc20_transfer = (\<lambda>tok a v s. Some (True, s)),
     erc20_balanceOf = (\<lambda>tok a s. Some 0), erc20_permit = (\<lambda>tok a b v d y p q s. Some s),
     safeTransferFrom = (\<lambda>tok a b v s. Some s), safeTransfer = (\<lambda>tok a v s. Some s),
     eth_call = (\<lambda>a v s. (True, s)), recover = (\<lambda>h v p q. None), hashTypedDataV4 = (\<lambda>h. h)\<rparr>"

definition demo_chain0 :: "(escrow_storage, unit) evm" where
  "demo_chain0 = \<lparr>balance = (\<lambda>a. if a = 1 \<or> a = 2 then 1000 else 0),
     storage = \<lparr>escrows = (\<lambda>i. no_escrow)\<rparr>, world = (), logs = []\<rparr>"

definition demo_create :: "((escrow_storage, unit) evm, escrow_call) chain_event" where
  "demo_create = Tx \<lparr>sender = 1, val = 110, now = 10\<rparr> (CreateEscrow 7 2 0 100 6 50)"

lemma demo_env_inert: "tokens_inert demo_env"
  by (simp add: demo_env_def tokens_inert_def inert_call_def)

lemma demo_run_legal:
  "legal_run (v2_step demo_env) (escrow_ok demo_env) demo_chain0 [demo_create]"
  by (simp add: demo_create_def demo_env_inert) (simp add: demo_env_def)

text \<open>
  C1. An open escrow of ether can always be redeemed. After any sequence of transactions to the
  contract, mixed with any other activity on the chain, the contract holds the ether of all open
  escrows together; so whoever presents the secret of an open escrow withdraws it, and after its
  time lock anybody can refund it, whenever the receiving accounts take a plain transfer.
\<close>

theorem open_escrow_redeemable:
  assumes "escrows (storage s) = (\<lambda>i. no_escrow)" "legal_run (v2_step env) (escrow_ok env) s es"
    and "t = foldl (v2_step env) s es" "escrow_phase (entry i t) = Open" "token (entry i t) = 0"
    and "val m = 0" "accepts env (sender m)" "sender m \<noteq> this env"
  shows "solvent env t \<and>
    (keccak256 env (word_bytes x) = hashlock (entry i t) \<and> accepts env (beneficiary (entry i t)) \<and>
       beneficiary (entry i t) \<noteq> this env \<longrightarrow>
     (\<exists>u. transact env m (v2_withdraw env m i x) t = Inr ((), u) \<and> escrow_phase (entry i u) = Paid)) \<and>
    (timelock (entry i t) \<le> now m \<and> accepts env (depositor (entry i t)) \<and>
       depositor (entry i t) \<noteq> this env \<longrightarrow>
     (\<exists>u. transact env m (v2_refund env m i) t = Inr ((), u) \<and> escrow_phase (entry i u) = Returned))"
proof -
  have sol: "solvent env t" using v2_lock.run_inv[OF fresh_solvent[OF assms(1)] assms(2)] assms(3) by simp
  from solvent_entry[OF sol assms(4)] assms(5)
  have due: "unat (amount (entry i t)) + unat (safetyDeposit (entry i t)) \<le> balance t (this env)"
    by (simp add: eth_due_def)
  from assms(4) have "depositor (entry i t) \<noteq> 0" "\<not> withdrawn (entry i t)" "\<not> refunded (entry i t)"
    by (auto simp: escrow_phase_def split: if_splits)
  note here = this due assms(5-)
  show ?thesis
  proof (intro conjI impI sol)
    assume "keccak256 env (word_bytes x) = hashlock (entry i t) \<and> accepts env (beneficiary (entry i t)) \<and>
      beneficiary (entry i t) \<noteq> this env"
    with here show "\<exists>u. transact env m (v2_withdraw env m i x) t = Inr ((), u) \<and> escrow_phase (entry i u) = Paid"
      by (auto simp: transact_def v2_withdraw_def tx_runs move_eth_balance escrow_phase_def)
  next
    assume "timelock (entry i t) \<le> now m \<and> accepts env (depositor (entry i t)) \<and>
      depositor (entry i t) \<noteq> this env"
    with here show "\<exists>u. transact env m (v2_refund env m i) t = Inr ((), u) \<and> escrow_phase (entry i u) = Returned"
      by (auto simp: transact_def v2_refund_def tx_runs move_eth_balance escrow_phase_def)
  qed
qed

theorem open_escrow_redeemable_witness:
  "\<exists>u. transact demo_env \<lparr>sender = 1, val = 0, now = 20\<rparr>
      (v2_withdraw demo_env \<lparr>sender = 1, val = 0, now = 20\<rparr> 7 5) (foldl (v2_step demo_env) demo_chain0 [demo_create]) =
      Inr ((), u) \<and> escrow_phase (entry 7 u) = Paid"
proof -
  let ?t = "foldl (v2_step demo_env) demo_chain0 [demo_create]"
  have e: "entry 7 ?t = new_escrow 1 2 0 100 6 50 10" by code_simp
  have h: "keccak256 demo_env (word_bytes 5) = 6" by code_simp
  have a: "accepts demo_env = (\<lambda>a. True)" "this demo_env = 99" by (simp_all add: demo_env_def)
  show ?thesis
    using open_escrow_redeemable[OF _ demo_run_legal refl, of 7 "\<lparr>sender = 1, val = 0, now = 20\<rparr>" 5]
    unfolding e h a by (simp add: new_escrow_def escrow_phase_def demo_chain0_def)
qed


definition demo_withdraw :: "((escrow_storage, unit) evm, escrow_call) chain_event" where
  "demo_withdraw = Tx \<lparr>sender = 2, val = 0, now = 20\<rparr> (Withdraw 7 5)"

definition demo_refund :: "((escrow_storage, unit) evm, escrow_call) chain_event" where
  "demo_refund = Tx \<lparr>sender = 1, val = 0, now = 60\<rparr> (Refund 7)"


text \<open>
  C16. A withdrawal of ether succeeds exactly for an open escrow, with a preimage of its hash lock,
  by a call without ether, when the contract can pay both transfers and they are taken. It then
  pays the amount to the beneficiary and the safety deposit to the caller, touches no other
  account and no other escrow, and publishes the secret in the log.
\<close>

theorem withdraw_exact:
  assumes "token (entry i s) = 0" "sender m \<noteq> this env" "e = entry i s"
  shows "((\<exists>t. v2_withdraw env m i x s = Inr ((), t)) \<longleftrightarrow>
      val m = 0 \<and> escrow_phase e = Open \<and> keccak256 env (word_bytes x) = hashlock e \<and>
      eth_due e \<le> balance s (this env) \<and> accepts env (beneficiary e) \<and> beneficiary e \<noteq> this env \<and>
      (0 < safetyDeposit e \<longrightarrow> accepts env (sender m))) \<and>
    (\<forall>t. v2_withdraw env m i x s = Inr ((), t) \<longrightarrow>
      escrows (storage t) = (escrows (storage s))(i := e\<lparr>withdrawn := True\<rparr>) \<and>
      (\<forall>a. balance t a + (if a = this env then eth_due e else 0) =
         balance s a + (if a = beneficiary e then unat (amount e) else 0) +
         (if a = sender m then unat (safetyDeposit e) else 0)) \<and>
      logs t = EscrowWithdrawn i x # logs s)"
proof (intro conjI allI impI)
  show "(\<exists>t. v2_withdraw env m i x s = Inr ((), t)) \<longleftrightarrow>
      val m = 0 \<and> escrow_phase e = Open \<and> keccak256 env (word_bytes x) = hashlock e \<and>
      eth_due e \<le> balance s (this env) \<and> accepts env (beneficiary e) \<and> beneficiary e \<noteq> this env \<and>
      (0 < safetyDeposit e \<longrightarrow> accepts env (sender m))"
    using assms by (auto simp: v2_withdraw_def tx_runs move_eth_balance escrow_phase_def eth_due_def word_gt_0)
next
  fix t assume ok: "v2_withdraw env m i x s = Inr ((), t)"
  with assms show "escrows (storage t) = (escrows (storage s))(i := e\<lparr>withdrawn := True\<rparr>)"
    "logs t = EscrowWithdrawn i x # logs s"
    by (auto simp: v2_withdraw_def tx_runs move_eth_balance split: if_splits)
  fix a
  from ok assms show "balance t a + (if a = this env then eth_due e else 0) =
         balance s a + (if a = beneficiary e then unat (amount e) else 0) +
         (if a = sender m then unat (safetyDeposit e) else 0)"
    by (auto simp: v2_withdraw_def tx_runs move_eth_balance eth_due_def word_gt_0 split: if_splits)
qed

theorem withdraw_exact_witness:
  "\<exists>t. v2_withdraw demo_env \<lparr>sender = 1, val = 0, now = 20\<rparr> 7 5 (v2_step demo_env demo_chain0 demo_create) = Inr ((), t) \<and>
     balance t 2 = 1100 \<and> balance t 1 = 900 \<and> balance t 99 = 0"
proof -
  let ?s = "v2_step demo_env demo_chain0 demo_create" and ?m = "\<lparr>sender = 1, val = 0, now = 20\<rparr>"
  have e: "entry 7 ?s = new_escrow 1 2 0 100 6 50 10" by code_simp
  have h: "keccak256 demo_env (word_bytes 5) = 6" by code_simp
  have b: "balance ?s 99 = 110" "balance ?s 1 = 890" "balance ?s 2 = 1000" by code_simp+
  have a: "accepts demo_env = (\<lambda>a. True)" "this demo_env = 99" by (simp_all add: demo_env_def)
  have ok: "token (entry 7 ?s) = 0" "sender ?m \<noteq> this demo_env"
    unfolding e a by (simp_all add: new_escrow_def)
  note x = withdraw_exact[OF ok refl, of 5, unfolded e h a]
  have d: "eth_due (new_escrow 1 2 0 100 6 50 10) = 110" by (simp add: eth_due_def new_escrow_def)
  obtain t where t: "v2_withdraw demo_env ?m 7 5 ?s = Inr ((), t)"
    using x b d by (auto simp: new_escrow_def escrow_phase_def)
  with x have "\<And>a. balance t a + (if a = 99 then 110 else 0) = balance ?s a + (if a = 2 then 100 else 0) +
      (if a = 1 then 10 else 0)"
    unfolding d by (auto simp: new_escrow_def)
  from this[of 99] this[of 1] this[of 2] t b show ?thesis by simp
qed

text \<open>
  C15. The second contract extends the first: the calls the first one knows do the same in both, and
  a delegated creation by the depositor itself is the plain creation. A sequence of steps without
  delegated creation therefore leaves both contracts in the same state.
\<close>

theorem v1_v2_equivalent:
  "v2_createEscrowFor env m i (sender m) b tok a h u = v1_createEscrow env m i b tok a h u \<and>
   (list_all (\<lambda>e. case e of Tx _ (CreateEscrowFor _ _ _ _ _ _ _) \<Rightarrow> False | _ \<Rightarrow> True) es \<longrightarrow>
    foldl (v1_step env) s es = foldl (v2_step env) s es)"
proof (intro conjI impI)
  show "v2_createEscrowFor env m i (sender m) b tok a h u = v1_createEscrow env m i b tok a h u"
    by (simp add: v2_createEscrowFor_def v1_as_v2)
  show "list_all (\<lambda>e. case e of Tx _ (CreateEscrowFor _ _ _ _ _ _ _) \<Rightarrow> False | _ \<Rightarrow> True) es \<Longrightarrow>
    foldl (v1_step env) s es = foldl (v2_step env) s es"
  proof (induction es arbitrary: s)
    case (Cons e es)
    have "v1_step env s e = v2_step env s e"
    proof (cases e)
      case (Tx m c)
      with Cons.prems have "v1_call env m c = v2_call env m c"
        by (cases c) (simp_all add: v1_as_v2 v2_createEscrow_def)
      with Tx show ?thesis by simp
    qed simp
    with Cons show ?case by simp
  qed simp
qed

theorem v1_v2_equivalent_witness:
  "foldl (v1_step demo_env) demo_chain0 [demo_create, demo_withdraw] =
   foldl (v2_step demo_env) demo_chain0 [demo_create, demo_withdraw]"
  using v1_v2_equivalent[of demo_env _ _ _ _ _ _ _ "[demo_create, demo_withdraw]" demo_chain0]
  by (simp add: demo_create_def demo_withdraw_def)



end
