(* ===== verification/GaslessEscrow.thy ===== *)
theory GaslessEscrow
  imports EvmEscrow
begin

section \<open>The gasless escrow contract\<close>

text \<open>
  \<^verbatim>\<open>FusionPlusGaslessEscrow.sol\<close>: escrows created by a resolver from a signed message of the depositor
  or after a token permit. The message is hashed as in EIP-712: \<open>create_escrow_digest\<close> is the
  structure hash over the encoded fields, bound to the domain by the argument \<open>hashTypedDataV4\<close>.
\<close>

record gasless_storage = escrow_storage +
  nonces :: "evm_address \<Rightarrow> uint256"

record MetaTxParams =
  p_escrowId :: bytes32
  p_depositor :: evm_address
  p_beneficiary :: evm_address
  p_token :: evm_address
  p_amount :: uint256
  p_hashlock :: bytes32
  p_timelock :: uint256
  p_deadline :: uint256

definition WETH :: evm_address where
  "WETH = 0xfFf9976782d46CC05630D1f6eBAb18b2324d6B14"

definition CREATE_ESCROW_TYPEHASH :: "'c sol_env \<Rightarrow> bytes32" where
  "CREATE_ESCROW_TYPEHASH env = keccak256 env (text_bytes
     ''CreateEscrow(bytes32 escrowId,address depositor,address beneficiary,address token,uint256 amount,bytes32 hashlock,uint256 timelock,uint256 nonce,uint256 deadline)'')"

definition create_escrow_digest :: "'c sol_env \<Rightarrow> MetaTxParams \<Rightarrow> uint256 \<Rightarrow> bytes32" where
  "create_escrow_digest env p currentNonce =
     (let structHash = keccak256 env (abi_encode
        [CREATE_ESCROW_TYPEHASH env, p_escrowId p, address_word (p_depositor p), address_word (p_beneficiary p),
         address_word (p_token p), p_amount p, p_hashlock p, p_timelock p, currentNonce, p_deadline p])
      in hashTypedDataV4 env structHash)"

text \<open>The increment of a nonce is checked like every other addition.\<close>

definition bump_nonce :: "evm_address \<Rightarrow> (('a gasless_storage_scheme, 'w) evm, unit) sol" where
  "bump_nonce who = tx_bind (read (\<lambda>s. nonces (storage s) who)) (\<lambda>n.
     tx_bind (checked_add n 1) (\<lambda>n'. store (\<lambda>st. st\<lparr>nonces := (nonces st)(who := n')\<rparr>)))"

declare bump_nonce_def [tx_runs]

text \<open>Pull a token and check that at least the amount has arrived.\<close>

definition pull_exact ::
  "('s, 'w) evm sol_env \<Rightarrow> evm_address \<Rightarrow> evm_address \<Rightarrow> uint256 \<Rightarrow> (('s, 'w) evm, unit) sol" where
  "pull_exact env tok dep amt =
     tx_bind (external_view (erc20_balanceOf env tok (this env))) (\<lambda>balanceBefore.
     tx_bind (external_unit (safeTransferFrom env tok dep (this env) amt)) (\<lambda>_.
     tx_bind (external_view (erc20_balanceOf env tok (this env))) (\<lambda>balanceAfter.
     tx_bind (checked_sub balanceAfter balanceBefore) (\<lambda>received.
     require_that (amt \<le> received) (Require ''Insufficient transfer'')))))"

definition gasless_createEscrowInternal ::
  "('a gasless_storage_scheme, 'w) evm sol_env \<Rightarrow> msg \<Rightarrow> bytes32 \<Rightarrow> evm_address \<Rightarrow> evm_address \<Rightarrow> evm_address \<Rightarrow>
   uint256 \<Rightarrow> bytes32 \<Rightarrow> uint256 \<Rightarrow> (('a gasless_storage_scheme, 'w) evm, unit) sol" where
  "gasless_createEscrowInternal env m escrowId dep ben tok amt lock until = tx_seq [
     require_that (0 < val m) (Require ''Safety deposit required''),
     if tok = 0 then
       tx_then (require_that (amt \<le> val m) (Require ''Insufficient ETH sent''))
         (tx_bind (checked_sub (val m) amt) (\<lambda>deposit.
            put_escrow escrowId (new_escrow dep ben tok amt lock until deposit)))
     else
       tx_then (pull_exact env tok dep amt)
         (put_escrow escrowId (new_escrow dep ben tok amt lock until (val m))),
     emit (EscrowCreated escrowId dep ben tok amt lock until)]"

definition gasless_createEscrowWithPermit ::
  "('a gasless_storage_scheme, 'w) evm sol_env \<Rightarrow> msg \<Rightarrow> MetaTxParams \<Rightarrow> byte \<Rightarrow> bytes32 \<Rightarrow> bytes32 \<Rightarrow>
   (('a gasless_storage_scheme, 'w) evm, unit) sol" where
  "gasless_createEscrowWithPermit env m p v r s =
     tx_bind (read (entry (p_escrowId p))) (\<lambda>old. tx_seq [
       require_that (depositor old = 0) (Custom ''EscrowAlreadyExists''),
       require_that (p_amount p \<noteq> 0) (Custom ''InvalidAmount''),
       require_that (now m < p_timelock p) (Custom ''InvalidTimelock''),
       require_that (now m \<le> p_deadline p) (Custom ''PermitExpired''),
       if p_token p \<noteq> WETH \<and> p_token p \<noteq> 0 then
         external_unit (erc20_permit env (p_token p) (p_depositor p) (this env) (p_amount p) (p_deadline p) v r s)
       else tx_ret (),
       gasless_createEscrowInternal env m (p_escrowId p) (p_depositor p) (p_beneficiary p) (p_token p)
         (p_amount p) (p_hashlock p) (p_timelock p)])"

definition validateAndExecuteMetaTx ::
  "('a gasless_storage_scheme, 'w) evm sol_env \<Rightarrow> msg \<Rightarrow> MetaTxParams \<Rightarrow> byte \<Rightarrow> bytes32 \<Rightarrow> bytes32 \<Rightarrow>
   (('a gasless_storage_scheme, 'w) evm, unit) sol" where
  "validateAndExecuteMetaTx env m p v r s =
     tx_bind (read (entry (p_escrowId p))) (\<lambda>old.
     tx_bind (read (\<lambda>s. nonces (storage s) (p_depositor p))) (\<lambda>currentNonce. tx_seq [
       require_that (depositor old = 0) (Custom ''EscrowAlreadyExists''),
       require_that (p_amount p \<noteq> 0) (Custom ''InvalidAmount''),
       require_that (now m < p_timelock p) (Custom ''InvalidTimelock''),
       require_that (now m \<le> p_deadline p) (Custom ''PermitExpired''),
       tx_bind (external_view (\<lambda>_. recover env (create_escrow_digest env p currentNonce) v r s)) (\<lambda>signer.
         require_that (signer = p_depositor p) (Custom ''InvalidSignature'')),
       bump_nonce (p_depositor p),
       gasless_createEscrowInternal env m (p_escrowId p) (p_depositor p) (p_beneficiary p) (p_token p)
         (p_amount p) (p_hashlock p) (p_timelock p)]))"

definition gasless_createEscrowWithMetaTx ::
  "('a gasless_storage_scheme, 'w) evm sol_env \<Rightarrow> msg \<Rightarrow> MetaTxParams \<Rightarrow> byte \<Rightarrow> bytes32 \<Rightarrow> bytes32 \<Rightarrow>
   (('a gasless_storage_scheme, 'w) evm, unit) sol" where
  "gasless_createEscrowWithMetaTx env m p v r s = validateAndExecuteMetaTx env m p v r s"

definition gasless_withdraw ::
  "('a escrow_storage_scheme, 'w) evm sol_env \<Rightarrow> msg \<Rightarrow> bytes32 \<Rightarrow> bytes32 \<Rightarrow>
   (('a escrow_storage_scheme, 'w) evm, unit) sol" where
  "gasless_withdraw env m escrowId secret = nonpayable m
     (tx_bind (read (entry escrowId)) (\<lambda>e. tx_seq [
       require_that (depositor e \<noteq> 0) (Require ''Escrow does not exist''),
       require_that (\<not> withdrawn e) (Require ''Already withdrawn''),
       require_that (\<not> refunded e) (Require ''Already refunded''),
       require_that (keccak256 env (word_bytes secret) = hashlock e) (Require ''Invalid secret''),
       mod_escrow escrowId (\<lambda>e. e\<lparr>withdrawn := True\<rparr>),
       if token e = 0 then pay env (beneficiary e) (amount e)
       else external_unit (safeTransfer env (token e) (beneficiary e) (amount e)),
       tx_bind (read (entry escrowId)) (\<lambda>e. pay env (sender m) (safetyDeposit e)),
       emit (EscrowWithdrawn escrowId secret)]))"

definition gasless_refund ::
  "('a escrow_storage_scheme, 'w) evm sol_env \<Rightarrow> msg \<Rightarrow> bytes32 \<Rightarrow>
   (('a escrow_storage_scheme, 'w) evm, unit) sol" where
  "gasless_refund env m escrowId = nonpayable m
     (tx_bind (read (entry escrowId)) (\<lambda>e. tx_seq [
       require_that (depositor e \<noteq> 0) (Require ''Escrow does not exist''),
       require_that (\<not> withdrawn e) (Require ''Already withdrawn''),
       require_that (\<not> refunded e) (Require ''Already refunded''),
       require_that (timelock e \<le> now m) (Require ''Timelock not expired''),
       mod_escrow escrowId (\<lambda>e. e\<lparr>refunded := True\<rparr>),
       if token e = 0 then pay env (depositor e) (amount e)
       else external_unit (safeTransfer env (token e) (depositor e) (amount e)),
       tx_bind (read (entry escrowId)) (\<lambda>e. pay env (sender m) (safetyDeposit e)),
       emit (EscrowRefunded escrowId)]))"

definition gasless_getEscrow ::
  "bytes32 \<Rightarrow> (('a escrow_storage_scheme, 'w) evm, evm_address \<times> evm_address \<times> evm_address \<times> uint256 \<times>
     bytes32 \<times> uint256 \<times> bool \<times> bool \<times> uint256) sol" where
  "gasless_getEscrow escrowId = tx_bind (read (entry escrowId)) (\<lambda>e.
     tx_ret (depositor e, beneficiary e, token e, amount e, hashlock e, timelock e, withdrawn e,
       refunded e, safetyDeposit e))"

definition gasless_getNonce :: "evm_address \<Rightarrow> (('a gasless_storage_scheme, 'w) evm, uint256) sol" where
  "gasless_getNonce user = read (\<lambda>s. nonces (storage s) user)"

datatype gasless_call =
    CreateWithPermit MetaTxParams byte bytes32 bytes32
  | CreateWithMetaTx MetaTxParams byte bytes32 bytes32
  | GaslessWithdraw bytes32 bytes32
  | GaslessRefund bytes32

fun gasless_run ::
  "('a gasless_storage_scheme, 'w) evm sol_env \<Rightarrow> msg \<Rightarrow> gasless_call \<Rightarrow> (('a gasless_storage_scheme, 'w) evm, unit) sol"
where
  "gasless_run env m (CreateWithPermit p v r s) = gasless_createEscrowWithPermit env m p v r s"
| "gasless_run env m (CreateWithMetaTx p v r s) = gasless_createEscrowWithMetaTx env m p v r s"
| "gasless_run env m (GaslessWithdraw i x) = gasless_withdraw env m i x"
| "gasless_run env m (GaslessRefund i) = gasless_refund env m i"

abbreviation "gasless_step env \<equiv> chain_step env (gasless_run env)"

subsection \<open>What is relied on of the tokens\<close>

text \<open>
  The documented behaviour of ERC-20 tokens under the OpenZeppelin wrappers: a balance is a matter
  of the token's own state; a call does not touch the storage or the ether of the escrow contract;
  pulling tokens or granting a permit does not take tokens from the contract, and sending takes at
  most the amount, of the token sent.
\<close>

definition tok_funds :: "('s, 'w) evm sol_env \<Rightarrow> evm_address \<Rightarrow> ('s, 'w) evm \<Rightarrow> nat" where
  "tok_funds env t s = (case erc20_balanceOf env t (this env) s of None \<Rightarrow> 0 | Some x \<Rightarrow> unat x)"

definition leaves_contract :: "('s, 'w) evm sol_env \<Rightarrow> ('s, 'w) evm \<Rightarrow> ('s, 'w) evm \<Rightarrow> bool" where
  "leaves_contract env s t \<longleftrightarrow> storage t = storage s \<and> balance t (this env) = balance s (this env)"

definition safe_tokens :: "('s, 'w) evm sol_env \<Rightarrow> bool" where
  "safe_tokens env \<longleftrightarrow>
     (\<forall>tok a s t. world s = world t \<longrightarrow> erc20_balanceOf env tok a s = erc20_balanceOf env tok a t) \<and>
     (\<forall>tok a v s t. safeTransferFrom env tok a (this env) v s = Some t \<longrightarrow>
        leaves_contract env s t \<and> (\<forall>k. tok_funds env k s \<le> tok_funds env k t)) \<and>
     (\<forall>tok a v s t. safeTransfer env tok a v s = Some t \<longrightarrow>
        leaves_contract env s t \<and> (\<forall>k. tok_funds env k s \<le> tok_funds env k t + (if k = tok then unat v else 0))) \<and>
     (\<forall>tok a b v d y p q s t. erc20_permit env tok a b v d y p q s = Some t \<longrightarrow>
        leaves_contract env s t \<and> (\<forall>k. tok_funds env k s \<le> tok_funds env k t))"

lemma safe_tokens_world:
  assumes "safe_tokens env" "world s = world t"
  shows "tok_funds env k s = tok_funds env k t"
proof -
  have "erc20_balanceOf env k (this env) s = erc20_balanceOf env k (this env) t"
    by (rule assms(1)[unfolded safe_tokens_def, THEN conjunct1, rule_format, OF assms(2)])
  then show ?thesis by (simp add: tok_funds_def)
qed

lemma safe_tokens_pull:
  "safe_tokens env \<Longrightarrow> safeTransferFrom env tok a (this env) v s = Some t \<Longrightarrow>
   storage t = storage s \<and> balance t (this env) = balance s (this env) \<and> tok_funds env k s \<le> tok_funds env k t"
  by (drule safe_tokens_def[THEN iffD1, THEN conjunct2, THEN conjunct1]) (simp add: leaves_contract_def)

lemma safe_tokens_send:
  "safe_tokens env \<Longrightarrow> safeTransfer env tok a v s = Some t \<Longrightarrow>
   storage t = storage s \<and> balance t (this env) = balance s (this env) \<and>
   tok_funds env k s \<le> tok_funds env k t + (if k = tok then unat v else 0)"
  by (drule safe_tokens_def[THEN iffD1, THEN conjunct2, THEN conjunct2, THEN conjunct1]) (simp add: leaves_contract_def)

lemma safe_tokens_permit:
  "safe_tokens env \<Longrightarrow> erc20_permit env tok a b v d y p q s = Some t \<Longrightarrow>
   storage t = storage s \<and> balance t (this env) = balance s (this env) \<and> tok_funds env k s \<le> tok_funds env k t"
  by (drule safe_tokens_def[THEN iffD1, THEN conjunct2, THEN conjunct2, THEN conjunct2]) (simp add: leaves_contract_def)

lemma pull_exact_Inr:
  assumes "pull_exact env tok dep amt s = Inr (x, t)" "safe_tokens env"
  shows "storage t = storage s \<and> balance t (this env) = balance s (this env) \<and>
    tok_funds env k s + (if k = tok then unat amt else 0) \<le> tok_funds env k t"
proof -
  obtain b a where pull: "safeTransferFrom env tok dep (this env) amt s = Some t"
    and b: "erc20_balanceOf env tok (this env) s = Some b" and a: "erc20_balanceOf env tok (this env) t = Some a"
    and le: "b \<le> a" "amt \<le> a - b"
    using assms(1)
    by (auto simp: pull_exact_def tx_runs split: option.splits if_splits)
  from le have "unat b + unat amt \<le> unat a" by (simp add: word_le_nat_alt unat_sub)
  then show ?thesis
    using safe_tokens_pull[OF assms(2) pull, of k] a b by (auto simp: tok_funds_def)
qed

subsection \<open>The effect of a call\<close>

text \<open>An effect on the mapping that is covered in ether and in every token.\<close>

definition covered_effect ::
  "('a escrow_storage_scheme, 'w) evm sol_env \<Rightarrow> (Escrow \<Rightarrow> nat) \<Rightarrow> nat \<Rightarrow>
   ('a escrow_storage_scheme, 'w) evm \<Rightarrow> ('a escrow_storage_scheme, 'w) evm \<Rightarrow> bool" where
  "covered_effect env f before s t \<longleftrightarrow>
     escrow_effect f before (balance t (this env)) (escrows (storage s)) (escrows (storage t)) \<and>
     (\<forall>k. k \<noteq> 0 \<longrightarrow> escrow_effect (token_due k) (tok_funds env k s) (tok_funds env k t)
        (escrows (storage s)) (escrows (storage t)))"

lemma enter_effect:
  assumes "escrow_phase (entry i s) = Absent" "escrow_phase e \<in> {Absent, Open}"
    and "escrows (storage t) = (escrows (storage s))(i := e)" "before + f e \<le> balance t (this env)"
    and "\<And>k. k \<noteq> 0 \<Longrightarrow> tok_funds env k s + token_due k e \<le> tok_funds env k t"
  shows "covered_effect env f before s t"
  unfolding covered_effect_def escrow_effect_def using assms by blast

lemma settle_effect:
  assumes "escrow_phase (entry i s) = Open" "settled (escrow_phase e)" "escrow_terms e = escrow_terms (entry i s)"
    and "escrows (storage t) = (escrows (storage s))(i := e)" "before \<le> balance t (this env) + f (entry i s)"
    and "\<And>k. k \<noteq> 0 \<Longrightarrow> tok_funds env k s \<le> tok_funds env k t + token_due k (entry i s)"
  shows "covered_effect env f before s t"
  unfolding covered_effect_def escrow_effect_def using assms by blast

definition funds_covered ::
  "(Escrow \<Rightarrow> nat) \<Rightarrow> ('a escrow_storage_scheme, 'w) evm sol_env \<Rightarrow> ('a escrow_storage_scheme, 'w) evm \<Rightarrow> bool" where
  "funds_covered f env s \<longleftrightarrow>
     owed f (escrows (storage s)) \<le> balance s (this env) \<and>
     (\<forall>k. k \<noteq> 0 \<longrightarrow> owed (token_due k) (escrows (storage s)) \<le> tok_funds env k s)"

lemma covered_effect_keeps:
  "covered_effect env f (balance s (this env)) s t \<Longrightarrow> funds_covered f env s \<Longrightarrow> funds_covered f env t"
  unfolding covered_effect_def funds_covered_def by (blast intro: effect_covered)

lemma covered_effect_phase:
  "covered_effect env f before s t \<Longrightarrow> phase_step (escrow_phase (entry i s)) (escrow_phase (entry i t))"
  unfolding covered_effect_def by (blast intro: effect_phase)

lemma covered_effect_terms:
  "covered_effect env f before s t \<Longrightarrow> escrow_phase (entry i s) \<noteq> Absent \<Longrightarrow>
   escrow_terms (entry i t) = escrow_terms (entry i s)"
  unfolding covered_effect_def by (blast intro: effect_terms)

fun funded_ok :: "('s, 'w) evm sol_env \<Rightarrow> ('s, 'w) evm \<Rightarrow> (('s, 'w) evm, 'k) chain_event \<Rightarrow> bool" where
  "funded_ok env s (Tx m c) \<longleftrightarrow> sender m \<noteq> this env \<and> safe_tokens env"
| "funded_ok env s (Outside t) \<longleftrightarrow> storage t = storage s \<and> balance s (this env) \<le> balance t (this env) \<and>
     (\<forall>k. tok_funds env k s \<le> tok_funds env k t)"

lemma covered_step:
  fixes s :: "('a escrow_storage_scheme, 'w) evm"
  assumes ok: "funded_ok env s e"
    and call: "\<And>m c s0 x t. call m c s0 = Inr (x, t) \<Longrightarrow> safe_tokens env \<Longrightarrow> sender m \<noteq> this env \<Longrightarrow>
      balance s (this env) + unat (val m) = balance s0 (this env) \<Longrightarrow>
      covered_effect env f (balance s (this env)) s0 t"
  shows "covered_effect env f (balance s (this env)) s (chain_step env call s e)"
proof (cases e)
  case (Tx m c)
  show ?thesis
  proof (cases "transact env m (call m c) s")
    case (Inr r)
    obtain x t where r: "r = (x, t)" by (cases r)
    let ?s0 = "move_eth (sender m) (this env) (unat (val m)) s"
    have "call m c ?s0 = Inr (x, t)" using Inr r by (simp add: transact_Inr)
    from call[OF this] ok Tx have "covered_effect env f (balance s (this env)) ?s0 t"
      by (simp add: move_eth_balance)
    moreover have "tok_funds env k ?s0 = tok_funds env k s" for k
      using ok Tx by (intro safe_tokens_world) simp_all
    ultimately show ?thesis using Tx Inr r by (simp add: outcome_def covered_effect_def)
  qed (simp add: Tx outcome_def covered_effect_def escrow_effect_def)
qed (use ok in \<open>simp add: covered_effect_def escrow_effect_def\<close>)

lemma gasless_create_effect:
  assumes run: "gasless_createEscrowInternal env m i d b tok a h u s = Inr (x, t)" and safe: "safe_tokens env"
  shows "\<exists>e. escrow_phase e \<in> {Absent, Open} \<and> (d \<noteq> 0 \<longrightarrow> escrow_phase e = Open) \<and>
    escrow_terms e = (d, b, tok, a, h, u, if tok = 0 then val m - a else val m) \<and> eth_due e = unat (val m) \<and>
    storage t = (storage s)\<lparr>escrows := (escrows (storage s))(i := e)\<rparr> \<and>
    balance t (this env) = balance s (this env) \<and>
    (\<forall>k. k \<noteq> 0 \<longrightarrow> tok_funds env k s + token_due k e \<le> tok_funds env k t)"
proof -
  let ?e = "new_escrow d b tok a h u (if tok = 0 then val m - a else val m)"
  have "\<exists>s1 lg. storage s1 = storage s \<and> balance s1 (this env) = balance s (this env) \<and>
      (\<forall>k. k \<noteq> 0 \<longrightarrow> tok_funds env k s + (if k = tok then unat a else 0) \<le> tok_funds env k s1) \<and>
      t = s1\<lparr>storage := (storage s)\<lparr>escrows := (escrows (storage s))(i := ?e)\<rparr>, logs := lg\<rparr> \<and> (tok = 0 \<longrightarrow> a \<le> val m)"
  proof (cases "tok = 0")
    case True
    then show ?thesis using run
      by (intro exI[of _ s]) (auto simp: gasless_createEscrowInternal_def tx_runs split: if_splits)
  next
    case False
    then obtain y s1 where p: "pull_exact env tok d a s = Inr (y, s1)"
      and t: "t = s1\<lparr>storage := (storage s1)\<lparr>escrows := (escrows (storage s1))(i := ?e)\<rparr>,
        logs := EscrowCreated i d b tok a h u # logs s1\<rparr>"
      using run by (auto simp: gasless_createEscrowInternal_def tx_runs tx_bind_Inr split: if_splits)
    show ?thesis
      using pull_exact_Inr[OF p safe] t False by (intro exI[of _ s1]) auto
  qed
  then obtain s1 lg where s1: "storage s1 = storage s" "balance s1 (this env) = balance s (this env)"
      "\<And>k. k \<noteq> 0 \<Longrightarrow> tok_funds env k s + (if k = tok then unat a else 0) \<le> tok_funds env k s1"
    and t: "t = s1\<lparr>storage := (storage s)\<lparr>escrows := (escrows (storage s))(i := ?e)\<rparr>, logs := lg\<rparr>"
    and v: "tok = 0 \<longrightarrow> a \<le> val m" by blast
  have "tok_funds env k t = tok_funds env k s1" for k using t by (intro safe_tokens_world[OF safe]) simp
  then have "tok_funds env k s + token_due k ?e \<le> tok_funds env k t" if "k \<noteq> 0" for k
    using s1(3)[OF that] by (auto simp: token_due_def new_escrow_def split: if_splits)
  moreover have "eth_due ?e = unat (val m)" using v by (auto simp: eth_due_def new_escrow_def unat_sub word_le_nat_alt)
  ultimately show ?thesis using s1(1,2) t
    by (intro exI[of _ ?e]) (auto simp: escrow_phase_def escrow_terms_def new_escrow_def)
qed

text \<open>The part of a withdrawal and of a refund that moves the funds.\<close>

lemma gasless_payout:
  assumes run: "tx_seq [mod_escrow i f,
      if token e = 0 then pay env to (amount e) else external_unit (safeTransfer env (token e) to (amount e)),
      tx_bind (read (entry i)) (\<lambda>e. pay env (sender m) (safetyDeposit e)), emit ev] s = Inr (y, t)"
    and safe: "safe_tokens env" and "sender m \<noteq> this env" "e = entry i s" "safetyDeposit (f e) = safetyDeposit e"
  shows "storage t = (storage s)\<lparr>escrows := (escrows (storage s))(i := f e)\<rparr> \<and>
    balance t (this env) + eth_due e = balance s (this env) \<and>
    (\<forall>k. k \<noteq> 0 \<longrightarrow> tok_funds env k s \<le> tok_funds env k t + token_due k e)"
proof -
  let ?s1 = "s\<lparr>storage := (storage s)\<lparr>escrows := (escrows (storage s))(i := f e)\<rparr>\<rparr>"
  have funds1: "tok_funds env k ?s1 = tok_funds env k s" for k by (rule safe_tokens_world[OF safe]) simp
  obtain s2 where s2: "storage s2 = storage ?s1"
      "balance s2 (this env) + (if token e = 0 then unat (amount e) else 0) = balance s (this env)"
      "\<And>k. k \<noteq> 0 \<Longrightarrow> tok_funds env k s \<le> tok_funds env k s2 + token_due k e"
    and le: "unat (safetyDeposit e) \<le> balance s2 (this env)"
    and t: "t = (move_eth (this env) (sender m) (unat (safetyDeposit e)) s2)\<lparr>logs := ev # logs s2\<rparr>"
  proof (cases "token e = 0")
    case True
    let ?s2 = "move_eth (this env) to (unat (amount e)) ?s1"
    have "tok_funds env k ?s2 = tok_funds env k s" for k by (rule safe_tokens_world[OF safe]) simp
    with True run assms(4,5) show ?thesis
      by (intro that[of ?s2]) (auto simp: tx_runs move_eth_balance split: if_splits)
  next
    case False
    then obtain s2 where s2: "safeTransfer env (token e) to (amount e) ?s1 = Some s2"
      using run assms(4) by (auto simp: tx_runs split: if_splits option.splits)
    note send = safe_tokens_send[OF safe s2]
    have "tok_funds env k s \<le> tok_funds env k s2 + token_due k e" for k
      using send[of k] by (auto simp: token_due_def funds1 split: if_splits)
    with False run s2 send assms(4,5) show ?thesis
      by (intro that[of s2]) (auto simp: tx_runs split: if_splits)
  qed
  have "tok_funds env k t = tok_funds env k s2" for k using t by (intro safe_tokens_world[OF safe]) simp
  with s2 t le assms(3) show ?thesis by (auto simp: eth_due_def move_eth_balance)
qed

lemma gasless_withdraw_effect:
  assumes "gasless_withdraw env m i x s = Inr (y, t)" "safe_tokens env" "sender m \<noteq> this env"
  shows "escrow_phase (entry i s) = Open \<and> keccak256 env (word_bytes x) = hashlock (entry i s) \<and> val m = 0 \<and>
    storage t = (storage s)\<lparr>escrows := (escrows (storage s))(i := (entry i s)\<lparr>withdrawn := True\<rparr>)\<rparr> \<and>
    balance t (this env) + eth_due (entry i s) = balance s (this env) \<and>
    (\<forall>k. k \<noteq> 0 \<longrightarrow> tok_funds env k s \<le> tok_funds env k t + token_due k (entry i s))"
proof -
  let ?e = "entry i s"
  have run: "tx_seq [mod_escrow i (\<lambda>e. e\<lparr>withdrawn := True\<rparr>),
      if token ?e = 0 then pay env (beneficiary ?e) (amount ?e)
      else external_unit (safeTransfer env (token ?e) (beneficiary ?e) (amount ?e)),
      tx_bind (read (entry i)) (\<lambda>e. pay env (sender m) (safetyDeposit e)), emit (EscrowWithdrawn i x)] s = Inr (y, t)"
    using assms(1) unfolding gasless_withdraw_def nonpayable_run read_run tx_seq_require by (simp split: if_splits)
  have "val m = 0 \<and> escrow_phase ?e = Open \<and> keccak256 env (word_bytes x) = hashlock ?e"
    using assms(1) unfolding gasless_withdraw_def nonpayable_run read_run tx_seq_require
    by (simp add: escrow_phase_def split: if_splits)
  with gasless_payout[OF run assms(2,3) refl] show ?thesis by simp
qed

lemma gasless_refund_effect:
  assumes "gasless_refund env m i s = Inr (y, t)" "safe_tokens env" "sender m \<noteq> this env"
  shows "escrow_phase (entry i s) = Open \<and> timelock (entry i s) \<le> now m \<and> val m = 0 \<and>
    storage t = (storage s)\<lparr>escrows := (escrows (storage s))(i := (entry i s)\<lparr>refunded := True\<rparr>)\<rparr> \<and>
    balance t (this env) + eth_due (entry i s) = balance s (this env) \<and>
    (\<forall>k. k \<noteq> 0 \<longrightarrow> tok_funds env k s \<le> tok_funds env k t + token_due k (entry i s))"
proof -
  let ?e = "entry i s"
  have run: "tx_seq [mod_escrow i (\<lambda>e. e\<lparr>refunded := True\<rparr>),
      if token ?e = 0 then pay env (depositor ?e) (amount ?e)
      else external_unit (safeTransfer env (token ?e) (depositor ?e) (amount ?e)),
      tx_bind (read (entry i)) (\<lambda>e. pay env (sender m) (safetyDeposit e)), emit (EscrowRefunded i)] s = Inr (y, t)"
    using assms(1) unfolding gasless_refund_def nonpayable_run read_run tx_seq_require by (simp split: if_splits)
  have "val m = 0 \<and> escrow_phase ?e = Open \<and> timelock ?e \<le> now m"
    using assms(1) unfolding gasless_refund_def nonpayable_run read_run tx_seq_require
    by (simp add: escrow_phase_def split: if_splits)
  with gasless_payout[OF run assms(2,3) refl] show ?thesis by simp
qed

lemma tx_seq_Cons: "tx_seq (n # ms) s = tx_bind n (\<lambda>_. tx_seq ms) s"
  by (simp add: tx_seq.simps tx_then_def)

lemma createEscrowWithPermit_Inr:
  assumes "gasless_createEscrowWithPermit env m p v r q s = Inr (x, t)" "safe_tokens env"
  shows "depositor (entry (p_escrowId p) s) = 0 \<and> p_amount p \<noteq> 0 \<and> now m < p_timelock p \<and> now m \<le> p_deadline p \<and>
    (\<exists>s1. storage s1 = storage s \<and> balance s1 (this env) = balance s (this env) \<and>
      (\<forall>k. tok_funds env k s \<le> tok_funds env k s1) \<and>
      gasless_createEscrowInternal env m (p_escrowId p) (p_depositor p) (p_beneficiary p) (p_token p)
         (p_amount p) (p_hashlock p) (p_timelock p) s1 = Inr (x, t))"
proof -
  let ?perm = "external_unit (erc20_permit env (p_token p) (p_depositor p) (this env) (p_amount p) (p_deadline p) v r q)"
  let ?create = "gasless_createEscrowInternal env m (p_escrowId p) (p_depositor p) (p_beneficiary p) (p_token p)
         (p_amount p) (p_hashlock p) (p_timelock p)"
  let ?C = "depositor (entry (p_escrowId p) s) = 0 \<and> p_amount p \<noteq> 0 \<and> now m < p_timelock p \<and> now m \<le> p_deadline p"
  note body = assms(1)[unfolded gasless_createEscrowWithPermit_def read_run tx_seq_require]
  from body have c: ?C by (simp split: if_splits)
  with body have run: "tx_seq [if p_token p \<noteq> WETH \<and> p_token p \<noteq> 0 then ?perm else tx_ret (), ?create] s = Inr (x, t)"
    by (simp only: if_True simp_thms)
  show ?thesis
  proof (cases "p_token p \<noteq> WETH \<and> p_token p \<noteq> 0")
    case True
    then obtain s1 where s1: "erc20_permit env (p_token p) (p_depositor p) (this env) (p_amount p) (p_deadline p) v r q s = Some s1"
      "?create s1 = Inr (x, t)"
      using run by (auto simp: tx_seq_Cons[of _ "[n]" for n] tx_seq_last external_runs split: option.splits)
    with safe_tokens_permit[OF assms(2) s1(1)] c show ?thesis by blast
  next
    case False
    then have "?create s = Inr (x, t)"
      using run by (auto simp: tx_seq_Cons[of _ "[n]" for n] tx_seq_last tx_bind_ret)
    with c show ?thesis by blast
  qed
qed

lemma createEscrowWithMetaTx_Inr:
  assumes "gasless_createEscrowWithMetaTx env m p v r q s = Inr (x, t)"
  shows "depositor (entry (p_escrowId p) s) = 0 \<and> p_amount p \<noteq> 0 \<and> now m < p_timelock p \<and> now m \<le> p_deadline p \<and>
    recover env (create_escrow_digest env p (nonces (storage s) (p_depositor p))) v r q = Some (p_depositor p) \<and>
    unat (nonces (storage s) (p_depositor p)) + 1 < 2 ^ 256 \<and>
    gasless_createEscrowInternal env m (p_escrowId p) (p_depositor p) (p_beneficiary p) (p_token p)
         (p_amount p) (p_hashlock p) (p_timelock p)
         (s\<lparr>storage := (storage s)\<lparr>nonces := (nonces (storage s))(p_depositor p := nonces (storage s) (p_depositor p) + 1)\<rparr>\<rparr>)
      = Inr (x, t)"
  using assms unfolding gasless_createEscrowWithMetaTx_def validateAndExecuteMetaTx_def read_run tx_seq_require
  by (auto simp: tx_seq_Cons[of n "k # ks" for n k ks] tx_seq_last bump_nonce_def external_runs require_run read_run
      checked_add_run update_run store_def tx_bind_assoc split: if_splits option.splits)

lemma gasless_run_effect:
  assumes "gasless_run env m c s = Inr (x, t)" "safe_tokens env" "sender m \<noteq> this env"
    "before + unat (val m) = balance s (this env)"
  shows "covered_effect env eth_due before s t"
proof (cases c)
  case (CreateWithPermit p v r q)
  with createEscrowWithPermit_Inr[of env m p v r q s x t] assms obtain s1 where
    a: "depositor (entry (p_escrowId p) s) = 0" and s1: "storage s1 = storage s" "balance s1 (this env) = balance s (this env)"
      "\<And>k. tok_funds env k s \<le> tok_funds env k s1"
      "gasless_createEscrowInternal env m (p_escrowId p) (p_depositor p) (p_beneficiary p) (p_token p)
         (p_amount p) (p_hashlock p) (p_timelock p) s1 = Inr (x, t)" by auto
  from gasless_create_effect[OF s1(4) assms(2)] obtain e where e: "escrow_phase e \<in> {Absent, Open}"
    "eth_due e = unat (val m)" "storage t = (storage s1)\<lparr>escrows := (escrows (storage s1))(p_escrowId p := e)\<rparr>"
    "balance t (this env) = balance s1 (this env)"
    "\<And>k. k \<noteq> 0 \<Longrightarrow> tok_funds env k s1 + token_due k e \<le> tok_funds env k t" by blast
  show ?thesis
  proof (rule enter_effect[of s "p_escrowId p" e])
    fix k :: evm_address assume "k \<noteq> 0"
    with e(5)[of k] s1(3)[of k] show "tok_funds env k s + token_due k e \<le> tok_funds env k t" by simp
  qed (use a e s1 assms(4) in \<open>auto simp: escrow_phase_def\<close>)
next
  case (CreateWithMetaTx p v r q)
  let ?s1 = "s\<lparr>storage := (storage s)\<lparr>nonces := (nonces (storage s))(p_depositor p := nonces (storage s) (p_depositor p) + 1)\<rparr>\<rparr>"
  from createEscrowWithMetaTx_Inr[of env m p v r q s x t] assms(1) CreateWithMetaTx have
    a: "depositor (entry (p_escrowId p) s) = 0" and run:
      "gasless_createEscrowInternal env m (p_escrowId p) (p_depositor p) (p_beneficiary p) (p_token p)
         (p_amount p) (p_hashlock p) (p_timelock p) ?s1 = Inr (x, t)" by auto
  have f: "tok_funds env k ?s1 = tok_funds env k s" for k by (rule safe_tokens_world[OF assms(2)]) simp
  from gasless_create_effect[OF run assms(2)] obtain e where "escrow_phase e \<in> {Absent, Open}"
    "eth_due e = unat (val m)" "storage t = (storage ?s1)\<lparr>escrows := (escrows (storage s))(p_escrowId p := e)\<rparr>"
    "balance t (this env) = balance s (this env)"
    "\<And>k. k \<noteq> 0 \<Longrightarrow> tok_funds env k s + token_due k e \<le> tok_funds env k t" unfolding f by auto
  with a assms(4) show ?thesis
    by (intro enter_effect[of s "p_escrowId p" e]) (auto simp: escrow_phase_def)
next
  case (GaslessWithdraw i y)
  with gasless_withdraw_effect[of env m i y s x t] assms show ?thesis
    by (intro settle_effect[of s i "(entry i s)\<lparr>withdrawn := True\<rparr>"])
      (auto simp: escrow_phase_def settled_def escrow_terms_def split: if_splits)
next
  case (GaslessRefund i)
  with gasless_refund_effect[of env m i s x t] assms show ?thesis
    by (intro settle_effect[of s i "(entry i s)\<lparr>refunded := True\<rparr>"])
      (auto simp: escrow_phase_def settled_def escrow_terms_def split: if_splits)
qed

lemma gasless_step_effect:
  "funded_ok env s e \<Longrightarrow> covered_effect env eth_due (balance s (this env)) s (gasless_step env s e)"
  by (rule covered_step) (auto intro: gasless_run_effect)

interpretation gasless_lock: htlc "gasless_step env" "funded_ok env" "funds_covered eth_due env"
  "\<lambda>s i. escrow_phase (entry i s)" "\<lambda>s i. escrow_terms (entry i s)" for env
  by unfold_locales
    (blast intro: covered_effect_keeps gasless_step_effect, blast intro: covered_effect_phase gasless_step_effect,
     blast intro: covered_effect_terms gasless_step_effect)

subsection \<open>Properties\<close>

text \<open>
  A chain for the examples: a ledger of token balances as the rest of the world, moved by the token
  calls, and a signature scheme in which the second half of a signature names the signer.
\<close>

type_synonym ledger = "evm_address \<Rightarrow> evm_address \<Rightarrow> uint256"

definition ledger_move :: "evm_address \<Rightarrow> evm_address \<Rightarrow> evm_address \<Rightarrow> uint256 \<Rightarrow> ledger \<Rightarrow> ledger option" where
  "ledger_move tok a b v w =
     (if tok \<noteq> 0 \<and> a \<noteq> b \<and> v \<le> w tok a \<and> unat (w tok b) + unat v < 2 ^ 256
      then Some (w(tok := (w tok)(a := w tok a - v, b := w tok b + v))) else None)"

definition ledger_call :: "(ledger \<Rightarrow> ledger option) \<Rightarrow> ('s, ledger) evm \<Rightarrow> ('s, ledger) evm option" where
  "ledger_call f s = (case f (world s) of None \<Rightarrow> None | Some w \<Rightarrow> Some (s\<lparr>world := w\<rparr>))"

definition ledger_env :: "('s, ledger) evm sol_env" where
  "ledger_env = \<lparr>this = 99, keccak256 = (\<lambda>bs. ucast (last bs) + 1), accepts = (\<lambda>a. True),
     erc20_transferFrom = (\<lambda>tok a b v s. map_option (Pair True) (ledger_call (ledger_move tok a b v) s)),
     erc20_transfer = (\<lambda>tok b v s. map_option (Pair True) (ledger_call (ledger_move tok 99 b v) s)),
     erc20_balanceOf = (\<lambda>tok a s. if tok = 0 then None else Some (world s tok a)),
     erc20_permit = (\<lambda>tok a b v d y p q s. Some s),
     safeTransferFrom = (\<lambda>tok a b v s. ledger_call (ledger_move tok a b v) s),
     safeTransfer = (\<lambda>tok b v s. ledger_call (ledger_move tok 99 b v) s),
     eth_call = (\<lambda>a v s. (True, s)), recover = (\<lambda>h v p q. Some (ucast q)), hashTypedDataV4 = (\<lambda>h. h)\<rparr>"

lemma ledger_funds: "tok_funds ledger_env k s = (if k = 0 then 0 else unat (world s k 99))"
  by (simp add: tok_funds_def ledger_env_def)

lemma ledger_call_Some:
  "ledger_call f s = Some t \<longleftrightarrow> (\<exists>w. f (world s) = Some w \<and> t = s\<lparr>world := w\<rparr>)"
  by (auto simp: ledger_call_def split: option.splits)

lemma ledger_env_safe: "safe_tokens (ledger_env :: ('s, ledger) evm sol_env)"
  unfolding safe_tokens_def ledger_funds leaves_contract_def
  by (auto simp: ledger_env_def ledger_call_Some ledger_move_def unat_sub word_le_nat_alt unat_word_ariths split: if_splits)

definition ledger_chain :: "(gasless_storage, ledger) evm" where
  "ledger_chain = \<lparr>balance = (\<lambda>a. if a = 1 \<or> a = 2 then 1000 else 0),
     storage = \<lparr>escrows = (\<lambda>i. no_escrow), nonces = (\<lambda>a. 0)\<rparr>,
     world = (\<lambda>tok a. if tok = WETH \<and> a = 1 then 500 else 0), logs = []\<rparr>"

definition demo_params :: MetaTxParams where
  "demo_params = \<lparr>p_escrowId = 7, p_depositor = 1, p_beneficiary = 2, p_token = WETH, p_amount = 100,
     p_hashlock = 6, p_timelock = 50, p_deadline = 40\<rparr>"

definition demo_metatx :: "((gasless_storage, ledger) evm, gasless_call) chain_event" where
  "demo_metatx = Tx \<lparr>sender = 2, val = 10, now = 10\<rparr> (CreateWithMetaTx demo_params 27 0 1)"

lemma demo_metatx_legal:
  "legal_run (gasless_step ledger_env) (funded_ok ledger_env) ledger_chain [demo_metatx]"
  by (simp add: demo_metatx_def ledger_env_safe) (simp add: ledger_env_def)

lemma ledger_env_fields [simp]:
  "recover ledger_env h y p q = Some (ucast q)" "this ledger_env = 99" "accepts ledger_env a"
  "erc20_balanceOf ledger_env tok a s = (if tok = 0 then None else Some (world s tok a))"
  "safeTransferFrom ledger_env tok a b v s = ledger_call (ledger_move tok a b v) s"
  "safeTransfer ledger_env tok b v s = ledger_call (ledger_move tok 99 b v) s"
  by (simp_all add: ledger_env_def)

lemma demo_metatx_entry:
  "entry 7 (gasless_step ledger_env ledger_chain demo_metatx) = new_escrow 1 2 WETH 100 6 50 10"
  by (simp add: demo_metatx_def demo_params_def outcome_def transact_def gasless_createEscrowWithMetaTx_def
      validateAndExecuteMetaTx_def gasless_createEscrowInternal_def pull_exact_def tx_runs ledger_chain_def
      ledger_call_def ledger_move_def no_escrow_def WETH_def move_eth_def Let_def)

lemma fresh_covered: "escrows (storage s) = (\<lambda>i. no_escrow) \<Longrightarrow> funds_covered f env s"
  by (simp add: funds_covered_def)

text \<open>
  C4. The contract is always able to meet its obligations: after any sequence of transactions mixed
  with other activity on the chain, the ether it holds covers the ether and the safety deposits of
  all open escrows, and its balance of every token covers the open escrows of that token, also for
  tokens that deliver less than the amount. And every escrow is settled at most once.
\<close>

theorem gasless_funds_covered:
  assumes "escrows (storage s) = (\<lambda>i. no_escrow)" "legal_run (gasless_step env) (funded_ok env) s es"
  shows "funds_covered eth_due env (foldl (gasless_step env) s es) \<and>
    settlements (gasless_step env) (\<lambda>s. escrow_phase (entry i s)) s es \<le> 1"
  using gasless_lock.run_inv[OF fresh_covered[OF assms(1)] assms(2)]
    gasless_lock.settles_once[OF fresh_covered[OF assms(1)] assms(2)] by blast

theorem gasless_funds_covered_witness:
  "funds_covered eth_due ledger_env (foldl (gasless_step ledger_env) ledger_chain [demo_metatx]) \<and>
   escrow_phase (entry 7 (foldl (gasless_step ledger_env) ledger_chain [demo_metatx])) = Open"
proof -
  have "escrow_phase (entry 7 (foldl (gasless_step ledger_env) ledger_chain [demo_metatx])) = Open"
    by (simp add: demo_metatx_entry escrow_phase_def new_escrow_def)
  then show ?thesis
    using gasless_funds_covered[OF _ demo_metatx_legal] by (simp add: ledger_chain_def)
qed

text \<open>
  C13. An escrow from a signed message carries exactly the signed terms: the signature recovers to
  the depositor over all fields and the depositor's current nonce, the deadline has not passed and
  the time lock lies ahead; the nonce moves on by one, nothing else of the contract changes, and in
  no later state does the same message create an escrow again, whoever sends it.
\<close>

theorem metaTx_consent:
  assumes "escrows (storage s0) = (\<lambda>i. no_escrow)" "legal_run (gasless_step env) (funded_ok env) s0 es"
    and "s = foldl (gasless_step env) s0 es" "transact env m (gasless_createEscrowWithMetaTx env m p v r q) s = Inr (x, t)"
    and "safe_tokens env" "sender m \<noteq> this env" "p_depositor p \<noteq> 0"
    and "legal_run (gasless_step env) (funded_ok env) t fs"
  shows "recover env (create_escrow_digest env p (nonces (storage s) (p_depositor p))) v r q = Some (p_depositor p) \<and>
    now m \<le> p_deadline p \<and> now m < p_timelock p \<and>
    escrow_phase (entry (p_escrowId p) t) = Open \<and>
    escrow_terms (entry (p_escrowId p) t) = (p_depositor p, p_beneficiary p, p_token p, p_amount p, p_hashlock p,
      p_timelock p, if p_token p = 0 then val m - p_amount p else val m) \<and>
    nonces (storage t) = (nonces (storage s))(p_depositor p := nonces (storage s) (p_depositor p) + 1) \<and>
    (\<forall>i. i \<noteq> p_escrowId p \<longrightarrow> entry i t = entry i s) \<and>
    (\<forall>m' v' r' q'. gasless_createEscrowWithMetaTx env m' p v' r' q' (foldl (gasless_step env) t fs) =
       Inl (Custom ''EscrowAlreadyExists''))"
proof -
  let ?s0 = "move_eth (sender m) (this env) (unat (val m)) s"
  have call: "gasless_createEscrowWithMetaTx env m p v r q ?s0 = Inr (x, t)" using assms(4) by (simp add: transact_Inr)
  note inv = createEscrowWithMetaTx_Inr[OF call]
  let ?s1 = "?s0\<lparr>storage := (storage s)\<lparr>nonces := (nonces (storage s))(p_depositor p := nonces (storage s) (p_depositor p) + 1)\<rparr>\<rparr>"
  have run: "gasless_createEscrowInternal env m (p_escrowId p) (p_depositor p) (p_beneficiary p) (p_token p)
         (p_amount p) (p_hashlock p) (p_timelock p) ?s1 = Inr (x, t)" using inv by simp
  from gasless_create_effect[OF run assms(5)] assms(7) obtain e where e: "escrow_phase e = Open"
    "escrow_terms e = (p_depositor p, p_beneficiary p, p_token p, p_amount p, p_hashlock p, p_timelock p,
       if p_token p = 0 then val m - p_amount p else val m)"
    "storage t = (storage ?s1)\<lparr>escrows := (escrows (storage s))(p_escrowId p := e)\<rparr>" by auto
  have step: "t = gasless_step env s (Tx m (CreateWithMetaTx p v r q))" using assms(4) by (simp add: outcome_def)
  have "funds_covered eth_due env s" using gasless_lock.run_inv[OF fresh_covered[OF assms(1)] assms(2)] assms(3) by simp
  then have cov: "funds_covered eth_due env t" unfolding step
    by (rule gasless_lock.step_inv) (use assms(5,6) in simp)
  from gasless_lock.run_terms[OF cov assms(8), of "p_escrowId p"] e(1,3)
  have "depositor (entry (p_escrowId p) (foldl (gasless_step env) t fs)) \<noteq> 0"
    by (auto simp: escrow_phase_def split: if_splits)
  then have again: "gasless_createEscrowWithMetaTx env m' p v' r' q' (foldl (gasless_step env) t fs) =
      Inl (Custom ''EscrowAlreadyExists'')" for m' v' r' q'
    by (simp add: gasless_createEscrowWithMetaTx_def validateAndExecuteMetaTx_def read_run tx_seq_require)
  show ?thesis using inv e again by simp
qed

theorem metaTx_consent_witness:
  "nonces (storage (gasless_step ledger_env ledger_chain demo_metatx)) 1 = 1"
proof -
  let ?m = "\<lparr>sender = 2, val = 10, now = 10\<rparr>"
  let ?f = "transact ledger_env ?m (gasless_createEscrowWithMetaTx ledger_env ?m demo_params 27 0 1)"
  obtain t where t: "?f ledger_chain = Inr ((), t)"
    by (simp add: demo_params_def transact_def gasless_createEscrowWithMetaTx_def
      validateAndExecuteMetaTx_def gasless_createEscrowInternal_def pull_exact_def tx_runs ledger_chain_def
      ledger_call_def ledger_move_def no_escrow_def WETH_def move_eth_def Let_def)
  have "escrows (storage ledger_chain) = (\<lambda>i. no_escrow)" by (simp add: ledger_chain_def)
  from metaTx_consent[OF this, of ledger_env "[]" ledger_chain ?m demo_params 27 0 1 "()" t "[]"] t
  have "nonces (storage t) = (nonces (storage ledger_chain))(1 := nonces (storage ledger_chain) 1 + 1)"
    by (simp add: ledger_env_safe demo_params_def)
  with t show ?thesis by (simp add: demo_metatx_def outcome_def ledger_chain_def)
qed

text \<open>
  The creation with a permit asks for no signature when the token is the wrapped ether (or
  ether itself): the three signature values have no influence, and any caller who adds a safety
  deposit opens an escrow with terms of its own choice over the tokens a depositor has approved.
\<close>

theorem weth_escrow_without_signature:
  assumes "p_token p = WETH" "escrow_phase (entry (p_escrowId p) s) = Absent" "p_amount p \<noteq> 0"
    and "now m < p_timelock p" "now m \<le> p_deadline p" "0 < val m"
    and "pull_exact env WETH (p_depositor p) (p_amount p) s = Inr ((), s1)" "safe_tokens env"
  shows "\<exists>t. (\<forall>v r q. gasless_createEscrowWithPermit env m p v r q s = Inr ((), t)) \<and>
     entry (p_escrowId p) t = new_escrow (p_depositor p) (p_beneficiary p) WETH (p_amount p) (p_hashlock p) (p_timelock p) (val m)"
proof -
  have w: "WETH \<noteq> 0" by (simp add: WETH_def)
  have "storage s1 = storage s" using pull_exact_Inr[OF assms(7,8)] by simp
  let ?e = "new_escrow (p_depositor p) (p_beneficiary p) WETH (p_amount p) (p_hashlock p) (p_timelock p) (val m)"
  let ?t = "s1\<lparr>storage := (storage s1)\<lparr>escrows := (escrows (storage s1))(p_escrowId p := ?e)\<rparr>,
    logs := EscrowCreated (p_escrowId p) (p_depositor p) (p_beneficiary p) WETH (p_amount p) (p_hashlock p) (p_timelock p) # logs s1\<rparr>"
  have pull: "tx_bind (pull_exact env WETH (p_depositor p) (p_amount p)) g s = g () s1" for g
    using assms(7) by (simp add: tx_bind_def)
  have "gasless_createEscrowWithPermit env m p v r q s = Inr ((), ?t)" for v r q
    using assms(1-6) w
    by (simp add: gasless_createEscrowWithPermit_def gasless_createEscrowInternal_def tx_runs pull escrow_phase_def
        split: if_splits)
  then show ?thesis by (intro exI[of _ ?t]) simp
qed

theorem weth_escrow_without_signature_witness:
  "\<exists>t. (\<forall>v r q. gasless_createEscrowWithPermit ledger_env \<lparr>sender = 3, val = 1, now = 10\<rparr>
      (demo_params\<lparr>p_beneficiary := 3\<rparr>) v r q ledger_chain = Inr ((), t))"
proof -
  have "pull_exact ledger_env WETH 1 100 ledger_chain = Inr ((), ledger_chain\<lparr>world :=
      (world ledger_chain)(WETH := (world ledger_chain WETH)(1 := 400, 99 := 100))\<rparr>)"
    by (simp add: pull_exact_def tx_runs ledger_chain_def ledger_call_def ledger_move_def WETH_def)
  then show ?thesis
    using weth_escrow_without_signature[of "demo_params\<lparr>p_beneficiary := 3\<rparr>" ledger_chain "\<lparr>sender = 3, val = 1, now = 10\<rparr>" ledger_env]
    by (auto simp: demo_params_def ledger_env_safe ledger_chain_def no_escrow_def escrow_phase_def)
qed

end
