(* ===== verification/Merkle.thy ===== *)
theory Merkle
  imports Main
begin

section \<open>Merkle proofs by position\<close>

text \<open>
  The verification loop that the Solidity and the Move contract share, over any way \<open>node\<close> to hash
  two children, and the tree it is about: the complete binary tree over a list of \<open>2 ^ d\<close> leaves,
  hashed in pairs from left to right.
\<close>

fun climb :: "('h \<Rightarrow> 'h \<Rightarrow> 'h) \<Rightarrow> 'h \<Rightarrow> 'h list \<Rightarrow> nat \<Rightarrow> 'h" where
  "climb node h [] i = h"
| "climb node h (x # xs) i = climb node (if i mod 2 = 0 then node h x else node x h) xs (i div 2)"

fun next_level :: "('h \<Rightarrow> 'h \<Rightarrow> 'h) \<Rightarrow> 'h list \<Rightarrow> 'h list" where
  "next_level node (a # b # ls) = node a b # next_level node ls"
| "next_level node ls = []"

fun tree_root :: "('h \<Rightarrow> 'h \<Rightarrow> 'h) \<Rightarrow> nat \<Rightarrow> 'h list \<Rightarrow> 'h" where
  "tree_root node 0 ls = hd ls"
| "tree_root node (Suc d) ls = tree_root node d (next_level node ls)"

fun tree_proof :: "('h \<Rightarrow> 'h \<Rightarrow> 'h) \<Rightarrow> nat \<Rightarrow> 'h list \<Rightarrow> nat \<Rightarrow> 'h list" where
  "tree_proof node 0 ls i = []"
| "tree_proof node (Suc d) ls i =
     ls ! (if i mod 2 = 0 then i + 1 else i - 1) # tree_proof node d (next_level node ls) (i div 2)"

lemma length_tree_proof [simp]: "length (tree_proof node d ls i) = d"
  by (induction d arbitrary: ls i) simp_all

lemma length_next_level [simp]: "length (next_level node ls) = length ls div 2"
  by (induction node ls rule: next_level.induct) simp_all

lemma nth_next_level:
  "i < length ls div 2 \<Longrightarrow> next_level node ls ! i = node (ls ! (2 * i)) (ls ! (2 * i + 1))"
proof (induction node ls arbitrary: i rule: next_level.induct)
  case (1 node a b ls)
  then show ?case by (cases i) simp_all
qed simp_all

lemma nth_parent:
  assumes "length ls = 2 ^ Suc d" "i < 2 ^ Suc d"
  shows "next_level node ls ! (i div 2) =
    (if i mod 2 = 0 then node (ls ! i) (ls ! (i + 1)) else node (ls ! (i - 1)) (ls ! i))"
proof -
  have "next_level node ls ! (i div 2) = node (ls ! (2 * (i div 2))) (ls ! (2 * (i div 2) + 1))"
    using assms by (intro nth_next_level) auto
  moreover have "2 * (i div 2) = (if i mod 2 = 0 then i else i - 1)" by (simp add: minus_mod_eq_mult_div[symmetric])
  moreover have "i mod 2 \<noteq> 0 \<Longrightarrow> i - 1 + 1 = i" by (cases i) auto
  ultimately show ?thesis by auto
qed

lemma climb_complete:
  "length ls = 2 ^ d \<Longrightarrow> i < 2 ^ d \<Longrightarrow> climb node (ls ! i) (tree_proof node d ls i) i = tree_root node d ls"
proof (induction d arbitrary: ls i)
  case 0
  then show ?case by (cases ls) auto
next
  case (Suc d)
  have "climb node (next_level node ls ! (i div 2)) (tree_proof node d (next_level node ls) (i div 2)) (i div 2) =
      tree_root node d (next_level node ls)"
    using Suc.prems by (intro Suc.IH) auto
  then show ?case using nth_parent[OF Suc.prems, of node] by auto
qed

text \<open>
  The pairs that are hashed to build the tree, and those that are hashed to check a proof. A proof
  is convincing as long as the hash has no collision among these pairs.
\<close>

fun adjacent :: "'h list \<Rightarrow> ('h \<times> 'h) list" where
  "adjacent (a # b # ls) = (a, b) # adjacent ls"
| "adjacent ls = []"

fun tree_pairs :: "('h \<Rightarrow> 'h \<Rightarrow> 'h) \<Rightarrow> nat \<Rightarrow> 'h list \<Rightarrow> ('h \<times> 'h) list" where
  "tree_pairs node 0 ls = []"
| "tree_pairs node (Suc d) ls = adjacent ls @ tree_pairs node d (next_level node ls)"

fun path_pairs :: "('h \<Rightarrow> 'h \<Rightarrow> 'h) \<Rightarrow> 'h \<Rightarrow> 'h list \<Rightarrow> nat \<Rightarrow> ('h \<times> 'h) list" where
  "path_pairs node h [] i = []"
| "path_pairs node h (x # xs) i =
     (if i mod 2 = 0 then (h, x) # path_pairs node (node h x) xs (i div 2)
      else (x, h) # path_pairs node (node x h) xs (i div 2))"

definition collision_free :: "('h \<Rightarrow> 'h \<Rightarrow> 'h) \<Rightarrow> ('h \<times> 'h) set \<Rightarrow> bool" where
  "collision_free node S \<longleftrightarrow> inj_on (\<lambda>(a, b). node a b) S"

lemma collision_freeD:
  "collision_free node S \<Longrightarrow> (a, b) \<in> S \<Longrightarrow> (c, d) \<in> S \<Longrightarrow> node a b = node c d \<Longrightarrow> a = c \<and> b = d"
  unfolding collision_free_def inj_on_def by fastforce

lemma adjacent_nth: "i < length ls div 2 \<Longrightarrow> (ls ! (2 * i), ls ! (2 * i + 1)) \<in> set (adjacent ls)"
proof (induction ls arbitrary: i rule: adjacent.induct)
  case (1 a b ls)
  then show ?case by (cases i) auto
qed simp_all

lemma adjacent_parent:
  assumes "length ls = 2 ^ Suc d" "i < 2 ^ Suc d"
  shows "(if i mod 2 = 0 then (ls ! i, ls ! (i + 1)) else (ls ! (i - 1), ls ! i)) \<in> set (adjacent ls)"
proof -
  have "(ls ! (2 * (i div 2)), ls ! (2 * (i div 2) + 1)) \<in> set (adjacent ls)"
    using assms by (intro adjacent_nth) auto
  moreover have "2 * (i div 2) = (if i mod 2 = 0 then i else i - 1)" by (simp add: minus_mod_eq_mult_div[symmetric])
  moreover have "i mod 2 \<noteq> 0 \<Longrightarrow> i - 1 + 1 = i" by (cases i) auto
  ultimately show ?thesis by auto
qed

lemma climb_sound:
  "length ls = 2 ^ d \<Longrightarrow> i < 2 ^ d \<Longrightarrow> length ps = d \<Longrightarrow> climb node h ps i = tree_root node d ls \<Longrightarrow>
   collision_free node (set (tree_pairs node d ls) \<union> set (path_pairs node h ps i)) \<Longrightarrow> h = ls ! i"
proof (induction d arbitrary: ls i h ps)
  case 0
  then show ?case by (cases ls) auto
next
  case (Suc d)
  then obtain x xs where ps: "ps = x # xs" by (cases ps) auto
  let ?h = "if i mod 2 = 0 then node h x else node x h"
  have sub: "set (tree_pairs node d (next_level node ls)) \<union> set (path_pairs node ?h xs (i div 2)) \<subseteq>
      set (tree_pairs node (Suc d) ls) \<union> set (path_pairs node h ps i)"
    using ps by auto
  have "?h = next_level node ls ! (i div 2)"
    using Suc.prems ps sub
    by (intro Suc.IH[of "next_level node ls" "i div 2" xs]) (auto simp: collision_free_def intro: inj_on_subset)
  then have eq: "if i mod 2 = 0 then node h x = node (ls ! i) (ls ! (i + 1)) else node x h = node (ls ! (i - 1)) (ls ! i)"
    using nth_parent[OF Suc.prems(1,2), of node] by (auto split: if_splits)
  have "(if i mod 2 = 0 then (h, x) else (x, h)) \<in> set (path_pairs node h ps i)" using ps by simp
  moreover have "(if i mod 2 = 0 then (ls ! i, ls ! (i + 1)) else (ls ! (i - 1), ls ! i)) \<in> set (tree_pairs node (Suc d) ls)"
    using adjacent_parent[OF Suc.prems(1,2)] by simp
  ultimately show ?case
    using eq collision_freeD[OF Suc.prems(5)] by (auto split: if_splits)
qed

text \<open>A proof speaks of the position only up to the size of the tree.\<close>

lemma climb_mod: "climb node h ps i = climb node h ps (i mod 2 ^ length ps)"
proof (induction ps arbitrary: h i)
  case (Cons x xs)
  have "i mod (2 * 2 ^ length xs) mod 2 = i mod 2" by (simp add: mod_mod_cancel)
  moreover have "i mod (2 * 2 ^ length xs) div 2 = i div 2 mod 2 ^ length xs"
    by (simp add: mod_mult2_eq)
  ultimately show ?case using Cons by simp
qed simp

end
