(* ===== verification/GaslessEscrowV2.thy ===== *)
theory GaslessEscrowV2
  imports GaslessEscrow Merkle
begin

section \<open>The gasless escrow contract with partial fills\<close>

text \<open>
  \<^verbatim>\<open>FusionPlusGaslessEscrowV2.sol\<close>: one signature covers an order and the Merkle root of its secret
  hashes; each resolver opens an escrow for its part of the order with one of the hashes.
\<close>

record PartialFillOrder =
  o_baseOrderId :: bytes32
  o_depositor :: evm_address
  o_beneficiary :: evm_address
  o_totalAmount :: uint256
  o_filledAmount :: uint256
  o_merkleRoot :: bytes32
  o_numFills :: uint256

definition no_order :: PartialFillOrder where
  "no_order = \<lparr>o_baseOrderId = 0, o_depositor = 0, o_beneficiary = 0, o_totalAmount = 0, o_filledAmount = 0,
     o_merkleRoot = 0, o_numFills = 0\<rparr>"

record gaslessV2_storage = gasless_storage +
  partialFillOrders :: "bytes32 \<Rightarrow> PartialFillOrder"
  usedMerkleIndices :: "bytes32 \<Rightarrow> uint256 \<Rightarrow> bool"

record PartialFillMetaTxParams =
  q_baseOrderId :: bytes32
  q_depositor :: evm_address
  q_beneficiary :: evm_address
  q_token :: evm_address
  q_totalAmount :: uint256
  q_merkleRoot :: bytes32
  q_numFills :: uint256
  q_timelock :: uint256
  q_deadline :: uint256

definition CREATE_PARTIAL_FILL_ORDER_TYPEHASH :: "'c sol_env \<Rightarrow> bytes32" where
  "CREATE_PARTIAL_FILL_ORDER_TYPEHASH env = keccak256 env (text_bytes
     ''CreatePartialFillOrder(bytes32 baseOrderId,address depositor,address beneficiary,address token,uint256 totalAmount,bytes32 merkleRoot,uint256 numFills,uint256 timelock,uint256 nonce,uint256 deadline)'')"

definition create_order_digest :: "'c sol_env \<Rightarrow> PartialFillMetaTxParams \<Rightarrow> uint256 \<Rightarrow> bytes32" where
  "create_order_digest env p currentNonce =
     (let structHash = keccak256 env (abi_encode
        [CREATE_PARTIAL_FILL_ORDER_TYPEHASH env, q_baseOrderId p, address_word (q_depositor p),
         address_word (q_beneficiary p), address_word (q_token p), q_totalAmount p, q_merkleRoot p, q_numFills p,
         q_timelock p, currentNonce, q_deadline p])
      in hashTypedDataV4 env structHash)"

type_synonym 'w v2_chain = "(gaslessV2_storage, 'w) evm"

definition createPartialFillOrderV2 ::
  "'w v2_chain sol_env \<Rightarrow> msg \<Rightarrow> PartialFillMetaTxParams \<Rightarrow> byte \<Rightarrow> bytes32 \<Rightarrow> bytes32 \<Rightarrow> ('w v2_chain, unit) sol"
where
  "createPartialFillOrderV2 env m p v r s = nonpayable m
     (tx_bind (read (\<lambda>s. partialFillOrders (storage s) (q_baseOrderId p))) (\<lambda>old.
      tx_bind (read (\<lambda>s. nonces (storage s) (q_depositor p))) (\<lambda>currentNonce. tx_seq [
        require_that (q_totalAmount p \<noteq> 0) (Custom ''InvalidAmount''),
        require_that (now m < q_timelock p) (Custom ''InvalidTimelock''),
        require_that (now m \<le> q_deadline p) (Custom ''PermitExpired''),
        require_that (o_depositor old = 0) (Custom ''EscrowAlreadyExists''),
        tx_bind (external_view (\<lambda>_. recover env (create_order_digest env p currentNonce) v r s)) (\<lambda>signer.
          require_that (signer = q_depositor p) (Custom ''InvalidSignature'')),
        bump_nonce (q_depositor p),
        store (\<lambda>st. st\<lparr>partialFillOrders := (partialFillOrders st)(q_baseOrderId p :=
          \<lparr>o_baseOrderId = q_baseOrderId p, o_depositor = q_depositor p, o_beneficiary = q_beneficiary p,
           o_totalAmount = q_totalAmount p, o_filledAmount = 0, o_merkleRoot = q_merkleRoot p,
           o_numFills = q_numFills p\<rparr>)\<rparr>),
        emit (PartialFillOrderCreated (q_baseOrderId p) (q_depositor p) (q_beneficiary p) (q_totalAmount p)
          (q_merkleRoot p) (q_numFills p))])))"

text \<open>The loop of \<^verbatim>\<open>verifyMerkleProof\<close>.\<close>

fun merkle_loop :: "'c sol_env \<Rightarrow> bytes32 \<Rightarrow> bytes32 list \<Rightarrow> uint256 \<Rightarrow> bytes32" where
  "merkle_loop env computedHash [] index = computedHash"
| "merkle_loop env computedHash (proofElement # proof) index =
     merkle_loop env
       (if index mod 2 = 0 then keccak256 env (abi_encode [computedHash, proofElement])
        else keccak256 env (abi_encode [proofElement, computedHash]))
       proof (index div 2)"

definition verifyMerkleProof :: "'c sol_env \<Rightarrow> bytes32 list \<Rightarrow> bytes32 \<Rightarrow> bytes32 \<Rightarrow> uint256 \<Rightarrow> bool" where
  "verifyMerkleProof env proof rootHash leaf index \<longleftrightarrow> merkle_loop env leaf proof index = rootHash"

definition gaslessV2_createEscrowInternal ::
  "'w v2_chain sol_env \<Rightarrow> bytes32 \<Rightarrow> evm_address \<Rightarrow> evm_address \<Rightarrow> evm_address \<Rightarrow> uint256 \<Rightarrow> bytes32 \<Rightarrow> uint256 \<Rightarrow>
   uint256 \<Rightarrow> ('w v2_chain, unit) sol" where
  "gaslessV2_createEscrowInternal env escrowId dep ben tok amt lock until deposit =
     tx_bind (read (entry escrowId)) (\<lambda>old. tx_seq [
       require_that (depositor old = 0) (Custom ''EscrowAlreadyExists''),
       pull_exact env tok dep amt,
       put_escrow escrowId (new_escrow dep ben tok amt lock until deposit),
       emit (EscrowCreated escrowId dep ben tok amt lock until)])"

definition partial_escrow_id :: "'c sol_env \<Rightarrow> bytes32 \<Rightarrow> uint256 \<Rightarrow> bytes32" where
  "partial_escrow_id env baseOrderId fillIndex = keccak256 env (abi_encode [baseOrderId, fillIndex])"

definition createPartialFillEscrowV2 ::
  "'w v2_chain sol_env \<Rightarrow> msg \<Rightarrow> bytes32 \<Rightarrow> uint256 \<Rightarrow> uint256 \<Rightarrow> bytes32 \<Rightarrow> bytes32 list \<Rightarrow> ('w v2_chain, unit) sol"
where
  "createPartialFillEscrowV2 env m baseOrderId fillIndex amt lock merkleProof =
     tx_bind (read (\<lambda>s. partialFillOrders (storage s) baseOrderId)) (\<lambda>order.
     tx_bind (read (\<lambda>s. usedMerkleIndices (storage s) baseOrderId fillIndex)) (\<lambda>used. tx_seq [
       require_that (o_depositor order \<noteq> 0) (Custom ''OrderDoesNotExist''),
       require_that (fillIndex < o_numFills order) (Custom ''InvalidMerkleIndex''),
       require_that (\<not> used) (Custom ''MerkleIndexAlreadyUsed''),
       tx_bind (checked_add (o_filledAmount order) amt) (\<lambda>filled.
         require_that (filled \<le> o_totalAmount order) (Custom ''ExceedsTotalAmount'')),
       require_that (verifyMerkleProof env merkleProof (o_merkleRoot order) lock fillIndex) (Require ''Invalid Merkle proof''),
       store (\<lambda>st. st\<lparr>usedMerkleIndices := (usedMerkleIndices st)(baseOrderId :=
         (usedMerkleIndices st baseOrderId)(fillIndex := True))\<rparr>),
       tx_bind (checked_add (o_filledAmount order) amt) (\<lambda>filled.
         store (\<lambda>st. st\<lparr>partialFillOrders := (partialFillOrders st)(baseOrderId := order\<lparr>o_filledAmount := filled\<rparr>)\<rparr>)),
       require_that (0 < val m) (Require ''Safety deposit required''),
       tx_bind (checked_add (now m) 3600) (\<lambda>until.
         gaslessV2_createEscrowInternal env (partial_escrow_id env baseOrderId fillIndex) (o_depositor order) (sender m)
           WETH amt lock until (val m))]))"

definition verifySignatureAndUpdateNonce ::
  "'w v2_chain sol_env \<Rightarrow> MetaTxParams \<Rightarrow> byte \<Rightarrow> bytes32 \<Rightarrow> bytes32 \<Rightarrow> ('w v2_chain, unit) sol" where
  "verifySignatureAndUpdateNonce env p v r s =
     tx_bind (read (\<lambda>s. nonces (storage s) (p_depositor p))) (\<lambda>currentNonce. tx_seq [
       tx_bind (external_view (\<lambda>_. recover env (create_escrow_digest env p currentNonce) v r s)) (\<lambda>signer.
         require_that (signer = p_depositor p) (Custom ''InvalidSignature'')),
       bump_nonce (p_depositor p)])"

definition gaslessV2_createEscrowWithMetaTx ::
  "'w v2_chain sol_env \<Rightarrow> msg \<Rightarrow> MetaTxParams \<Rightarrow> byte \<Rightarrow> bytes32 \<Rightarrow> bytes32 \<Rightarrow> ('w v2_chain, unit) sol" where
  "gaslessV2_createEscrowWithMetaTx env m p v r s =
     tx_bind (read (entry (p_escrowId p))) (\<lambda>old.
     tx_bind (read (\<lambda>s. nonces (storage s) (p_depositor p))) (\<lambda>currentNonce. tx_seq [
       require_that (p_amount p \<noteq> 0) (Custom ''InvalidAmount''),
       require_that (now m < p_timelock p) (Custom ''InvalidTimelock''),
       require_that (now m \<le> p_deadline p) (Custom ''PermitExpired''),
       require_that (depositor old = 0) (Custom ''EscrowAlreadyExists''),
       tx_bind (external_view (\<lambda>_. recover env (create_escrow_digest env p currentNonce) v r s)) (\<lambda>signer.
         require_that (signer = p_depositor p) (Custom ''InvalidSignature'')),
       bump_nonce (p_depositor p),
       gaslessV2_createEscrowInternal env (p_escrowId p) (p_depositor p) (p_beneficiary p) (p_token p)
         (p_amount p) (p_hashlock p) (p_timelock p) (val m)]))"

definition createGaslessPartialFillEscrow ::
  "'w v2_chain sol_env \<Rightarrow> msg \<Rightarrow> MetaTxParams \<Rightarrow> bytes32 \<Rightarrow> uint256 \<Rightarrow> byte \<Rightarrow> bytes32 \<Rightarrow> bytes32 \<Rightarrow>
   ('w v2_chain, unit) sol" where
  "createGaslessPartialFillEscrow env m p baseOrderId fillIndex v r s =
     (let actualEscrowId = partial_escrow_id env baseOrderId fillIndex
      in tx_bind (read (entry actualEscrowId)) (\<lambda>old. tx_seq [
        require_that (p_amount p \<noteq> 0) (Custom ''InvalidAmount''),
        require_that (now m < p_timelock p) (Custom ''InvalidTimelock''),
        require_that (now m \<le> p_deadline p) (Custom ''PermitExpired''),
        require_that (depositor old = 0) (Custom ''EscrowAlreadyExists''),
        verifySignatureAndUpdateNonce env p v r s,
        gaslessV2_createEscrowInternal env actualEscrowId (p_depositor p) (p_beneficiary p) (p_token p)
          (p_amount p) (p_hashlock p) (p_timelock p) (val m),
        emit (EscrowCreated actualEscrowId (p_depositor p) (p_beneficiary p) (p_token p) (p_amount p)
          (p_hashlock p) (p_timelock p))]))"

definition gaslessV2_withdraw :: "'w v2_chain sol_env \<Rightarrow> msg \<Rightarrow> bytes32 \<Rightarrow> bytes32 \<Rightarrow> ('w v2_chain, unit) sol" where
  "gaslessV2_withdraw env m escrowId secret = nonpayable m
     (tx_bind (read (entry escrowId)) (\<lambda>e. tx_seq [
       require_that (depositor e \<noteq> 0) (Require ''Escrow does not exist''),
       require_that (\<not> withdrawn e) (Require ''Already withdrawn''),
       require_that (\<not> refunded e) (Require ''Already refunded''),
       require_that (keccak256 env (word_bytes secret) = hashlock e) (Require ''Invalid secret''),
       mod_escrow escrowId (\<lambda>e. e\<lparr>withdrawn := True\<rparr>),
       external_unit (safeTransfer env (token e) (beneficiary e) (amount e)),
       tx_bind (read (entry escrowId)) (\<lambda>e.
         if 0 < safetyDeposit e then pay env (sender m) (safetyDeposit e) else tx_ret ()),
       emit (EscrowWithdrawn escrowId secret)]))"

definition gaslessV2_refund :: "'w v2_chain sol_env \<Rightarrow> msg \<Rightarrow> bytes32 \<Rightarrow> ('w v2_chain, unit) sol" where
  "gaslessV2_refund env m escrowId = nonpayable m
     (tx_bind (read (entry escrowId)) (\<lambda>e. tx_seq [
       require_that (depositor e \<noteq> 0) (Require ''Escrow does not exist''),
       require_that (\<not> withdrawn e) (Require ''Already withdrawn''),
       require_that (\<not> refunded e) (Require ''Already refunded''),
       require_that (timelock e \<le> now m) (Require ''Timelock not expired''),
       mod_escrow escrowId (\<lambda>e. e\<lparr>refunded := True\<rparr>),
       external_unit (safeTransfer env (token e) (depositor e) (amount e)),
       tx_bind (read (entry escrowId)) (\<lambda>e.
         if 0 < safetyDeposit e then pay env (sender m) (safetyDeposit e) else tx_ret ()),
       emit (EscrowRefunded escrowId)]))"

definition gaslessV2_getEscrow ::
  "bytes32 \<Rightarrow> ('w v2_chain, evm_address \<times> evm_address \<times> evm_address \<times> uint256 \<times> bytes32 \<times> uint256 \<times> bool \<times> bool \<times> uint256) sol"
where
  "gaslessV2_getEscrow escrowId = tx_bind (read (entry escrowId)) (\<lambda>e.
     tx_ret (depositor e, beneficiary e, token e, amount e, hashlock e, timelock e, withdrawn e,
       refunded e, safetyDeposit e))"

definition getPartialFillOrder :: "bytes32 \<Rightarrow> ('w v2_chain, uint256 \<times> uint256 \<times> bytes32 \<times> uint256) sol" where
  "getPartialFillOrder baseOrderId = tx_bind (read (\<lambda>s. partialFillOrders (storage s) baseOrderId)) (\<lambda>order.
     tx_ret (o_totalAmount order, o_filledAmount order, o_merkleRoot order, o_numFills order))"

datatype gaslessV2_call =
    CreateOrder PartialFillMetaTxParams byte bytes32 bytes32
  | CreateFill bytes32 uint256 uint256 bytes32 "bytes32 list"
  | CreateMetaTx MetaTxParams byte bytes32 bytes32
  | CreateSignedFill MetaTxParams bytes32 uint256 byte bytes32 bytes32
  | WithdrawV2 bytes32 bytes32
  | RefundV2 bytes32

fun gaslessV2_run :: "'w v2_chain sol_env \<Rightarrow> msg \<Rightarrow> gaslessV2_call \<Rightarrow> ('w v2_chain, unit) sol" where
  "gaslessV2_run env m (CreateOrder p v r s) = createPartialFillOrderV2 env m p v r s"
| "gaslessV2_run env m (CreateFill b i a h proof) = createPartialFillEscrowV2 env m b i a h proof"
| "gaslessV2_run env m (CreateMetaTx p v r s) = gaslessV2_createEscrowWithMetaTx env m p v r s"
| "gaslessV2_run env m (CreateSignedFill p b i v r s) = createGaslessPartialFillEscrow env m p b i v r s"
| "gaslessV2_run env m (WithdrawV2 i x) = gaslessV2_withdraw env m i x"
| "gaslessV2_run env m (RefundV2 i) = gaslessV2_refund env m i"

abbreviation "gaslessV2_step env \<equiv> chain_step env (gaslessV2_run env)"

subsection \<open>Merkle proofs\<close>

abbreviation keccak_node :: "'c sol_env \<Rightarrow> bytes32 \<Rightarrow> bytes32 \<Rightarrow> bytes32" where
  "keccak_node env a b \<equiv> keccak256 env (abi_encode [a, b])"

lemma merkle_loop_climb: "merkle_loop env h ps i = climb (keccak_node env) h ps (unat i)"
proof (induction env h ps i rule: merkle_loop.induct)
  case (2 env h x xs i)
  have "i mod 2 = 0 \<longleftrightarrow> unat i mod 2 = 0"
    using word_unat_eq_iff[of "i mod 2" 0] by (simp add: unat_mod)
  with 2 show ?case by (simp add: unat_div)
qed simp

subsection \<open>The effect of a call\<close>

abbreviation deposit_due :: "Escrow \<Rightarrow> nat" where
  "deposit_due e \<equiv> unat (safetyDeposit e)"

lemma gaslessV2_create_effect:
  assumes "gaslessV2_createEscrowInternal env i d b tok a h u dep s = Inr (x, t)" "safe_tokens env"
  shows "depositor (entry i s) = 0 \<and>
    storage t = (storage s)\<lparr>escrows := (escrows (storage s))(i := new_escrow d b tok a h u dep)\<rparr> \<and>
    balance t (this env) = balance s (this env) \<and>
    (\<forall>k. k \<noteq> 0 \<longrightarrow> tok_funds env k s + token_due k (new_escrow d b tok a h u dep) \<le> tok_funds env k t)"
proof -
  let ?e = "new_escrow d b tok a h u dep"
  obtain y s1 where p: "pull_exact env tok d a s = Inr (y, s1)" and d: "depositor (entry i s) = 0"
    and t: "t = s1\<lparr>storage := (storage s1)\<lparr>escrows := (escrows (storage s1))(i := ?e)\<rparr>,
      logs := EscrowCreated i d b tok a h u # logs s1\<rparr>"
    using assms(1) by (auto simp: gaslessV2_createEscrowInternal_def tx_runs tx_bind_Inr split: if_splits)
  have f: "tok_funds env k t = tok_funds env k s1" for k using t by (intro safe_tokens_world[OF assms(2)]) simp
  have "tok_funds env k s + token_due k ?e \<le> tok_funds env k t" for k
    using pull_exact_Inr[OF p assms(2), of k] f by (auto simp: token_due_def new_escrow_def split: if_splits)
  with pull_exact_Inr[OF p assms(2)] t d show ?thesis by simp
qed

lemma gaslessV2_payout:
  assumes run: "tx_seq [mod_escrow i f, external_unit (safeTransfer env (token e) to (amount e)),
      tx_bind (read (entry i)) (\<lambda>e. if 0 < safetyDeposit e then pay env (sender m) (safetyDeposit e) else tx_ret ()),
      emit ev] s = Inr (y, t)"
    and safe: "safe_tokens env" and "sender m \<noteq> this env" "e = entry i s" "safetyDeposit (f e) = safetyDeposit e"
  shows "storage t = (storage s)\<lparr>escrows := (escrows (storage s))(i := f e)\<rparr> \<and>
    balance t (this env) + deposit_due e = balance s (this env) \<and>
    (\<forall>k. k \<noteq> 0 \<longrightarrow> tok_funds env k s \<le> tok_funds env k t + token_due k e)"
proof -
  let ?s1 = "s\<lparr>storage := (storage s)\<lparr>escrows := (escrows (storage s))(i := f e)\<rparr>\<rparr>"
  obtain s2 where s2: "safeTransfer env (token e) to (amount e) ?s1 = Some s2"
    using run assms(4) by (auto simp: tx_runs split: if_splits option.splits)
  note send = safe_tokens_send[OF safe s2]
  have t: "t = (if 0 < safetyDeposit e then move_eth (this env) (sender m) (unat (safetyDeposit e)) s2 else s2)\<lparr>logs := ev # logs s2\<rparr>"
    and le: "unat (safetyDeposit e) \<le> balance s2 (this env)"
    using run s2 send assms(4,5) by (auto simp: tx_runs word_gt_0 split: if_splits)
  have "tok_funds env k t = tok_funds env k s2" for k using t by (intro safe_tokens_world[OF safe]) simp
  moreover have "tok_funds env k ?s1 = tok_funds env k s" for k by (rule safe_tokens_world[OF safe]) simp
  ultimately have "tok_funds env k s \<le> tok_funds env k t + token_due k e" for k
    using send[of k] by (auto simp: token_due_def split: if_splits)
  then show ?thesis using send t le assms(3) by (auto simp: move_eth_balance word_gt_0)
qed

lemma gaslessV2_withdraw_effect:
  assumes "gaslessV2_withdraw env m i x s = Inr (y, t)" "safe_tokens env" "sender m \<noteq> this env"
  shows "escrow_phase (entry i s) = Open \<and> keccak256 env (word_bytes x) = hashlock (entry i s) \<and> val m = 0 \<and>
    storage t = (storage s)\<lparr>escrows := (escrows (storage s))(i := (entry i s)\<lparr>withdrawn := True\<rparr>)\<rparr> \<and>
    balance t (this env) + deposit_due (entry i s) = balance s (this env) \<and>
    (\<forall>k. k \<noteq> 0 \<longrightarrow> tok_funds env k s \<le> tok_funds env k t + token_due k (entry i s))"
proof -
  note body = assms(1)[unfolded gaslessV2_withdraw_def nonpayable_run read_run tx_seq_require]
  from body have c: "val m = 0" "depositor (entry i s) \<noteq> 0" "\<not> withdrawn (entry i s)" "\<not> refunded (entry i s)"
    "keccak256 env (word_bytes x) = hashlock (entry i s)" by (simp_all split: if_splits)
  have run: "tx_seq [mod_escrow i (\<lambda>e. e\<lparr>withdrawn := True\<rparr>),
      external_unit (safeTransfer env (token (entry i s)) (beneficiary (entry i s)) (amount (entry i s))),
      tx_bind (read (entry i)) (\<lambda>e. if 0 < safetyDeposit e then pay env (sender m) (safetyDeposit e) else tx_ret ()),
      emit (EscrowWithdrawn i x)] s = Inr (y, t)"
    using assms(1) c unfolding gaslessV2_withdraw_def nonpayable_run read_run tx_seq_require
    by (simp only: if_True simp_thms not_False_eq_True)
  from gaslessV2_payout[OF run assms(2,3) refl] c show ?thesis by (simp add: escrow_phase_def)
qed

lemma gaslessV2_refund_effect:
  assumes "gaslessV2_refund env m i s = Inr (y, t)" "safe_tokens env" "sender m \<noteq> this env"
  shows "escrow_phase (entry i s) = Open \<and> timelock (entry i s) \<le> now m \<and> val m = 0 \<and>
    storage t = (storage s)\<lparr>escrows := (escrows (storage s))(i := (entry i s)\<lparr>refunded := True\<rparr>)\<rparr> \<and>
    balance t (this env) + deposit_due (entry i s) = balance s (this env) \<and>
    (\<forall>k. k \<noteq> 0 \<longrightarrow> tok_funds env k s \<le> tok_funds env k t + token_due k (entry i s))"
proof -
  note body = assms(1)[unfolded gaslessV2_refund_def nonpayable_run read_run tx_seq_require]
  from body have c: "val m = 0" "depositor (entry i s) \<noteq> 0" "\<not> withdrawn (entry i s)" "\<not> refunded (entry i s)"
    "timelock (entry i s) \<le> now m" by (simp_all split: if_splits)
  have run: "tx_seq [mod_escrow i (\<lambda>e. e\<lparr>refunded := True\<rparr>),
      external_unit (safeTransfer env (token (entry i s)) (depositor (entry i s)) (amount (entry i s))),
      tx_bind (read (entry i)) (\<lambda>e. if 0 < safetyDeposit e then pay env (sender m) (safetyDeposit e) else tx_ret ()),
      emit (EscrowRefunded i)] s = Inr (y, t)"
    using assms(1) c unfolding gaslessV2_refund_def nonpayable_run read_run tx_seq_require
    by (simp only: if_True simp_thms not_False_eq_True)
  from gaslessV2_payout[OF run assms(2,3) refl] c show ?thesis by (simp add: escrow_phase_def)
qed

text \<open>What the creating calls do before they enter the escrow.\<close>

definition bumped :: "evm_address \<Rightarrow> 'w v2_chain \<Rightarrow> 'w v2_chain" where
  "bumped who s = s\<lparr>storage := (storage s)\<lparr>nonces := (nonces (storage s))(who := nonces (storage s) who + 1)\<rparr>\<rparr>"

lemma createMetaTxV2_Inr:
  assumes "gaslessV2_createEscrowWithMetaTx env m p v r q s = Inr (x, t)"
  shows "recover env (create_escrow_digest env p (nonces (storage s) (p_depositor p))) v r q = Some (p_depositor p) \<and>
    gaslessV2_createEscrowInternal env (p_escrowId p) (p_depositor p) (p_beneficiary p) (p_token p)
         (p_amount p) (p_hashlock p) (p_timelock p) (val m) (bumped (p_depositor p) s) = Inr (x, t)"
  using assms unfolding gaslessV2_createEscrowWithMetaTx_def read_run tx_seq_require
  by (auto simp: tx_seq_Cons[of n "k # ks" for n k ks] tx_seq_last bump_nonce_def external_runs require_run read_run
      checked_add_run update_run store_def tx_bind_assoc bumped_def split: if_splits option.splits)

lemma createSignedFill_Inr:
  assumes "createGaslessPartialFillEscrow env m p b i v r q s = Inr (x, t)"
  shows "recover env (create_escrow_digest env p (nonces (storage s) (p_depositor p))) v r q = Some (p_depositor p) \<and>
    (\<exists>t0 ev. gaslessV2_createEscrowInternal env (partial_escrow_id env b i) (p_depositor p) (p_beneficiary p) (p_token p)
         (p_amount p) (p_hashlock p) (p_timelock p) (val m) (bumped (p_depositor p) s) = Inr ((), t0) \<and>
       t = t0\<lparr>logs := ev # logs t0\<rparr>)"
proof -
  let ?create = "gaslessV2_createEscrowInternal env (partial_escrow_id env b i) (p_depositor p) (p_beneficiary p)
    (p_token p) (p_amount p) (p_hashlock p) (p_timelock p) (val m)"
  have "recover env (create_escrow_digest env p (nonces (storage s) (p_depositor p))) v r q = Some (p_depositor p) \<and>
    tx_bind ?create (\<lambda>_. tx_bind (update (\<lambda>s. s\<lparr>logs := EscrowCreated (partial_escrow_id env b i) (p_depositor p)
      (p_beneficiary p) (p_token p) (p_amount p) (p_hashlock p) (p_timelock p) # logs s\<rparr>)) tx_ret) (bumped (p_depositor p) s) = Inr (x, t)"
    using assms unfolding createGaslessPartialFillEscrow_def Let_def read_run tx_seq_require
    by (auto simp: tx_seq_Cons[of n "k # ks" for n k ks] tx_seq_last verifySignatureAndUpdateNonce_def bump_nonce_def
        external_runs require_run read_run checked_add_run update_run store_def emit_def tx_bind_assoc bumped_def
        tx_seq.simps tx_then_def tx_bind_ret
        split: if_splits option.splits)
  then show ?thesis by (auto simp: tx_bind_Inr update_def tx_ret_def)
qed

lemma createFill_Inr:
  assumes "createPartialFillEscrowV2 env m b i a h ps s = Inr (x, t)"
  shows "o_depositor (partialFillOrders (storage s) b) \<noteq> 0 \<and> i < o_numFills (partialFillOrders (storage s) b) \<and>
    \<not> usedMerkleIndices (storage s) b i \<and>
    unat (o_filledAmount (partialFillOrders (storage s) b)) + unat a < 2 ^ 256 \<and>
    o_filledAmount (partialFillOrders (storage s) b) + a \<le> o_totalAmount (partialFillOrders (storage s) b) \<and>
    verifyMerkleProof env ps (o_merkleRoot (partialFillOrders (storage s) b)) h i \<and>
    gaslessV2_createEscrowInternal env (partial_escrow_id env b i) (o_depositor (partialFillOrders (storage s) b)) (sender m)
      WETH a h (now m + 3600) (val m)
      (s\<lparr>storage := (storage s)\<lparr>usedMerkleIndices := (usedMerkleIndices (storage s))(b := (usedMerkleIndices (storage s) b)(i := True)),
         partialFillOrders := (partialFillOrders (storage s))(b := (partialFillOrders (storage s) b)
           \<lparr>o_filledAmount := o_filledAmount (partialFillOrders (storage s) b) + a\<rparr>)\<rparr>\<rparr>) = Inr (x, t)"
  using assms unfolding createPartialFillEscrowV2_def read_run tx_seq_require
  by (auto simp: tx_seq_Cons[of n "k # ks" for n k ks] tx_seq_last tx_seq_require require_run
      checked_add_run update_run store_def tx_bind_assoc split: if_splits)

lemma createOrder_Inr:
  assumes "createPartialFillOrderV2 env m p v r q s = Inr (x, t)"
  shows "val m = 0 \<and> o_depositor (partialFillOrders (storage s) (q_baseOrderId p)) = 0 \<and>
    recover env (create_order_digest env p (nonces (storage s) (q_depositor p))) v r q = Some (q_depositor p) \<and>
    balance t = balance s \<and> world t = world s \<and>
    storage t = (storage s)\<lparr>nonces := (nonces (storage s))(q_depositor p := nonces (storage s) (q_depositor p) + 1),
      partialFillOrders := (partialFillOrders (storage s))(q_baseOrderId p :=
          \<lparr>o_baseOrderId = q_baseOrderId p, o_depositor = q_depositor p, o_beneficiary = q_beneficiary p,
           o_totalAmount = q_totalAmount p, o_filledAmount = 0, o_merkleRoot = q_merkleRoot p,
           o_numFills = q_numFills p\<rparr>)\<rparr>"
  using assms unfolding createPartialFillOrderV2_def nonpayable_run read_run tx_seq_require
  by (auto simp: tx_runs split: if_splits option.splits)

subsection \<open>The books of the partially filled orders\<close>

text \<open>
  Every used index of an order belongs to an escrow of its own, over the wrapped ether of the
  order's depositor, and the amounts of these escrows add up to the filled amount of the order,
  which does not exceed its total.
\<close>

definition fill_entry :: "'w v2_chain sol_env \<Rightarrow> bytes32 \<Rightarrow> uint256 \<Rightarrow> 'w v2_chain \<Rightarrow> Escrow" where
  "fill_entry env b i s = entry (partial_escrow_id env b i) s"

definition orders_ok :: "'w v2_chain sol_env \<Rightarrow> 'w v2_chain \<Rightarrow> bool" where
  "orders_ok env s \<longleftrightarrow>
     (\<forall>b i. usedMerkleIndices (storage s) b i \<longrightarrow>
        o_depositor (partialFillOrders (storage s) b) \<noteq> 0 \<and> i < o_numFills (partialFillOrders (storage s) b) \<and>
        depositor (fill_entry env b i s) = o_depositor (partialFillOrders (storage s) b) \<and>
        token (fill_entry env b i s) = WETH) \<and>
     (\<forall>b i c j. usedMerkleIndices (storage s) b i \<and> usedMerkleIndices (storage s) c j \<and>
        partial_escrow_id env b i = partial_escrow_id env c j \<longrightarrow> b = c \<and> i = j) \<and>
     (\<forall>b. o_filledAmount (partialFillOrders (storage s) b) \<le> o_totalAmount (partialFillOrders (storage s) b) \<and>
        unat (o_filledAmount (partialFillOrders (storage s) b)) =
          (\<Sum>i | usedMerkleIndices (storage s) b i. unat (amount (fill_entry env b i s))))"

lemma orders_ok_used:
  assumes "orders_ok env s" "usedMerkleIndices (storage s) b i"
  shows "o_depositor (partialFillOrders (storage s) b) \<noteq> 0" "i < o_numFills (partialFillOrders (storage s) b)"
    "depositor (fill_entry env b i s) = o_depositor (partialFillOrders (storage s) b)" "token (fill_entry env b i s) = WETH"
  using assms(1)[unfolded orders_ok_def, THEN conjunct1] assms(2) by blast+

lemma orders_ok_inj:
  assumes "orders_ok env s" "usedMerkleIndices (storage s) b i" "usedMerkleIndices (storage s) c j"
    "partial_escrow_id env b i = partial_escrow_id env c j"
  shows "b = c \<and> i = j"
  using assms(1)[unfolded orders_ok_def, THEN conjunct2, THEN conjunct1] assms(2-) by blast

lemma orders_ok_filled:
  assumes "orders_ok env s"
  shows "o_filledAmount (partialFillOrders (storage s) b) \<le> o_totalAmount (partialFillOrders (storage s) b)"
    "unat (o_filledAmount (partialFillOrders (storage s) b)) =
      (\<Sum>i | usedMerkleIndices (storage s) b i. unat (amount (fill_entry env b i s)))"
  using assms[unfolded orders_ok_def, THEN conjunct2, THEN conjunct2] by blast+

text \<open>A used index has an escrow, and its terms outlast every effect on the mapping.\<close>

lemma orders_ok_entry:
  assumes "orders_ok env s" "covered_effect env f before s t" "usedMerkleIndices (storage s) b i"
  shows "escrow_terms (fill_entry env b i t) = escrow_terms (fill_entry env b i s)"
proof -
  have "escrow_phase (fill_entry env b i s) \<noteq> Absent"
    using orders_ok_used(1,3)[OF assms(1,3)] by (simp add: escrow_phase_def)
  then show ?thesis using covered_effect_terms[OF assms(2)] by (simp add: fill_entry_def)
qed

lemma orders_ok_keep:
  assumes ok: "orders_ok env s" and eff: "covered_effect env f before s t"
    and same: "partialFillOrders (storage t) = partialFillOrders (storage s)"
      "usedMerkleIndices (storage t) = usedMerkleIndices (storage s)"
  shows "orders_ok env t"
proof -
  have terms: "depositor (fill_entry env b i t) = depositor (fill_entry env b i s)"
      "token (fill_entry env b i t) = token (fill_entry env b i s)"
      "amount (fill_entry env b i t) = amount (fill_entry env b i s)" if "usedMerkleIndices (storage s) b i" for b i
    using orders_ok_entry[OF ok eff that] by (simp_all add: escrow_terms_def)
  then have "(\<Sum>i | usedMerkleIndices (storage s) b i. unat (amount (fill_entry env b i t))) =
      (\<Sum>i | usedMerkleIndices (storage s) b i. unat (amount (fill_entry env b i s)))" for b
    by (intro sum.cong) auto
  then have filled: "unat (o_filledAmount (partialFillOrders (storage t) b)) =
      (\<Sum>i | usedMerkleIndices (storage t) b i. unat (amount (fill_entry env b i t)))" for b
    using orders_ok_filled(2)[OF ok, of b] same by simp
  show ?thesis unfolding orders_ok_def
    by (intro conjI allI impI filled)
      (use orders_ok_used[OF ok] orders_ok_inj[OF ok] orders_ok_filled(1)[OF ok] terms same in auto)
qed

lemma orders_ok_order:
  assumes ok: "orders_ok env s" and "o_depositor (partialFillOrders (storage s) b) = 0" "o_filledAmount new = 0"
    and st: "partialFillOrders (storage t) = (partialFillOrders (storage s))(b := new)"
      "usedMerkleIndices (storage t) = usedMerkleIndices (storage s)" "escrows (storage t) = escrows (storage s)"
  shows "orders_ok env t"
proof -
  have none: "\<not> usedMerkleIndices (storage s) b i" for i using orders_ok_used(1)[OF ok, of b i] assms(2) by auto
  have e: "fill_entry env c i t = fill_entry env c i s" for c i using st(3) by (simp add: fill_entry_def)
  have filled: "unat (o_filledAmount (partialFillOrders (storage t) c)) =
      (\<Sum>i | usedMerkleIndices (storage t) c i. unat (amount (fill_entry env c i t)))" for c
    using orders_ok_filled(2)[OF ok, of c] st none assms(3) e by (cases "c = b") simp_all
  show ?thesis unfolding orders_ok_def
    by (intro conjI allI impI filled)
      (use orders_ok_used[OF ok] orders_ok_inj[OF ok] orders_ok_filled(1)[OF ok] none e st assms(3) in \<open>auto split: if_splits\<close>)
qed

lemma orders_ok_fill:
  assumes ok: "orders_ok env s" and eff: "covered_effect env f before s t" and b: "od = partialFillOrders (storage s) b"
    and "o_depositor od \<noteq> 0" "i < o_numFills od" "\<not> usedMerkleIndices (storage s) b i"
      "unat (o_filledAmount od) + unat a < 2 ^ 256" "o_filledAmount od + a \<le> o_totalAmount od"
      "depositor (fill_entry env b i s) = 0"
    and st: "partialFillOrders (storage t) = (partialFillOrders (storage s))(b := od\<lparr>o_filledAmount := o_filledAmount od + a\<rparr>)"
      "usedMerkleIndices (storage t) = (usedMerkleIndices (storage s))(b := (usedMerkleIndices (storage s) b)(i := True))"
      "fill_entry env b i t = new_escrow (o_depositor od) r WETH a h u v"
  shows "orders_ok env t"
proof -
  let ?U = "usedMerkleIndices (storage s)"
  have terms: "depositor (fill_entry env c j t) = depositor (fill_entry env c j s)"
      "token (fill_entry env c j t) = token (fill_entry env c j s)"
      "amount (fill_entry env c j t) = amount (fill_entry env c j s)" if "?U c j" for c j
    using orders_ok_entry[OF ok eff that] by (simp_all add: escrow_terms_def)
  have new_id: "partial_escrow_id env c j \<noteq> partial_escrow_id env b i" if "?U c j" for c j
    using orders_ok_used(1,3)[OF ok that] assms(9) by (auto simp: fill_entry_def)
  have "(\<Sum>j | ?U c j. unat (amount (fill_entry env c j t))) = (\<Sum>j | ?U c j. unat (amount (fill_entry env c j s)))" for c
    using terms by (intro sum.cong) auto
  moreover have "{j. usedMerkleIndices (storage t) b j} = insert i {j. ?U b j}" using st(2) by auto
  ultimately have sum_b: "(\<Sum>j | usedMerkleIndices (storage t) b j. unat (amount (fill_entry env b j t))) =
      unat (amount (fill_entry env b i t)) + (\<Sum>j | ?U b j. unat (amount (fill_entry env b j s)))"
    using assms(6) by simp
  have total: "unat (o_filledAmount od + a) = unat (o_filledAmount od) + unat a"
    using assms(7) by (simp add: unat_add_lem[symmetric])
  show ?thesis unfolding orders_ok_def
  proof (intro conjI allI impI)
    fix c j assume "usedMerkleIndices (storage t) c j"
    then have "?U c j \<or> c = b \<and> j = i" using st(2) by (auto split: if_splits)
    then show "o_depositor (partialFillOrders (storage t) c) \<noteq> 0" "j < o_numFills (partialFillOrders (storage t) c)"
      "depositor (fill_entry env c j t) = o_depositor (partialFillOrders (storage t) c)" "token (fill_entry env c j t) = WETH"
      using orders_ok_used[OF ok, of c j] terms[of c j] st b assms(4,5) by (auto simp: new_escrow_def)
  next
    fix c j d k
    assume u: "usedMerkleIndices (storage t) c j \<and> usedMerkleIndices (storage t) d k \<and>
      partial_escrow_id env c j = partial_escrow_id env d k"
    then have "?U c j \<or> c = b \<and> j = i" "?U d k \<or> d = b \<and> k = i" using st(2) by (auto split: if_splits)
    with u new_id[of c j] new_id[of d k] orders_ok_inj[OF ok, of c j d k] show "c = d" "j = k" by auto
  next
    fix c
    show "o_filledAmount (partialFillOrders (storage t) c) \<le> o_totalAmount (partialFillOrders (storage t) c)"
      using orders_ok_filled(1)[OF ok, of c] st(1) assms(8) by simp
    show "unat (o_filledAmount (partialFillOrders (storage t) c)) =
        (\<Sum>j | usedMerkleIndices (storage t) c j. unat (amount (fill_entry env c j t)))"
    proof (cases "c = b")
      case True
      then show ?thesis using sum_b total st orders_ok_filled(2)[OF ok, of b] b by (simp add: new_escrow_def)
    next
      case False
      then have "(\<Sum>j | usedMerkleIndices (storage t) c j. unat (amount (fill_entry env c j t))) =
          (\<Sum>j | ?U c j. unat (amount (fill_entry env c j s)))"
        using st(2) terms by (intro sum.cong) auto
      then show ?thesis using False st(1) orders_ok_filled(2)[OF ok, of c] by simp
    qed
  qed
qed

lemma bumped_simps [simp]:
  "escrows (storage (bumped d s)) = escrows (storage s)" "balance (bumped d s) = balance s" "world (bumped d s) = world s"
  "partialFillOrders (storage (bumped d s)) = partialFillOrders (storage s)"
  "usedMerkleIndices (storage (bumped d s)) = usedMerkleIndices (storage s)"
  by (simp_all add: bumped_def)

text \<open>Entering an escrow from a state that differs from the first one in other variables only.\<close>

lemma gaslessV2_enter:
  assumes run: "gaslessV2_createEscrowInternal env i d b tok a h u (val m) s1 = Inr (x, t)" and "safe_tokens env"
    and s1: "escrows (storage s1) = escrows (storage s)" "balance s1 (this env) = balance s (this env)" "world s1 = world s"
    and "before + unat (val m) = balance s (this env)"
  shows "covered_effect env deposit_due before s t" "depositor (entry i s) = 0"
    "entry i t = new_escrow d b tok a h u (val m)"
    "partialFillOrders (storage t) = partialFillOrders (storage s1)" "usedMerkleIndices (storage t) = usedMerkleIndices (storage s1)"
proof -
  let ?e = "new_escrow d b tok a h u (val m)"
  have f: "tok_funds env k s1 = tok_funds env k s" for k by (rule safe_tokens_world[OF assms(2) s1(3)])
  note e = gaslessV2_create_effect[OF run assms(2), unfolded f]
  show "covered_effect env deposit_due before s t"
    by (rule enter_effect[of s i ?e]) (use e s1 assms(6) in \<open>auto simp: escrow_phase_def new_escrow_def\<close>)
  show "depositor (entry i s) = 0" "entry i t = ?e" "partialFillOrders (storage t) = partialFillOrders (storage s1)"
    "usedMerkleIndices (storage t) = usedMerkleIndices (storage s1)" using e s1 by simp_all
qed

lemma covered_effect_logs: "covered_effect env f b s t \<Longrightarrow> safe_tokens env \<Longrightarrow> covered_effect env f b s (t\<lparr>logs := l\<rparr>)"
  using safe_tokens_world[of env t "t\<lparr>logs := l\<rparr>"] by (simp add: covered_effect_def)

lemma gaslessV2_run_effect:
  assumes "gaslessV2_run env m c s = Inr (x, t)" "safe_tokens env" "sender m \<noteq> this env"
    "before + unat (val m) = balance s (this env)"
  shows "covered_effect env deposit_due before s t \<and> (orders_ok env s \<longrightarrow> orders_ok env t)"
proof (cases c)
  case (CreateOrder p v r q)
  with assms(1) have inv: "createPartialFillOrderV2 env m p v r q s = Inr (x, t)" by simp
  note o = createOrder_Inr[OF inv]
  have "tok_funds env k t = tok_funds env k s" for k using o by (intro safe_tokens_world[OF assms(2)]) simp
  with o assms(4) have "covered_effect env deposit_due before s t" by (simp add: covered_effect_def escrow_effect_def)
  moreover have "orders_ok env s \<Longrightarrow> orders_ok env t"
    by (rule orders_ok_order[where b = "q_baseOrderId p"]) (use o in auto)
  ultimately show ?thesis by blast
next
  case (CreateFill b i a h ps)
  let ?o = "partialFillOrders (storage s) b"
  let ?s1 = "s\<lparr>storage := (storage s)\<lparr>usedMerkleIndices := (usedMerkleIndices (storage s))(b := (usedMerkleIndices (storage s) b)(i := True)),
     partialFillOrders := (partialFillOrders (storage s))(b := ?o\<lparr>o_filledAmount := o_filledAmount ?o + a\<rparr>)\<rparr>\<rparr>"
  from assms(1) CreateFill have call: "createPartialFillEscrowV2 env m b i a h ps s = Inr (x, t)" by simp
  note inv = createFill_Inr[OF call]
  from inv have run: "gaslessV2_createEscrowInternal env (partial_escrow_id env b i) (o_depositor ?o) (sender m)
      WETH a h (now m + 3600) (val m) ?s1 = Inr (x, t)" by simp
  note en = gaslessV2_enter[OF run assms(2) _ _ _ assms(4)]
  have eff: "covered_effect env deposit_due before s t" by (rule en(1)) simp_all
  have st: "depositor (fill_entry env b i s) = 0"
      "fill_entry env b i t = new_escrow (o_depositor ?o) (sender m) WETH a h (now m + 3600) (val m)"
      "partialFillOrders (storage t) = (partialFillOrders (storage s))(b := ?o\<lparr>o_filledAmount := o_filledAmount ?o + a\<rparr>)"
      "usedMerkleIndices (storage t) = (usedMerkleIndices (storage s))(b := (usedMerkleIndices (storage s) b)(i := True))"
    using en(2-5) by (simp_all add: fill_entry_def)
  have "orders_ok env t" if ok: "orders_ok env s"
    by (rule orders_ok_fill[OF ok eff refl _ _ _ _ _ st(1) st(3,4,2)]) (use inv in simp_all)
  with eff show ?thesis by blast
next
  case (CreateMetaTx p v r q)
  with assms(1) have call: "gaslessV2_createEscrowWithMetaTx env m p v r q s = Inr (x, t)" by simp
  note en = gaslessV2_enter[OF createMetaTxV2_Inr[OF call, THEN conjunct2] assms(2), of s before]
  from en(1,4,5) assms(4) show ?thesis by (auto intro: orders_ok_keep)
next
  case (CreateSignedFill p b i v r q)
  with assms(1) have call: "createGaslessPartialFillEscrow env m p b i v r q s = Inr (x, t)" by simp
  from createSignedFill_Inr[OF this] obtain t0 ev where run:
    "gaslessV2_createEscrowInternal env (partial_escrow_id env b i) (p_depositor p) (p_beneficiary p) (p_token p)
         (p_amount p) (p_hashlock p) (p_timelock p) (val m) (bumped (p_depositor p) s) = Inr ((), t0)"
    and t: "t = t0\<lparr>logs := ev # logs t0\<rparr>" by blast
  note en = gaslessV2_enter[OF run assms(2), of s before]
  have eff: "covered_effect env deposit_due before s t"
    unfolding t using en(1) assms(2,4) by (intro covered_effect_logs) simp_all
  with en(4,5) assms(4) t show ?thesis by (auto intro: orders_ok_keep)
next
  case (WithdrawV2 i y)
  with gaslessV2_withdraw_effect[of env m i y s x t] assms have w: "escrow_phase (entry i s) = Open"
    "storage t = (storage s)\<lparr>escrows := (escrows (storage s))(i := (entry i s)\<lparr>withdrawn := True\<rparr>)\<rparr>"
    "before \<le> balance t (this env) + deposit_due (entry i s)"
    "\<And>k. k \<noteq> 0 \<Longrightarrow> tok_funds env k s \<le> tok_funds env k t + token_due k (entry i s)" by auto
  then have "covered_effect env deposit_due before s t"
    by (intro settle_effect[of s i "(entry i s)\<lparr>withdrawn := True\<rparr>"])
      (auto simp: escrow_phase_def settled_def escrow_terms_def split: if_splits)
  with w(2) show ?thesis by (auto intro: orders_ok_keep)
next
  case (RefundV2 i)
  with gaslessV2_refund_effect[of env m i s x t] assms have w: "escrow_phase (entry i s) = Open"
    "storage t = (storage s)\<lparr>escrows := (escrows (storage s))(i := (entry i s)\<lparr>refunded := True\<rparr>)\<rparr>"
    "before \<le> balance t (this env) + deposit_due (entry i s)"
    "\<And>k. k \<noteq> 0 \<Longrightarrow> tok_funds env k s \<le> tok_funds env k t + token_due k (entry i s)" by auto
  then have "covered_effect env deposit_due before s t"
    by (intro settle_effect[of s i "(entry i s)\<lparr>refunded := True\<rparr>"])
      (auto simp: escrow_phase_def settled_def escrow_terms_def split: if_splits)
  with w(2) show ?thesis by (auto intro: orders_ok_keep)
qed

lemma gaslessV2_step_effect:
  "funded_ok env s e \<Longrightarrow> covered_effect env deposit_due (balance s (this env)) s (gaslessV2_step env s e)"
  by (rule covered_step) (blast dest: gaslessV2_run_effect)+

lemma orders_ok_storage: "storage t = storage s \<Longrightarrow> orders_ok env t \<longleftrightarrow> orders_ok env s"
  by (simp add: orders_ok_def fill_entry_def)

lemma gaslessV2_step_orders:
  assumes "funded_ok env s e" "orders_ok env s"
  shows "orders_ok env (gaslessV2_step env s e)"
proof (cases e)
  case (Tx m c)
  show ?thesis
  proof (cases "transact env m (gaslessV2_run env m c) s")
    case (Inr r)
    obtain x t where r: "r = (x, t)" by (cases r)
    let ?s0 = "move_eth (sender m) (this env) (unat (val m)) s"
    have "gaslessV2_run env m c ?s0 = Inr (x, t)" using Inr r by (simp add: transact_Inr)
    from gaslessV2_run_effect[OF this, of "balance s (this env)"] assms Tx orders_ok_storage[of ?s0 s env]
    show ?thesis using Inr r by (simp add: outcome_def move_eth_balance)
  qed (use assms in \<open>simp add: Tx outcome_def\<close>)
next
  case (Outside t)
  then show ?thesis using assms orders_ok_storage[of t s env] by simp
qed

interpretation gaslessV2_lock: htlc "gaslessV2_step env" "funded_ok env"
  "\<lambda>s. funds_covered deposit_due env s \<and> orders_ok env s"
  "\<lambda>s i. escrow_phase (entry i s)" "\<lambda>s i. escrow_terms (entry i s)" for env
  by unfold_locales
    (blast intro: covered_effect_keeps gaslessV2_step_effect gaslessV2_step_orders,
     blast intro: covered_effect_phase gaslessV2_step_effect, blast intro: covered_effect_terms gaslessV2_step_effect)

subsection \<open>Properties\<close>

definition fresh_v2 :: "'w v2_chain \<Rightarrow> bool" where
  "fresh_v2 s \<longleftrightarrow> escrows (storage s) = (\<lambda>i. no_escrow) \<and> partialFillOrders (storage s) = (\<lambda>b. no_order) \<and>
     usedMerkleIndices (storage s) = (\<lambda>b i. False)"

lemma fresh_v2_inv: "fresh_v2 s \<Longrightarrow> funds_covered deposit_due env s \<and> orders_ok env s"
  by (simp add: fresh_v2_def fresh_covered orders_ok_def no_order_def)


definition v2_chain0 :: "ledger v2_chain" where
  "v2_chain0 = \<lparr>balance = (\<lambda>a. if a = 1 \<or> a = 2 then 1000 else 0),
     storage = \<lparr>escrows = (\<lambda>i. no_escrow), nonces = (\<lambda>a. 0), partialFillOrders = (\<lambda>b. no_order), usedMerkleIndices = (\<lambda>b i. False)\<rparr>,
     world = (\<lambda>tok a. if tok = WETH \<and> a = 1 then 500 else 0), logs = []\<rparr>"

definition demo_order_params :: PartialFillMetaTxParams where
  "demo_order_params = \<lparr>q_baseOrderId = 9, q_depositor = 1, q_beneficiary = 1, q_token = WETH, q_totalAmount = 300,
     q_merkleRoot = 6, q_numFills = 1, q_timelock = 50, q_deadline = 40\<rparr>"

definition demo_fill_run :: "(ledger v2_chain, gaslessV2_call) chain_event list" where
  "demo_fill_run = [Tx \<lparr>sender = 2, val = 0, now = 10\<rparr> (CreateOrder demo_order_params 27 0 1),
     Tx \<lparr>sender = 2, val = 10, now = 11\<rparr> (CreateFill 9 0 100 6 [])]"

lemma demo_fill_id: "partial_escrow_id ledger_env 9 0 = 1"
  by code_simp

lemma demo_fill_legal: "legal_run (gaslessV2_step ledger_env) (funded_ok ledger_env) v2_chain0 demo_fill_run"
  by (simp add: demo_fill_run_def ledger_env_safe)

lemma demo_fill_result:
  "o_filledAmount (partialFillOrders (storage (foldl (gaslessV2_step ledger_env) v2_chain0 demo_fill_run)) 9) = 100"
  by (simp add: demo_fill_run_def demo_order_params_def outcome_def transact_def createPartialFillOrderV2_def
      createPartialFillEscrowV2_def gaslessV2_createEscrowInternal_def pull_exact_def tx_runs v2_chain0_def
      ledger_call_def ledger_move_def no_escrow_def no_order_def WETH_def move_eth_def Let_def verifyMerkleProof_def
      demo_fill_id)


text \<open>
  C24. The loop of the Merkle check against the tree it is about: over a complete tree the proof of
  every leaf is accepted at its index, and an accepted proof of the depth of the tree shows the
  leaf at that index, as long as the hash has no collision among the pairs hashed for the tree and
  for the proof. Of a larger index only the remainder modulo the size of the tree counts.
\<close>

theorem verifyMerkleProof_exact:
  assumes "length ls = 2 ^ d" "unat i < 2 ^ d" "rootHash = tree_root (keccak_node env) d ls"
  shows "verifyMerkleProof env (tree_proof (keccak_node env) d ls (unat i)) rootHash (ls ! unat i) i \<and>
    (length ps = d \<and> verifyMerkleProof env ps rootHash leaf i \<and>
     collision_free (keccak_node env)
       (set (tree_pairs (keccak_node env) d ls) \<union> set (path_pairs (keccak_node env) leaf ps (unat i))) \<longrightarrow>
     leaf = ls ! unat i) \<and>
    (length ps = d \<and> unat j mod 2 ^ d = unat i \<longrightarrow>
     verifyMerkleProof env ps rootHash leaf j = verifyMerkleProof env ps rootHash leaf i)"
  using assms climb_complete[OF assms(1,2), of "keccak_node env"] climb_sound[OF assms(1,2), of ps "keccak_node env" leaf]
    climb_mod[of "keccak_node env" leaf ps "unat j"]
  by (auto simp: verifyMerkleProof_def merkle_loop_climb)

definition demo_v2_env :: "ledger v2_chain sol_env" where
  "demo_v2_env = ledger_env"

theorem verifyMerkleProof_exact_witness:
  "verifyMerkleProof demo_v2_env [7] (tree_root (keccak_node demo_v2_env) 1 [5, 7]) 5 0 \<and>
   verifyMerkleProof demo_v2_env [7] (tree_root (keccak_node demo_v2_env) 1 [5, 7]) 5 2"
proof -
  have "unat (0 :: uint256) < 2 ^ 1" "unat (2 :: uint256) mod 2 ^ 1 = unat (0 :: uint256)" by simp_all
  then show ?thesis
    using verifyMerkleProof_exact[of "[5, 7]" 1 0 "tree_root (keccak_node demo_v2_env) 1 [5, 7]" demo_v2_env "[7]" 5 2] by simp
qed

text \<open>
  A signed partial fill is not bound to the identifier that was signed: a valid message of the
  depositor lets the caller open the escrow under the identifier of any order and index that is
  still free, with the signed terms, while the signed identifier stays unused.
\<close>

theorem signed_fill_identifier_unbound:
  assumes "recover env (create_escrow_digest env p (nonces (storage s) (p_depositor p))) v r q = Some (p_depositor p)"
    and "p_amount p \<noteq> 0" "now m < p_timelock p" "now m \<le> p_deadline p"
    and "unat (nonces (storage s) (p_depositor p)) + 1 < 2 ^ 256" "safe_tokens env"
    and "depositor (entry (partial_escrow_id env b i) s) = 0"
    and "pull_exact env (p_token p) (p_depositor p) (p_amount p) (bumped (p_depositor p) s) = Inr ((), s1)"
  shows "\<exists>t. createGaslessPartialFillEscrow env m p b i v r q s = Inr ((), t) \<and>
    entry (partial_escrow_id env b i) t = new_escrow (p_depositor p) (p_beneficiary p) (p_token p) (p_amount p)
      (p_hashlock p) (p_timelock p) (val m) \<and>
    (p_escrowId p \<noteq> partial_escrow_id env b i \<longrightarrow> entry (p_escrowId p) t = entry (p_escrowId p) s)"
proof -
  have pull: "tx_bind (pull_exact env (p_token p) (p_depositor p) (p_amount p)) g (bumped (p_depositor p) s) = g () s1" for g
    using assms(8) by (simp add: tx_bind_def)
  have st: "storage s1 = storage (bumped (p_depositor p) s)" using pull_exact_Inr[OF assms(8,6)] by simp
  show ?thesis
    using assms(1-5,7) st
    by (simp add: pull[unfolded bumped_def] createGaslessPartialFillEscrow_def verifySignatureAndUpdateNonce_def gaslessV2_createEscrowInternal_def
        tx_runs Let_def bumped_def)
qed

theorem signed_fill_identifier_unbound_witness:
  "\<exists>t. createGaslessPartialFillEscrow ledger_env \<lparr>sender = 2, val = 0, now = 10\<rparr> demo_params 9 0 27 0 1 v2_chain0 = Inr ((), t) \<and>
     entry 7 t = no_escrow"
proof -
  let ?s1 = "(bumped 1 v2_chain0)\<lparr>world := (world v2_chain0)(WETH := (world v2_chain0 WETH)(1 := 400, 99 := 100))\<rparr>"
  have p: "pull_exact ledger_env (p_token demo_params) (p_depositor demo_params) (p_amount demo_params)
      (bumped (p_depositor demo_params) v2_chain0) = Inr ((), ?s1)"
    by (simp add: pull_exact_def tx_runs v2_chain0_def bumped_def ledger_call_def ledger_move_def WETH_def demo_params_def)
  have "entry 7 v2_chain0 = no_escrow" "depositor (entry (partial_escrow_id ledger_env 9 0) v2_chain0) = 0"
    "unat (nonces (storage v2_chain0) (p_depositor demo_params)) + 1 < 2 ^ 256"
    by (simp_all add: v2_chain0_def no_escrow_def)
  with signed_fill_identifier_unbound[OF _ _ _ _ _ ledger_env_safe _ p, of 27 0 1 "\<lparr>sender = 2, val = 0, now = 10\<rparr>" 9 0]
  show ?thesis by (auto simp: demo_params_def demo_fill_id)
qed

end
