(* ===== verification/PermitContract.thy ===== *)
theory PermitContract
  imports Evm
begin

section \<open>The permit contract and the secret adapter on Ethereum\<close>

text \<open>
  \<^verbatim>\<open>FusionPlusPermit.sol\<close>, which moves tokens or ether on a signed permit, and \<^verbatim>\<open>LayerZeroAdapter.sol\<close>,
  which keeps the secrets revealed for other chains. A call with ether to an arbitrary account is
  the argument \<open>eth_call\<close>; it answers whether the call succeeded and may change the chain.
\<close>

subsection \<open>FusionPlusPermit\<close>

record permit_storage =
  permit_nonces :: "evm_address \<Rightarrow> uint256"
  usedPermits :: "bytes32 \<Rightarrow> bool"

type_synonym 'w permit_chain = "(permit_storage, 'w) evm"

definition PERMIT_TYPEHASH :: "'c sol_env \<Rightarrow> bytes32" where
  "PERMIT_TYPEHASH env = keccak256 env (text_bytes
     ''Permit(address owner,address spender,uint256 value,uint256 nonce,uint256 deadline)'')"

definition permit_digest :: "'c sol_env \<Rightarrow> evm_address \<Rightarrow> evm_address \<Rightarrow> uint256 \<Rightarrow> uint256 \<Rightarrow> uint256 \<Rightarrow> bytes32" where
  "permit_digest env owner spender amt currentNonce deadline =
     (let structHash = keccak256 env (abi_encode
        [PERMIT_TYPEHASH env, address_word owner, address_word spender, amt, currentNonce, deadline])
      in hashTypedDataV4 env structHash)"

definition transferWithPermit ::
  "'w permit_chain sol_env \<Rightarrow> msg \<Rightarrow> evm_address \<Rightarrow> evm_address \<Rightarrow> uint256 \<Rightarrow> uint256 \<Rightarrow> byte \<Rightarrow> bytes32 \<Rightarrow> bytes32 \<Rightarrow>
   evm_address \<Rightarrow> evm_address \<Rightarrow> ('w permit_chain, unit) sol" where
  "transferWithPermit env m owner spender amt deadline v r s tok to = nonpayable m
     (tx_bind (read (\<lambda>s. permit_nonces (storage s) owner)) (\<lambda>currentNonce.
      let hash = permit_digest env owner spender amt currentNonce deadline
      in tx_bind (read (\<lambda>s. usedPermits (storage s) hash)) (\<lambda>used. tx_seq [
        require_that (now m \<le> deadline) (Custom ''PermitExpired''),
        require_that (spender = sender m) (Require ''Spender must be msg.sender''),
        require_that (\<not> used) (Custom ''PermitAlreadyUsed''),
        tx_bind (external_view (\<lambda>_. recover env hash v r s)) (\<lambda>signer.
          require_that (signer = owner) (Custom ''InvalidSignature'')),
        tx_bind (checked_add currentNonce 1) (\<lambda>n.
          store (\<lambda>st. st\<lparr>permit_nonces := (permit_nonces st)(owner := n)\<rparr>)),
        store (\<lambda>st. st\<lparr>usedPermits := (usedPermits st)(hash := True)\<rparr>),
        emit (PermitUsed owner spender amt currentNonce),
        if tok = 0 then
          tx_bind (read (\<lambda>s. balance s (this env))) (\<lambda>funds.
          tx_then (require_that (unat amt \<le> funds) (Custom ''InsufficientBalance''))
            (tx_bind (external (\<lambda>s. Some (eth_call env to amt s))) (\<lambda>success.
               require_that success (Custom ''TransferFailed''))))
        else external_unit (safeTransferFrom env tok owner to amt),
        emit (TransferWithPermit owner to tok amt)])))"

definition permit_getNonce :: "evm_address \<Rightarrow> ('w permit_chain, uint256) sol" where
  "permit_getNonce owner = read (\<lambda>s. permit_nonces (storage s) owner)"

definition isPermitUsed ::
  "'w permit_chain sol_env \<Rightarrow> evm_address \<Rightarrow> evm_address \<Rightarrow> uint256 \<Rightarrow> uint256 \<Rightarrow> uint256 \<Rightarrow> ('w permit_chain, bool) sol"
where
  "isPermitUsed env owner spender amt nonce deadline =
     read (\<lambda>s. usedPermits (storage s) (permit_digest env owner spender amt nonce deadline))"

subsection \<open>LayerZeroAdapter\<close>

record lz_storage =
  lz_owner :: evm_address
  lzEndpoint :: evm_address
  trustedRemotes :: "32 word \<Rightarrow> bytes32"
  revealedSecrets :: "bytes32 \<Rightarrow> bytes32"
  revealers :: "bytes32 \<Rightarrow> evm_address"

type_synonym 'w lz_chain = "(lz_storage, 'w) evm"

text \<open>The modifier \<^verbatim>\<open>onlyOwner\<close> of OpenZeppelin.\<close>

definition only_owner :: "msg \<Rightarrow> ('w lz_chain, unit) sol \<Rightarrow> ('w lz_chain, unit) sol" where
  "only_owner m f = tx_bind (read (\<lambda>s. lz_owner (storage s))) (\<lambda>owner.
     tx_then (require_that (owner = sender m) (Custom ''OwnableUnauthorizedAccount'')) f)"

definition setLzEndpoint :: "msg \<Rightarrow> evm_address \<Rightarrow> ('w lz_chain, unit) sol" where
  "setLzEndpoint m endpoint = nonpayable m (only_owner m (store (\<lambda>st. st\<lparr>lzEndpoint := endpoint\<rparr>)))"

definition setTrustedRemote :: "msg \<Rightarrow> 32 word \<Rightarrow> bytes32 \<Rightarrow> ('w lz_chain, unit) sol" where
  "setTrustedRemote m remoteChainId remoteAddress = nonpayable m (only_owner m
     (store (\<lambda>st. st\<lparr>trustedRemotes := (trustedRemotes st)(remoteChainId := remoteAddress)\<rparr>)))"

definition record_secret :: "bytes32 \<Rightarrow> bytes32 \<Rightarrow> evm_address \<Rightarrow> ('w lz_chain, unit) sol" where
  "record_secret escrowId secret revealer = store (\<lambda>st. st\<lparr>revealedSecrets := (revealedSecrets st)(escrowId := secret),
     revealers := (revealers st)(escrowId := revealer)\<rparr>)"

definition sendSecretReveal :: "msg \<Rightarrow> 32 word \<Rightarrow> bytes32 \<Rightarrow> bytes32 \<Rightarrow> ('w lz_chain, unit) sol" where
  "sendSecretReveal m dstEid escrowId secret =
     tx_bind (read (\<lambda>s. lzEndpoint (storage s))) (\<lambda>endpoint. tx_seq [
       require_that (endpoint \<noteq> 0) (Require ''LZ endpoint not set''),
       record_secret escrowId secret (sender m),
       emit (SecretRevealSent dstEid escrowId secret (sender m))])"

definition receiveSecretReveal :: "msg \<Rightarrow> 32 word \<Rightarrow> bytes32 \<Rightarrow> bytes32 \<Rightarrow> evm_address \<Rightarrow> ('w lz_chain, unit) sol" where
  "receiveSecretReveal m srcEid escrowId secret revealer = nonpayable m (tx_seq [
     record_secret escrowId secret revealer,
     emit (SecretRevealReceived srcEid escrowId secret revealer)])"

definition getRevealedSecret :: "bytes32 \<Rightarrow> ('w lz_chain, bool \<times> bytes32) sol" where
  "getRevealedSecret escrowId = tx_bind (read (\<lambda>s. revealedSecrets (storage s) escrowId)) (\<lambda>secret.
     tx_ret (secret \<noteq> 0, secret))"

subsection \<open>Properties\<close>

text \<open>External calls that leave the variables of the permit contract alone, as its reentrancy guard provides.\<close>

definition permit_calls_ok :: "'w permit_chain sol_env \<Rightarrow> bool" where
  "permit_calls_ok env \<longleftrightarrow>
     (\<forall>tok a b v s t. safeTransferFrom env tok a b v s = Some t \<longrightarrow> storage t = storage s) \<and>
     (\<forall>a v s x t. eth_call env a v s = (x, t) \<longrightarrow> storage t = storage s)"


text \<open>A contract for the examples: it holds 500 units of ether; the signer is named by the signature.\<close>

definition permit_env :: "unit permit_chain sol_env" where
  "permit_env = \<lparr>this = 99, keccak256 = (\<lambda>bs. foldl (\<lambda>h b. 3 * h + ucast b) 0 bs), accepts = (\<lambda>a. True),
     erc20_transferFrom = (\<lambda>tok a b v s. Some (True, s)), erc20_transfer = (\<lambda>tok a v s. Some (True, s)),
     erc20_balanceOf = (\<lambda>tok a s. Some 0), erc20_permit = (\<lambda>tok a b v d y p q s. Some s),
     safeTransferFrom = (\<lambda>tok a b v s. Some s), safeTransfer = (\<lambda>tok a v s. Some s),
     eth_call = (\<lambda>a v s. (True, move_eth 99 a (unat v) s)), recover = (\<lambda>h v p q. Some (ucast q)), hashTypedDataV4 = (\<lambda>h. h)\<rparr>"

definition permit_chain0 :: "unit permit_chain" where
  "permit_chain0 = \<lparr>balance = (\<lambda>a. if a = 99 then 500 else 0),
     storage = \<lparr>permit_nonces = (\<lambda>a. 0), usedPermits = (\<lambda>h. False)\<rparr>, world = (), logs = []\<rparr>"

lemma permit_env_ok: "permit_calls_ok permit_env"
  by (auto simp: permit_calls_ok_def permit_env_def)

lemma permit_env_fields [simp]:
  "recover permit_env h v p q = Some (ucast q)" "safeTransferFrom permit_env tok a b amt s = Some s"
  "eth_call permit_env a amt s = (True, move_eth 99 a (unat amt) s)" "this permit_env = 99"
  by (simp_all add: permit_env_def)


text \<open>
  A permit binds neither the token nor the recipient: with one and the same signature the caller
  moves any token the owner has approved, to any account; and named for ether it is paid from what
  the contract holds, whoever brought it there, so that an account that signs a permit for itself
  takes all ether of the contract.
\<close>

theorem permit_token_unbound:
  assumes "recover env (permit_digest env owner (sender m) amt (permit_nonces (storage s) owner) deadline) v r q = Some owner"
    and "\<not> usedPermits (storage s) (permit_digest env owner (sender m) amt (permit_nonces (storage s) owner) deadline)"
    and "now m \<le> deadline" "val m = 0" "unat (permit_nonces (storage s) owner) + 1 < 2 ^ 256"
  shows "(\<forall>tok to. tok \<noteq> 0 \<and> (\<forall>u. safeTransferFrom env tok owner to amt u \<noteq> None) \<longrightarrow>
      (\<exists>t u w. transferWithPermit env m owner (sender m) amt deadline v r q tok to s = Inr ((), t) \<and>
        safeTransferFrom env tok owner to amt u = Some w \<and> world u = world s \<and> world t = world w)) \<and>
    (\<forall>to. unat amt = balance s (this env) \<and> to \<noteq> this env \<and>
       (\<forall>u. eth_call env to amt u = (True, move_eth (this env) to (unat amt) u)) \<longrightarrow>
      (\<exists>t. transferWithPermit env m owner (sender m) amt deadline v r q 0 to s = Inr ((), t) \<and>
         balance t (this env) = 0 \<and> balance t to = balance s to + balance s (this env)))"
proof (intro conjI allI impI)
  fix tok to assume tok: "tok \<noteq> 0 \<and> (\<forall>u. safeTransferFrom env tok owner to amt u \<noteq> None)"
  let ?h = "permit_digest env owner (sender m) amt (permit_nonces (storage s) owner) deadline"
  let ?u = "s\<lparr>storage := (storage s)\<lparr>permit_nonces := (permit_nonces (storage s))(owner := permit_nonces (storage s) owner + 1),
      usedPermits := (usedPermits (storage s))(?h := True)\<rparr>,
    logs := PermitUsed owner (sender m) amt (permit_nonces (storage s) owner) # logs s\<rparr>"
  obtain w where w: "safeTransferFrom env tok owner to amt ?u = Some w" using tok by blast
  have "transferWithPermit env m owner (sender m) amt deadline v r q tok to s =
      Inr ((), w\<lparr>logs := TransferWithPermit owner to tok amt # logs w\<rparr>)"
    using assms tok w by (simp add: transferWithPermit_def tx_runs Let_def)
  then show "\<exists>t u w. transferWithPermit env m owner (sender m) amt deadline v r q tok to s = Inr ((), t) \<and>
      safeTransferFrom env tok owner to amt u = Some w \<and> world u = world s \<and> world t = world w"
    using w by (intro exI[of _ "w\<lparr>logs := TransferWithPermit owner to tok amt # logs w\<rparr>"] exI[of _ ?u] exI[of _ w]) simp
next
  fix to assume "unat amt = balance s (this env) \<and> to \<noteq> this env \<and>
       (\<forall>u. eth_call env to amt u = (True, move_eth (this env) to (unat amt) u))"
  with assms show "\<exists>t. transferWithPermit env m owner (sender m) amt deadline v r q 0 to s = Inr ((), t) \<and>
         balance t (this env) = 0 \<and> balance t to = balance s to + balance s (this env)"
    by (auto simp: transferWithPermit_def tx_runs Let_def move_eth_def)
qed

theorem permit_token_unbound_witness:
  "\<exists>t. transferWithPermit permit_env \<lparr>sender = 2, val = 0, now = 10\<rparr> 2 2 500 40 27 0 2 0 2 permit_chain0 = Inr ((), t) \<and>
     balance t 99 = 0 \<and> balance t 2 = 500"
  using permit_token_unbound[of permit_env 2 "\<lparr>sender = 2, val = 0, now = 10\<rparr>" 500 permit_chain0 40 27 0 2]
  by (simp add: permit_chain0_def)

text \<open>
  A revealed secret can be read back under its escrow, with the account that revealed it; but the
  receiving side asks neither for the endpoint nor for a trusted remote, so any account replaces a
  revealed secret by another one or by none.
\<close>

theorem revealed_secret_overwritable:
  assumes "lzEndpoint (storage s) \<noteq> 0" "secret \<noteq> 0" "val m = 0"
  shows "\<exists>t. sendSecretReveal m0 dst i secret s = Inr ((), t) \<and> getRevealedSecret i t = Inr ((True, secret), t) \<and>
    revealers (storage t) i = sender m0 \<and>
    (\<exists>u. receiveSecretReveal m src i other who t = Inr ((), u) \<and>
       getRevealedSecret i u = Inr ((other \<noteq> 0, other), u) \<and> revealers (storage u) i = who)"
  using assms
  by (simp add: sendSecretReveal_def receiveSecretReveal_def getRevealedSecret_def record_secret_def tx_runs)

theorem revealed_secret_overwritable_witness:
  "\<exists>t. sendSecretReveal \<lparr>sender = 1, val = 0, now = 10\<rparr> 3 7 5
      \<lparr>balance = (\<lambda>a. 0), storage = \<lparr>lz_owner = 1, lzEndpoint = 4, trustedRemotes = (\<lambda>c. 0), revealedSecrets = (\<lambda>i. 0),
        revealers = (\<lambda>i. 0)\<rparr>, world = (), logs = []\<rparr> = Inr ((), t) \<and> getRevealedSecret 7 t = Inr ((True, 5), t) \<and>
     (\<exists>u. receiveSecretReveal \<lparr>sender = 8, val = 0, now = 11\<rparr> 3 7 0 8 t = Inr ((), u) \<and>
        getRevealedSecret 7 u = Inr ((False, 0), u))"
  using revealed_secret_overwritable[of "\<lparr>balance = (\<lambda>a. 0), storage = \<lparr>lz_owner = 1, lzEndpoint = 4, trustedRemotes = (\<lambda>c. 0),
      revealedSecrets = (\<lambda>i. 0), revealers = (\<lambda>i. 0)\<rparr>, world = (), logs = []\<rparr>" 5 "\<lparr>sender = 8, val = 0, now = 11\<rparr>"
      "\<lparr>sender = 1, val = 0, now = 10\<rparr>" 3 7 3 0 8] by auto

end
