(* ===== verification/MoveChain.thy ===== *)
theory MoveChain
  imports Transactions Htlc "HOL-Library.Word"
begin

section \<open>Modules on the Aptos chain\<close>

text \<open>
  What the Move modules under \<^verbatim>\<open>contracts/aptos/sources\<close> use of the language and of its framework:
  64-bit integers, tables, resources under addresses, and coins. A \<^verbatim>\<open>Coin<AptosCoin>\<close> is a value that
  can be neither copied nor dropped; it is represented by its 64-bit value, and the accounts by their
  coin stores, where \<open>None\<close> means that an account has none. Entry functions abort with the code of a
  failed \<^verbatim>\<open>assert!\<close> or inside the framework; an aborted transaction leaves no trace.
\<close>

type_synonym u64 = "64 word"
type_synonym move_address = "256 word"
type_synonym bytes = "8 word list"

datatype abort =
    Code nat
  | NoResource
  | ResourceExists
  | NoKey
  | KeyExists
  | CoinAbort
  | BadLength
  | ArithmeticAbort

record 's aptos =
  coins :: "move_address \<Rightarrow> u64 option"
  globals :: 's

type_synonym ('s, 'a) move = "(abort, 's aptos, 'a) tx"

definition set_globals :: "('s \<Rightarrow> 's) \<Rightarrow> ('s, unit) move" where
  "set_globals f = update (\<lambda>s. s\<lparr>globals := f (globals s)\<rparr>)"

text \<open>Borrowing a resource or an entry of a table that may be missing.\<close>

definition borrow :: "abort \<Rightarrow> ('s aptos \<Rightarrow> 'r option) \<Rightarrow> ('s, 'r) move" where
  "borrow e f s = (case f s of None \<Rightarrow> Inl e | Some r \<Rightarrow> Inr (r, s))"

lemma borrow_run [tx_runs]: "tx_bind (borrow e f) g s = (case f s of None \<Rightarrow> Inl e | Some r \<Rightarrow> g r s)"
  by (simp add: tx_bind_def borrow_def split: option.splits)

declare set_globals_def [tx_runs]

subsection \<open>Coins\<close>

definition coin_withdraw :: "move_address \<Rightarrow> u64 \<Rightarrow> ('s, u64) move" where
  "coin_withdraw a n s =
     (case coins s a of
        None \<Rightarrow> Inl CoinAbort
      | Some c \<Rightarrow> if n \<le> c then Inr (n, s\<lparr>coins := (coins s)(a \<mapsto> c - n)\<rparr>) else Inl CoinAbort)"

definition coin_deposit :: "move_address \<Rightarrow> u64 \<Rightarrow> ('s, unit) move" where
  "coin_deposit a c s =
     (case coins s a of
        None \<Rightarrow> Inl CoinAbort
      | Some b \<Rightarrow> if unat b + unat c < 2 ^ 64 then Inr ((), s\<lparr>coins := (coins s)(a \<mapsto> b + c)\<rparr>) else Inl ArithmeticAbort)"

text \<open>The same test on words, for evaluation.\<close>

lemma coin_deposit_code [code]:
  "coin_deposit a c s =
     (case coins s a of
        None \<Rightarrow> Inl CoinAbort
      | Some b \<Rightarrow> if b \<le> b + c then Inr ((), s\<lparr>coins := (coins s)(a \<mapsto> b + c)\<rparr>) else Inl ArithmeticAbort)"
  by (simp add: coin_deposit_def no_olen_add_nat split: option.splits)

definition coin_balance :: "move_address \<Rightarrow> ('s, u64) move" where
  "coin_balance a = borrow CoinAbort (\<lambda>s. coins s a)"

text \<open>\<^verbatim>\<open>coin::register\<close> gives an account an empty store.\<close>

definition coin_register :: "move_address \<Rightarrow> ('s, unit) move" where
  "coin_register a = update (\<lambda>s. s\<lparr>coins := (coins s)(a \<mapsto> 0)\<rparr>)"

lemma coin_withdraw_run:
  "tx_bind (coin_withdraw a n) g s = (case coins s a of None \<Rightarrow> Inl CoinAbort
     | Some c \<Rightarrow> if n \<le> c then g n (s\<lparr>coins := (coins s)(a \<mapsto> c - n)\<rparr>) else Inl CoinAbort)"
  by (simp add: tx_bind_def coin_withdraw_def split: option.splits)

lemma coin_deposit_run:
  "tx_bind (coin_deposit a c) g s = (case coins s a of None \<Rightarrow> Inl CoinAbort
     | Some b \<Rightarrow> if unat b + unat c < 2 ^ 64 then g () (s\<lparr>coins := (coins s)(a \<mapsto> b + c)\<rparr>) else Inl ArithmeticAbort)"
  by (simp add: tx_bind_def coin_deposit_def split: option.splits)

text \<open>What all accounts hold.\<close>

definition accounts_total :: "(move_address \<Rightarrow> u64 option) \<Rightarrow> nat" where
  "accounts_total f = (\<Sum>a\<in>UNIV. case f a of None \<Rightarrow> 0 | Some c \<Rightarrow> unat c)"

lemma accounts_total_upd:
  "accounts_total (f(a := v)) + (case f a of None \<Rightarrow> 0 | Some c \<Rightarrow> unat c) =
   accounts_total f + (case v of None \<Rightarrow> 0 | Some c \<Rightarrow> unat c)"
proof -
  let ?g = "\<lambda>f a. case f a of None \<Rightarrow> 0 | Some c \<Rightarrow> unat c"
  have "accounts_total (f(a := v)) = ?g (f(a := v)) a + sum (?g (f(a := v))) (UNIV - {a})"
    unfolding accounts_total_def by (rule sum.remove) auto
  moreover have "accounts_total f = ?g f a + sum (?g f) (UNIV - {a})"
    unfolding accounts_total_def by (rule sum.remove) auto
  moreover have "sum (?g (f(a := v))) (UNIV - {a}) = sum (?g f) (UNIV - {a})" by (rule sum.cong) auto
  ultimately show ?thesis by simp
qed

lemma accounts_total_ge: "f a = Some c \<Longrightarrow> unat c \<le> accounts_total f"
  using accounts_total_upd[of f a None] by simp

lemma coin_withdraw_Inr:
  assumes "coin_withdraw a n s = Inr (c, t)"
  shows "c = n \<and> globals t = globals s \<and> accounts_total (coins t) + unat n = accounts_total (coins s) \<and>
    (\<exists>b. coins s a = Some b \<and> n \<le> b \<and> coins t = (coins s)(a \<mapsto> b - n))"
proof -
  from assms obtain b where b: "coins s a = Some b" "n \<le> b" "c = n" "t = s\<lparr>coins := (coins s)(a \<mapsto> b - n)\<rparr>"
    by (auto simp: coin_withdraw_def split: option.splits if_splits)
  then show ?thesis
    using accounts_total_upd[of "coins s" a "Some (b - n)"] by (simp add: unat_sub word_le_nat_alt)
qed

lemma accounts_total_paid:
  assumes "f a = Some b" "unat b + unat (c :: u64) < 2 ^ 64"
  shows "accounts_total (f(a \<mapsto> b + c)) = accounts_total f + unat c"
proof -
  have "unat (b + c) = unat b + unat c" using assms(2) by (simp add: unat_word_ariths)
  then show ?thesis using accounts_total_upd[of f a "Some (b + c)"] assms(1) by simp
qed

lemma coin_deposit_Inr:
  assumes "coin_deposit a c s = Inr (x, t)"
  shows "globals t = globals s \<and> accounts_total (coins t) = accounts_total (coins s) + unat c \<and>
    (\<exists>b. coins s a = Some b \<and> unat b + unat c < 2 ^ 64 \<and> coins t = (coins s)(a \<mapsto> b + c))"
proof -
  from assms obtain b where b: "coins s a = Some b" "unat b + unat c < 2 ^ 64" "t = s\<lparr>coins := (coins s)(a \<mapsto> b + c)\<rparr>"
    by (auto simp: coin_deposit_def split: option.splits if_splits)
  then have "unat (b + c) = unat b + unat c" by (simp add: unat_add_lem[symmetric])
  with b show ?thesis using accounts_total_upd[of "coins s" a "Some (b + c)"] by simp
qed

text \<open>When all coins together fit the word size, a deposit into an existing store does not fail.\<close>

lemma coin_deposit_ok:
  assumes "coins s a = Some b" "accounts_total (coins s) + unat c < 2 ^ 64"
  shows "coin_deposit a c s = Inr ((), s\<lparr>coins := (coins s)(a \<mapsto> b + c)\<rparr>)"
  using assms accounts_total_ge[of "coins s" a b] by (simp add: coin_deposit_def)

subsection \<open>Tables\<close>

definition table_total :: "('v \<Rightarrow> nat) \<Rightarrow> ('k \<rightharpoonup> 'v) \<Rightarrow> nat" where
  "table_total f m = (\<Sum>k\<in>dom m. f (the (m k)))"

lemma table_total_empty [simp]: "table_total f Map.empty = 0"
  by (simp add: table_total_def)

lemma table_total_add:
  assumes "finite (dom m)" "m k = None"
  shows "table_total f (m(k \<mapsto> v)) = table_total f m + f v"
proof -
  have eq: "(\<Sum>x\<in>dom m. f (the ((m(k \<mapsto> v)) x))) = (\<Sum>x\<in>dom m. f (the (m x)))"
    using assms(2) by (intro sum.cong) auto
  have d: "dom (m(k \<mapsto> v)) = insert k (dom m)" and k: "k \<notin> dom m" using assms(2) by auto
  show ?thesis unfolding table_total_def d sum.insert[OF assms(1) k] eq by simp
qed

lemma table_total_remove:
  assumes "finite (dom m)" "m k = Some v"
  shows "table_total f (m(k := None)) + f v = table_total f m"
proof -
  have "table_total f m = f (the (m k)) + (\<Sum>x\<in>dom m - {k}. f (the (m x)))"
    unfolding table_total_def using assms by (intro sum.remove) auto
  moreover have "(\<Sum>x\<in>dom m - {k}. f (the (m x))) = table_total f (m(k := None))"
    unfolding table_total_def by (intro sum.cong) auto
  ultimately show ?thesis using assms(2) by simp
qed

lemma table_total_set:
  assumes "finite (dom m)" "m k = Some v"
  shows "table_total f (m(k \<mapsto> w)) + f v = table_total f m + f w"
  using table_total_remove[OF assms] table_total_add[of "m(k := None)" k f w] assms(1) by simp

lemma table_total_ge: "finite (dom m) \<Longrightarrow> m k = Some v \<Longrightarrow> f v \<le> table_total f m"
  using table_total_remove[of m k v f] by simp

text \<open>Adding an amount to an account, and taking one from it.\<close>

definition credited :: "(move_address \<Rightarrow> u64 option) \<Rightarrow> move_address \<Rightarrow> u64 \<Rightarrow> move_address \<Rightarrow> u64 option" where
  "credited c a n = c(a := map_option (\<lambda>b. b + n) (c a))"

definition debited :: "(move_address \<Rightarrow> u64 option) \<Rightarrow> move_address \<Rightarrow> u64 \<Rightarrow> move_address \<Rightarrow> u64 option" where
  "debited c a n = c(a := map_option (\<lambda>b. b - n) (c a))"

subsection \<open>Transactions in sequence\<close>

text \<open>
  A transaction calls an entry function of a module with the time of its block; transactions of
  other modules may move coins between accounts.
\<close>

datatype 'k aptos_event = Call u64 'k | Elsewhere "move_address \<Rightarrow> u64 option"

fun aptos_step :: "(u64 \<Rightarrow> 'k \<Rightarrow> ('s, unit) move) \<Rightarrow> 's aptos \<Rightarrow> 'k aptos_event \<Rightarrow> 's aptos" where
  "aptos_step call s (Call time k) = outcome (call time k) s"
| "aptos_step call s (Elsewhere c) = s\<lparr>coins := c\<rparr>"

text \<open>Coins are neither made nor destroyed elsewhere, and an account keeps its store.\<close>

fun aptos_ok :: "'s aptos \<Rightarrow> 'k aptos_event \<Rightarrow> bool" where
  "aptos_ok s (Call time k) = True"
| "aptos_ok s (Elsewhere c) \<longleftrightarrow> accounts_total c = accounts_total (coins s) \<and> dom (coins s) \<subseteq> dom c"

end
