(* ===== verification/MoveEscrow.thy ===== *)
theory MoveEscrow
  imports MoveChain
begin

section \<open>The escrow modules on Aptos\<close>

text \<open>
  The modules \<^verbatim>\<open>escrow\<close> (\<^verbatim>\<open>fusion_plus_escrow.move\<close>), \<^verbatim>\<open>escrow_v3\<close> (\<^verbatim>\<open>fusion_plus_escrow_v3.move\<close>, to which
  \<^verbatim>\<open>fusion_plus_escrow_v2.move\<close> is identical but for its name) and \<^verbatim>\<open>layerzero_adapter\<close>. A signer is
  its address. Each module has its own resources; both escrow modules use the same structures. The
  names \<^verbatim>\<open>@fusion_plus\<close> and \<^verbatim>\<open>@escrow_addr\<close> stand for the one address of \<^verbatim>\<open>Move.toml\<close>. The current time
  in seconds is an argument of the entry functions that read it.
\<close>

definition fusion_plus :: move_address where
  "fusion_plus = 0x3f2f1a3d325df4561b8216251aec6dc6c1a6bb3ee8d0ed9004a51c73a857d9a8"

abbreviation "E_ESCROW_ALREADY_EXISTS \<equiv> Code 1"
abbreviation "E_ESCROW_NOT_FOUND \<equiv> Code 2"
abbreviation "E_INVALID_SECRET \<equiv> Code 3"
abbreviation "E_ALREADY_WITHDRAWN \<equiv> Code 4"
abbreviation "E_ALREADY_REFUNDED \<equiv> Code 5"
abbreviation "E_TIMELOCK_NOT_EXPIRED \<equiv> Code 6"
abbreviation "E_INVALID_AMOUNT \<equiv> Code 7"
abbreviation "E_INVALID_TIMELOCK \<equiv> Code 8"
abbreviation "E_INSUFFICIENT_SAFETY_DEPOSIT \<equiv> Code 9"
abbreviation "E_NOT_AUTHORIZED_RESOLVER \<equiv> Code 11"
abbreviation "E_EXPIRED_SIGNATURE \<equiv> Code 12"
abbreviation "E_INVALID_NONCE \<equiv> Code 13"
abbreviation "E_INSUFFICIENT_BALANCE \<equiv> Code 14"

record MoveEscrow =
  m_depositor :: move_address
  m_beneficiary :: move_address
  m_amount :: u64
  m_hashlock :: bytes
  m_timelock :: u64
  m_withdrawn :: bool
  m_refunded :: bool
  m_safety_deposit :: u64
  m_escrowed_coin :: u64

record EscrowStore =
  m_escrows :: "bytes \<rightharpoonup> MoveEscrow"
  m_safety_deposits :: "bytes \<rightharpoonup> u64"

record ResolverRegistry =
  authorized_resolvers :: "move_address \<rightharpoonup> bool"
  user_nonces :: "move_address \<rightharpoonup> u64"

record RevealedSecret =
  rs_secret :: bytes
  rs_revealer :: move_address
  rs_src_chain_id :: "32 word"

record SecretStorage =
  lz_secrets :: "bytes \<rightharpoonup> RevealedSecret"
  authorized_endpoint :: move_address

record escrow_globals =
  escrow_stores :: "move_address \<rightharpoonup> EscrowStore"
  registries :: "move_address \<rightharpoonup> ResolverRegistry"
  secret_storages :: "move_address \<rightharpoonup> SecretStorage"
  reveal_events :: "move_address \<rightharpoonup> (bytes \<times> RevealedSecret) list"

type_synonym 'a escrow_move = "(escrow_globals, 'a) move"

subsection \<open>Resources\<close>

definition move_initialize :: "move_address \<Rightarrow> unit escrow_move" where
  "move_initialize account =
     tx_bind (read globals) (\<lambda>g. tx_seq [
       require_that (escrow_stores g account = None) ResourceExists,
       set_globals (\<lambda>g. g\<lparr>escrow_stores := (escrow_stores g)(account \<mapsto> \<lparr>m_escrows = Map.empty, m_safety_deposits = Map.empty\<rparr>)\<rparr>),
       require_that (registries g account = None) ResourceExists,
       set_globals (\<lambda>g. g\<lparr>registries := (registries g)(account \<mapsto> \<lparr>authorized_resolvers = Map.empty, user_nonces = Map.empty\<rparr>)\<rparr>)])"

definition borrow_store :: "EscrowStore escrow_move" where
  "borrow_store = borrow NoResource (\<lambda>s. escrow_stores (globals s) fusion_plus)"

definition put_store :: "EscrowStore \<Rightarrow> unit escrow_move" where
  "put_store st = set_globals (\<lambda>g. g\<lparr>escrow_stores := (escrow_stores g)(fusion_plus \<mapsto> st)\<rparr>)"

definition borrow_registry :: "ResolverRegistry escrow_move" where
  "borrow_registry = borrow NoResource (\<lambda>s. registries (globals s) fusion_plus)"

definition put_registry :: "ResolverRegistry \<Rightarrow> unit escrow_move" where
  "put_registry r = set_globals (\<lambda>g. g\<lparr>registries := (registries g)(fusion_plus \<mapsto> r)\<rparr>)"

declare borrow_store_def [tx_runs] put_store_def [tx_runs] borrow_registry_def [tx_runs] put_registry_def [tx_runs]

definition add_authorized_resolver :: "move_address \<Rightarrow> move_address \<Rightarrow> unit escrow_move" where
  "add_authorized_resolver admin resolver =
     tx_then (require_that (admin = fusion_plus) E_NOT_AUTHORIZED_RESOLVER)
       (tx_bind borrow_registry (\<lambda>r.
          tx_then (require_that (authorized_resolvers r resolver = None) KeyExists)
            (put_registry (r\<lparr>authorized_resolvers := (authorized_resolvers r)(resolver \<mapsto> True)\<rparr>))))"

definition remove_authorized_resolver :: "move_address \<Rightarrow> move_address \<Rightarrow> unit escrow_move" where
  "remove_authorized_resolver admin resolver =
     tx_then (require_that (admin = fusion_plus) E_NOT_AUTHORIZED_RESOLVER)
       (tx_bind borrow_registry (\<lambda>r.
          tx_then (require_that (authorized_resolvers r resolver \<noteq> None) NoKey)
            (put_registry (r\<lparr>authorized_resolvers := (authorized_resolvers r)(resolver := None)\<rparr>))))"

text \<open>\<^verbatim>\<open>table::add\<close> of a new escrow and of its safety deposit.\<close>

definition add_escrow :: "bytes \<Rightarrow> MoveEscrow \<Rightarrow> u64 \<Rightarrow> unit escrow_move" where
  "add_escrow escrow_id e deposit = tx_bind borrow_store (\<lambda>st. tx_seq [
     require_that (m_escrows st escrow_id = None) KeyExists,
     require_that (m_safety_deposits st escrow_id = None) KeyExists,
     put_store (st\<lparr>m_escrows := (m_escrows st)(escrow_id \<mapsto> e),
       m_safety_deposits := (m_safety_deposits st)(escrow_id \<mapsto> deposit)\<rparr>)])"

definition new_move_escrow ::
  "move_address \<Rightarrow> move_address \<Rightarrow> u64 \<Rightarrow> bytes \<Rightarrow> u64 \<Rightarrow> u64 \<Rightarrow> u64 \<Rightarrow> MoveEscrow" where
  "new_move_escrow dep ben amt lock until deposit coin =
     \<lparr>m_depositor = dep, m_beneficiary = ben, m_amount = amt, m_hashlock = lock, m_timelock = until,
      m_withdrawn = False, m_refunded = False, m_safety_deposit = deposit, m_escrowed_coin = coin\<rparr>"

text \<open>The checks that every creation makes on the store, after it has been found.\<close>

definition fresh_escrow :: "u64 \<Rightarrow> bytes \<Rightarrow> u64 \<Rightarrow> u64 \<Rightarrow> unit escrow_move" where
  "fresh_escrow time escrow_id amt until = tx_bind borrow_store (\<lambda>st. tx_seq [
     require_that (m_escrows st escrow_id = None) E_ESCROW_ALREADY_EXISTS,
     require_that (0 < amt) E_INVALID_AMOUNT,
     require_that (time < until) E_INVALID_TIMELOCK])"

definition store_exists :: "unit escrow_move" where
  "store_exists = tx_bind (read (\<lambda>s. escrow_stores (globals s) fusion_plus)) (\<lambda>st.
     require_that (st \<noteq> None) E_ESCROW_NOT_FOUND)"

subsection \<open>Module escrow\<close>

definition move_create_escrow ::
  "u64 \<Rightarrow> move_address \<Rightarrow> bytes \<Rightarrow> move_address \<Rightarrow> u64 \<Rightarrow> bytes \<Rightarrow> u64 \<Rightarrow> u64 \<Rightarrow> unit escrow_move" where
  "move_create_escrow time dep escrow_id ben amt lock until deposit_amount = tx_seq [
     store_exists,
     fresh_escrow time escrow_id amt until,
     require_that (0 < deposit_amount) E_INSUFFICIENT_SAFETY_DEPOSIT,
     tx_bind (coin_withdraw dep amt) (\<lambda>escrowed_coin.
     tx_bind (coin_withdraw dep deposit_amount) (\<lambda>deposit.
       add_escrow escrow_id (new_move_escrow dep ben amt lock until deposit_amount escrowed_coin) deposit))]"

text \<open>The checks of a delegated creation: resolver, expiry, nonce, and the lengths of key and signature.\<close>

definition delegated_checks :: "u64 \<Rightarrow> move_address \<Rightarrow> move_address \<Rightarrow> u64 \<Rightarrow> u64 \<Rightarrow> bytes \<Rightarrow> bytes \<Rightarrow> unit escrow_move" where
  "delegated_checks time resolver dep nonce expiry pubkey signature =
     tx_bind borrow_registry (\<lambda>r. tx_seq [
       require_that (authorized_resolvers r resolver \<noteq> None) E_NOT_AUTHORIZED_RESOLVER,
       require_that (time \<le> expiry) E_EXPIRED_SIGNATURE,
       case user_nonces r dep of
         Some current_nonce \<Rightarrow> require_that (current_nonce < nonce) E_INVALID_NONCE
       | None \<Rightarrow> tx_ret (),
       require_that (length pubkey = 32) BadLength,
       require_that (length signature = 64) BadLength,
       put_registry (r\<lparr>user_nonces := (user_nonces r)(dep \<mapsto> nonce)\<rparr>)])"

definition check_balance :: "move_address \<Rightarrow> u64 \<Rightarrow> unit escrow_move" where
  "check_balance dep amt = tx_bind (coin_balance dep) (\<lambda>b. require_that (amt \<le> b) E_INSUFFICIENT_BALANCE)"

definition ensure_registered :: "move_address \<Rightarrow> unit escrow_move" where
  "ensure_registered a = tx_bind (read (\<lambda>s. coins s a)) (\<lambda>c. if c = None then coin_register a else tx_ret ())"

definition move_create_escrow_delegated ::
  "u64 \<Rightarrow> move_address \<Rightarrow> bytes \<Rightarrow> move_address \<Rightarrow> move_address \<Rightarrow> u64 \<Rightarrow> bytes \<Rightarrow> u64 \<Rightarrow> u64 \<Rightarrow> u64 \<Rightarrow> u64 \<Rightarrow> bytes \<Rightarrow> bytes \<Rightarrow>
   unit escrow_move" where
  "move_create_escrow_delegated time resolver escrow_id dep ben amt lock until nonce expiry deposit_amount pubkey signature = tx_seq [
     delegated_checks time resolver dep nonce expiry pubkey signature,
     fresh_escrow time escrow_id amt until,
     require_that (0 < deposit_amount) E_INSUFFICIENT_SAFETY_DEPOSIT,
     check_balance dep amt,
     ensure_registered resolver,
     tx_bind (coin_withdraw resolver amt) (\<lambda>escrowed_coin.
     tx_bind (coin_withdraw resolver deposit_amount) (\<lambda>deposit.
       add_escrow escrow_id (new_move_escrow dep ben amt lock until deposit_amount escrowed_coin) deposit))]"

text \<open>
  The end of a withdrawal or a refund: the escrow is marked by \<open>mark\<close>, its amount goes from the
  escrowed coin to \<open>to\<close>, and the safety deposit to the caller.
\<close>

definition extract_to :: "bytes \<Rightarrow> (MoveEscrow \<Rightarrow> MoveEscrow) \<Rightarrow> move_address \<Rightarrow> unit escrow_move" where
  "extract_to escrow_id mark to = tx_bind borrow_store (\<lambda>st.
     case m_escrows st escrow_id of
       None \<Rightarrow> revert_with NoKey
     | Some e \<Rightarrow> tx_seq [
         require_that (m_amount e \<le> m_escrowed_coin e) CoinAbort,
         put_store (st\<lparr>m_escrows := (m_escrows st)(escrow_id \<mapsto>
           (mark e)\<lparr>m_escrowed_coin := m_escrowed_coin e - m_amount e\<rparr>)\<rparr>),
         coin_deposit to (m_amount e)])"

definition release_deposit :: "bytes \<Rightarrow> move_address \<Rightarrow> unit escrow_move" where
  "release_deposit escrow_id who = tx_bind borrow_store (\<lambda>st.
     case m_safety_deposits st escrow_id of
       None \<Rightarrow> revert_with NoKey
     | Some c \<Rightarrow> tx_then (put_store (st\<lparr>m_safety_deposits := (m_safety_deposits st)(escrow_id := None)\<rparr>))
         (coin_deposit who c))"

definition open_escrow :: "bytes \<Rightarrow> MoveEscrow escrow_move" where
  "open_escrow escrow_id = tx_bind borrow_store (\<lambda>st.
     tx_bind (borrow E_ESCROW_NOT_FOUND (\<lambda>s. m_escrows st escrow_id)) (\<lambda>e.
     tx_then (require_that (\<not> m_withdrawn e) E_ALREADY_WITHDRAWN)
     (tx_then (require_that (\<not> m_refunded e) E_ALREADY_REFUNDED) (tx_ret e))))"

definition move_withdraw :: "move_address \<Rightarrow> bytes \<Rightarrow> bytes \<Rightarrow> unit escrow_move" where
  "move_withdraw withdrawer escrow_id secret =
     tx_bind (open_escrow escrow_id) (\<lambda>e. tx_seq [
       require_that (length secret = 32) E_INVALID_SECRET,
       extract_to escrow_id (\<lambda>e. e\<lparr>m_withdrawn := True\<rparr>) (m_beneficiary e),
       release_deposit escrow_id withdrawer])"

definition borrow_secrets :: "SecretStorage escrow_move" where
  "borrow_secrets = borrow NoResource (\<lambda>s. secret_storages (globals s) fusion_plus)"

declare borrow_secrets_def [tx_runs]

definition has_secret_revealed :: "bytes \<Rightarrow> bool escrow_move" where
  "has_secret_revealed escrow_id = tx_bind borrow_secrets (\<lambda>ss. tx_ret (lz_secrets ss escrow_id \<noteq> None))"

definition get_revealed_secret :: "bytes \<Rightarrow> (bytes \<times> move_address) escrow_move" where
  "get_revealed_secret escrow_id = tx_bind borrow_secrets (\<lambda>ss.
     tx_bind (borrow (Code 2) (\<lambda>s. lz_secrets ss escrow_id)) (\<lambda>reveal.
       tx_ret (rs_secret reveal, rs_revealer reveal)))"

definition move_withdraw_cross_chain :: "move_address \<Rightarrow> bytes \<Rightarrow> unit escrow_move" where
  "move_withdraw_cross_chain withdrawer escrow_id =
     tx_bind (open_escrow escrow_id) (\<lambda>e. tx_seq [
       tx_bind (has_secret_revealed escrow_id) (\<lambda>b. require_that b E_INVALID_SECRET),
       tx_bind (get_revealed_secret escrow_id) (\<lambda>(secret, revealer). tx_ret ()),
       extract_to escrow_id (\<lambda>e. e\<lparr>m_withdrawn := True\<rparr>) (m_beneficiary e),
       release_deposit escrow_id withdrawer])"

definition move_escrow_exists :: "bytes \<Rightarrow> bool escrow_move" where
  "move_escrow_exists escrow_id = tx_bind (read (\<lambda>s. escrow_stores (globals s) fusion_plus)) (\<lambda>st.
     tx_ret (case st of None \<Rightarrow> False | Some st \<Rightarrow> m_escrows st escrow_id \<noteq> None))"

definition move_refund :: "u64 \<Rightarrow> move_address \<Rightarrow> bytes \<Rightarrow> unit escrow_move" where
  "move_refund time refunder escrow_id =
     tx_bind (open_escrow escrow_id) (\<lambda>e. tx_seq [
       require_that (m_timelock e \<le> time) E_TIMELOCK_NOT_EXPIRED,
       extract_to escrow_id (\<lambda>e. e\<lparr>m_refunded := True\<rparr>) (m_depositor e),
       release_deposit escrow_id refunder])"

subsection \<open>Module layerzero\_adapter\<close>

definition lz_initialize :: "move_address \<Rightarrow> move_address \<Rightarrow> unit escrow_move" where
  "lz_initialize account endpoint = tx_seq [
     require_that (account = fusion_plus) (Code 1),
     set_globals (\<lambda>g. if secret_storages g account = None
       then g\<lparr>secret_storages := (secret_storages g)(account \<mapsto> \<lparr>lz_secrets = Map.empty, authorized_endpoint = endpoint\<rparr>)\<rparr> else g),
     set_globals (\<lambda>g. if reveal_events g account = None
       then g\<lparr>reveal_events := (reveal_events g)(account \<mapsto> [])\<rparr> else g)]"

definition receive_secret_reveal :: "move_address \<Rightarrow> 32 word \<Rightarrow> bytes \<Rightarrow> bytes \<Rightarrow> bytes \<Rightarrow> unit escrow_move" where
  "receive_secret_reveal account src_chain_id escrow_id secret revealer_bytes =
     tx_bind borrow_secrets (\<lambda>ss.
       let reveal = \<lparr>rs_secret = secret, rs_revealer = 1, rs_src_chain_id = src_chain_id\<rparr>
       in tx_seq [
         require_that (account = authorized_endpoint ss) (Code 1),
         require_that (lz_secrets ss escrow_id = None) (Code 3),
         set_globals (\<lambda>g. g\<lparr>secret_storages := (secret_storages g)(fusion_plus \<mapsto>
           ss\<lparr>lz_secrets := (lz_secrets ss)(escrow_id \<mapsto> reveal)\<rparr>)\<rparr>),
         tx_bind (borrow NoResource (\<lambda>s. reveal_events (globals s) fusion_plus)) (\<lambda>evs.
           set_globals (\<lambda>g. g\<lparr>reveal_events := (reveal_events g)(fusion_plus \<mapsto> evs @ [(escrow_id, reveal)])\<rparr>))])"

definition send_secret_reveal :: "move_address \<Rightarrow> 32 word \<Rightarrow> bytes \<Rightarrow> bytes \<Rightarrow> unit escrow_move" where
  "send_secret_reveal account dst_chain_id escrow_id secret = tx_ret ()"

subsection \<open>Module escrow\_v3\<close>

definition resolver_authorized :: "move_address \<Rightarrow> unit escrow_move" where
  "resolver_authorized resolver = tx_bind borrow_registry (\<lambda>r.
     require_that (authorized_resolvers r resolver \<noteq> None) E_NOT_AUTHORIZED_RESOLVER)"

text \<open>A safety deposit that is only withdrawn when it is not zero.\<close>

definition optional_deposit :: "move_address \<Rightarrow> u64 \<Rightarrow> u64 escrow_move" where
  "optional_deposit who n = (if 0 < n then coin_withdraw who n else tx_ret 0)"

definition create_escrow_user_funded ::
  "u64 \<Rightarrow> move_address \<Rightarrow> bytes \<Rightarrow> move_address \<Rightarrow> u64 \<Rightarrow> bytes \<Rightarrow> u64 \<Rightarrow> u64 \<Rightarrow> move_address \<Rightarrow> unit escrow_move" where
  "create_escrow_user_funded time dep escrow_id ben amt lock until deposit_amount resolver = tx_seq [
     resolver_authorized resolver,
     store_exists,
     fresh_escrow time escrow_id amt until,
     tx_bind (coin_withdraw dep amt) (\<lambda>escrowed_coin.
     tx_bind (optional_deposit dep deposit_amount) (\<lambda>deposit.
       add_escrow escrow_id (new_move_escrow dep ben amt lock until deposit_amount escrowed_coin) deposit))]"

definition create_escrow_multi_agent ::
  "u64 \<Rightarrow> move_address \<Rightarrow> move_address \<Rightarrow> bytes \<Rightarrow> move_address \<Rightarrow> u64 \<Rightarrow> bytes \<Rightarrow> u64 \<Rightarrow> u64 \<Rightarrow> unit escrow_move" where
  "create_escrow_multi_agent time dep resolver escrow_id ben amt lock until deposit_amount = tx_seq [
     resolver_authorized resolver,
     store_exists,
     fresh_escrow time escrow_id amt until,
     tx_bind (coin_withdraw dep amt) (\<lambda>escrowed_coin.
     tx_bind (optional_deposit resolver deposit_amount) (\<lambda>deposit.
       add_escrow escrow_id (new_move_escrow dep ben amt lock until deposit_amount escrowed_coin) deposit))]"

definition create_escrow_gasless ::
  "u64 \<Rightarrow> move_address \<Rightarrow> move_address \<Rightarrow> bytes \<Rightarrow> move_address \<Rightarrow> u64 \<Rightarrow> bytes \<Rightarrow> u64 \<Rightarrow> u64 \<Rightarrow> unit escrow_move" where
  "create_escrow_gasless time dep resolver escrow_id ben amt lock until deposit_amount = tx_seq [
     resolver_authorized resolver,
     store_exists,
     fresh_escrow time escrow_id amt until,
     tx_bind (coin_withdraw dep amt) (\<lambda>escrowed_coin.
     tx_bind (optional_deposit resolver deposit_amount) (\<lambda>deposit.
       add_escrow escrow_id (new_move_escrow dep ben amt lock until deposit_amount escrowed_coin) deposit))]"

definition optional_release :: "bytes \<Rightarrow> move_address \<Rightarrow> unit escrow_move" where
  "optional_release escrow_id who = tx_bind borrow_store (\<lambda>st.
     case m_safety_deposits st escrow_id of
       None \<Rightarrow> tx_ret ()
     | Some c \<Rightarrow> tx_then (put_store (st\<lparr>m_safety_deposits := (m_safety_deposits st)(escrow_id := None)\<rparr>))
         (coin_deposit who c))"

definition v3_withdraw :: "move_address \<Rightarrow> bytes \<Rightarrow> bytes \<Rightarrow> unit escrow_move" where
  "v3_withdraw withdrawer escrow_id secret =
     tx_bind (open_escrow escrow_id) (\<lambda>e. tx_seq [
       require_that (length secret = 32) E_INVALID_SECRET,
       extract_to escrow_id (\<lambda>e. e\<lparr>m_withdrawn := True\<rparr>) (m_beneficiary e),
       optional_release escrow_id withdrawer])"

definition v3_escrow_exists :: "bytes \<Rightarrow> bool escrow_move" where
  "v3_escrow_exists escrow_id = tx_bind (read (\<lambda>s. escrow_stores (globals s) fusion_plus)) (\<lambda>st.
     tx_ret (case st of None \<Rightarrow> False | Some st \<Rightarrow> m_escrows st escrow_id \<noteq> None))"

definition v3_refund :: "u64 \<Rightarrow> move_address \<Rightarrow> bytes \<Rightarrow> unit escrow_move" where
  "v3_refund time refunder escrow_id =
     tx_bind (open_escrow escrow_id) (\<lambda>e. tx_seq [
       require_that (m_timelock e \<le> time) E_TIMELOCK_NOT_EXPIRED,
       extract_to escrow_id (\<lambda>e. e\<lparr>m_refunded := True\<rparr>) (m_depositor e),
       optional_release escrow_id refunder])"

definition v3_create_escrow_delegated ::
  "u64 \<Rightarrow> move_address \<Rightarrow> bytes \<Rightarrow> move_address \<Rightarrow> move_address \<Rightarrow> u64 \<Rightarrow> bytes \<Rightarrow> u64 \<Rightarrow> u64 \<Rightarrow> u64 \<Rightarrow> u64 \<Rightarrow> bytes \<Rightarrow> bytes \<Rightarrow>
   unit escrow_move" where
  "v3_create_escrow_delegated time resolver escrow_id dep ben amt lock until nonce expiry deposit_amount pubkey signature = tx_seq [
     delegated_checks time resolver dep nonce expiry pubkey signature,
     fresh_escrow time escrow_id amt until,
     check_balance dep amt,
     ensure_registered resolver,
     tx_bind (coin_withdraw resolver amt) (\<lambda>escrowed_coin.
     tx_bind (coin_withdraw resolver deposit_amount) (\<lambda>deposit.
       add_escrow escrow_id (new_move_escrow dep ben amt lock until deposit_amount escrowed_coin) deposit))]"

definition create_escrow_from_user_intent ::
  "u64 \<Rightarrow> move_address \<Rightarrow> bytes \<Rightarrow> move_address \<Rightarrow> move_address \<Rightarrow> u64 \<Rightarrow> bytes \<Rightarrow> u64 \<Rightarrow> u64 \<Rightarrow> u64 \<Rightarrow> u64 \<Rightarrow> bytes \<Rightarrow> bytes \<Rightarrow>
   unit escrow_move" where
  "create_escrow_from_user_intent time resolver escrow_id dep ben amt lock until nonce expiry deposit_amount pubkey signature = tx_seq [
     delegated_checks time resolver dep nonce expiry pubkey signature,
     fresh_escrow time escrow_id amt until,
     check_balance dep amt,
     tx_bind (coin_withdraw resolver amt) (\<lambda>escrowed_coin.
     tx_bind (optional_deposit resolver deposit_amount) (\<lambda>deposit.
       add_escrow escrow_id (new_move_escrow dep ben amt lock until deposit_amount escrowed_coin) deposit))]"

subsection \<open>What a store holds\<close>

definition move_phase :: "MoveEscrow option \<Rightarrow> phase" where
  "move_phase eo = (case eo of None \<Rightarrow> Absent
     | Some e \<Rightarrow> if m_withdrawn e then Paid else if m_refunded e then Returned else Open)"

definition move_terms :: "MoveEscrow option \<Rightarrow> (move_address \<times> move_address \<times> u64 \<times> bytes \<times> u64 \<times> u64) option" where
  "move_terms eo = map_option (\<lambda>e.
     (m_depositor e, m_beneficiary e, m_amount e, m_hashlock e, m_timelock e, m_safety_deposit e)) eo"

text \<open>
  An open escrow holds exactly its amount and its safety deposit, a settled one nothing.
\<close>

definition store_ok :: "EscrowStore \<Rightarrow> bool" where
  "store_ok st \<longleftrightarrow> finite (dom (m_escrows st)) \<and> finite (dom (m_safety_deposits st)) \<and>
     (\<forall>i. m_escrows st i = None \<longrightarrow> m_safety_deposits st i = None) \<and>
     (\<forall>i e. m_escrows st i = Some e \<longrightarrow>
        (if m_withdrawn e \<or> m_refunded e then m_escrowed_coin e = 0 \<and> m_safety_deposits st i = None
         else m_escrowed_coin e = m_amount e \<and> m_safety_deposits st i = Some (m_safety_deposit e)))"

abbreviation the_store :: "escrow_globals aptos \<Rightarrow> EscrowStore option" where
  "the_store s \<equiv> escrow_stores (globals s) fusion_plus"

definition escrow_at :: "escrow_globals aptos \<Rightarrow> bytes \<Rightarrow> MoveEscrow option" where
  "escrow_at s i = (case the_store s of None \<Rightarrow> None | Some st \<Rightarrow> m_escrows st i)"

definition move_inv :: "escrow_globals aptos \<Rightarrow> bool" where
  "move_inv s \<longleftrightarrow> (case the_store s of None \<Rightarrow> True | Some st \<Rightarrow> store_ok st)"

definition store_total :: "EscrowStore option \<Rightarrow> nat" where
  "store_total so = (case so of None \<Rightarrow> 0
     | Some st \<Rightarrow> table_total (\<lambda>e. unat (m_escrowed_coin e)) (m_escrows st) + table_total unat (m_safety_deposits st))"

definition move_total :: "escrow_globals aptos \<Rightarrow> nat" where
  "move_total s = accounts_total (coins s) + store_total (the_store s)"

definition empty_store :: EscrowStore where
  "empty_store = \<lparr>m_escrows = Map.empty, m_safety_deposits = Map.empty\<rparr>"

text \<open>What an entry function does to the store, and what that takes from or gives to the accounts.\<close>

definition entered :: "EscrowStore \<Rightarrow> bytes \<Rightarrow> MoveEscrow \<Rightarrow> EscrowStore" where
  "entered st i e = st\<lparr>m_escrows := (m_escrows st)(i \<mapsto> e), m_safety_deposits := (m_safety_deposits st)(i \<mapsto> m_safety_deposit e)\<rparr>"

definition emptied :: "EscrowStore \<Rightarrow> bytes \<Rightarrow> MoveEscrow \<Rightarrow> EscrowStore" where
  "emptied st i e = st\<lparr>m_escrows := (m_escrows st)(i \<mapsto> e), m_safety_deposits := (m_safety_deposits st)(i := None)\<rparr>"

inductive move_effect :: "escrow_globals aptos \<Rightarrow> escrow_globals aptos \<Rightarrow> bool" where
  same: "the_store t = the_store s \<Longrightarrow> accounts_total (coins t) = accounts_total (coins s) \<Longrightarrow> move_effect s t"
| init: "the_store s = None \<Longrightarrow> the_store t = Some empty_store \<Longrightarrow>
    accounts_total (coins t) = accounts_total (coins s) \<Longrightarrow> move_effect s t"
| enter: "the_store s = Some st \<Longrightarrow> m_escrows st i = None \<Longrightarrow> \<not> m_withdrawn e \<Longrightarrow> \<not> m_refunded e \<Longrightarrow>
    m_escrowed_coin e = m_amount e \<Longrightarrow> the_store t = Some (entered st i e) \<Longrightarrow>
    accounts_total (coins t) + unat (m_amount e) + unat (m_safety_deposit e) = accounts_total (coins s) \<Longrightarrow>
    move_effect s t"
| settle: "the_store s = Some st \<Longrightarrow> m_escrows st i = Some e \<Longrightarrow> \<not> m_withdrawn e \<Longrightarrow> \<not> m_refunded e \<Longrightarrow>
    e' = e\<lparr>m_withdrawn := True, m_escrowed_coin := 0\<rparr> \<or> e' = e\<lparr>m_refunded := True, m_escrowed_coin := 0\<rparr> \<Longrightarrow>
    the_store t = Some (emptied st i e') \<Longrightarrow>
    accounts_total (coins t) = accounts_total (coins s) + unat (m_amount e) + unat (m_safety_deposit e) \<Longrightarrow>
    move_effect s t"

lemma store_okD:
  assumes "store_ok st" "m_escrows st i = Some e" "\<not> m_withdrawn e" "\<not> m_refunded e"
  shows "m_escrowed_coin e = m_amount e" "m_safety_deposits st i = Some (m_safety_deposit e)"
  using assms unfolding store_ok_def by (metis (full_types))+

lemma move_effect_inv: "move_effect s t \<Longrightarrow> move_inv s \<Longrightarrow> move_inv t"
proof (induction rule: move_effect.induct)
  case (init s t)
  then show "move_inv t" by (simp add: move_inv_def empty_store_def store_ok_def)
next
  case (enter s st i e t)
  from \<open>move_inv s\<close> enter(1) have ok: "store_ok st" by (simp add: move_inv_def)
  have "store_ok (entered st i e)"
    using ok enter(3-5) unfolding store_ok_def entered_def by (auto split: if_splits)
  with enter(6) show "move_inv t" by (simp add: move_inv_def)
next
  case (settle s st i e e' t)
  from \<open>move_inv s\<close> settle(1) have ok: "store_ok st" by (simp add: move_inv_def)
  have "m_escrowed_coin e' = 0 \<and> (m_withdrawn e' \<or> m_refunded e')" using settle(5) by auto
  with ok have "store_ok (emptied st i e')"
    unfolding store_ok_def emptied_def by (auto split: if_splits)
  with settle(6) show "move_inv t" by (simp add: move_inv_def)
qed (auto simp: move_inv_def)

lemma move_effect_total: "move_effect s t \<Longrightarrow> move_inv s \<Longrightarrow> move_total t = move_total s"
proof (induction rule: move_effect.induct)
  case (enter s st i e t)
  from \<open>move_inv s\<close> enter(1) have ok: "store_ok st" by (simp add: move_inv_def)
  then have f: "finite (dom (m_escrows st))" "finite (dom (m_safety_deposits st))" "m_safety_deposits st i = None"
    using enter(2) by (simp_all add: store_ok_def)
  have "store_total (the_store t) = store_total (the_store s) + unat (m_amount e) + unat (m_safety_deposit e)"
    using enter(1,5,6) table_total_add[OF f(1) enter(2)] table_total_add[OF f(2,3)]
    by (simp add: store_total_def entered_def)
  with enter(7) show "move_total t = move_total s" by (simp add: move_total_def)
next
  case (settle s st i e e' t)
  from \<open>move_inv s\<close> settle(1) have ok: "store_ok st" by (simp add: move_inv_def)
  then have f: "finite (dom (m_escrows st))" "finite (dom (m_safety_deposits st))" by (simp_all add: store_ok_def)
  note c = store_okD[OF ok settle(2-4)]
  have "m_escrowed_coin e' = 0" using settle(5) by auto
  then have "store_total (the_store t) + unat (m_amount e) + unat (m_safety_deposit e) = store_total (the_store s)"
    using settle(1,6) c table_total_set[OF f(1) settle(2), of "\<lambda>e. unat (m_escrowed_coin e)" e']
      table_total_remove[OF f(2) c(2), of unat]
    by (simp add: store_total_def emptied_def)
  with settle(7) show "move_total t = move_total s" by (simp add: move_total_def)
qed (auto simp: move_total_def store_total_def empty_store_def)

lemma move_effect_phase: "move_effect s t \<Longrightarrow> phase_step (move_phase (escrow_at s i)) (move_phase (escrow_at t i))"
  by (induction rule: move_effect.induct)
    (auto simp: escrow_at_def move_phase_def entered_def emptied_def empty_store_def)

lemma move_effect_terms:
  "move_effect s t \<Longrightarrow> move_phase (escrow_at s i) \<noteq> Absent \<Longrightarrow> move_terms (escrow_at t i) = move_terms (escrow_at s i)"
  by (induction rule: move_effect.induct)
    (auto simp: escrow_at_def move_phase_def move_terms_def entered_def emptied_def empty_store_def split: option.splits if_splits)

subsection \<open>The effect of the entry functions\<close>

text \<open>Code that takes exactly \<open>n\<close> coins from an account and nothing else.\<close>

definition takes :: "u64 \<Rightarrow> u64 escrow_move \<Rightarrow> bool" where
  "takes n w \<longleftrightarrow> (\<forall>s c t. w s = Inr (c, t) \<longrightarrow>
     c = n \<and> globals t = globals s \<and> accounts_total (coins t) + unat n = accounts_total (coins s))"

lemma takesD:
  "takes n w \<Longrightarrow> w s = Inr (c, t) \<Longrightarrow>
   c = n \<and> globals t = globals s \<and> accounts_total (coins t) + unat n = accounts_total (coins s)"
  unfolding takes_def by blast

lemma takes_withdraw: "takes n (coin_withdraw a n)"
  unfolding takes_def by (blast dest: coin_withdraw_Inr)

lemma takes_optional: "takes n (optional_deposit a n)"
proof (cases "0 < n")
  case True
  then show ?thesis by (simp add: optional_deposit_def takes_withdraw)
next
  case False
  then have "n = 0" by (simp add: word_gt_0)
  then show ?thesis by (simp add: optional_deposit_def takes_def tx_ret_def)
qed

lemma create_effect:
  assumes run: "tx_bind w1 (\<lambda>escrowed_coin. tx_bind w2 (\<lambda>deposit.
      add_escrow i (new_move_escrow dep ben amt lock until n escrowed_coin) deposit)) s = Inr (x, t)"
    and w: "takes amt w1" "takes n w2"
  shows "move_effect s t \<and> escrow_at t i = Some (new_move_escrow dep ben amt lock until n amt)"
proof -
  let ?e = "new_move_escrow dep ben amt lock until n amt"
  from run obtain c1 s1 where s1: "w1 s = Inr (c1, s1)" and run1: "tx_bind w2 (\<lambda>deposit.
      add_escrow i (new_move_escrow dep ben amt lock until n c1) deposit) s1 = Inr (x, t)" by (auto simp: tx_bind_Inr)
  from run1 obtain c2 s2 where s2: "w2 s1 = Inr (c2, s2)" and run2: "add_escrow i (new_move_escrow dep ben amt lock until n c1) c2 s2 = Inr (x, t)"
    by (auto simp: tx_bind_Inr)
  have a: "c1 = amt" "c2 = n" "globals s2 = globals s"
    "accounts_total (coins s2) + unat amt + unat n = accounts_total (coins s)"
    using takesD[OF w(1) s1] takesD[OF w(2) s2] by simp_all
  obtain st where st: "the_store s = Some st" "m_escrows st i = None"
    and t: "the_store t = Some (entered st i ?e)" "coins t = coins s2"
    using run2 a(1-3) by (auto simp: add_escrow_def tx_runs entered_def new_move_escrow_def split: if_splits option.splits)
  have "move_effect s t"
    by (rule enter[of s st i ?e t]) (use st t a in \<open>auto simp: new_move_escrow_def\<close>)
  then show ?thesis using t by (simp add: escrow_at_def entered_def)
qed

text \<open>Code that leaves the store and the sum of all accounts alone.\<close>

definition neutral :: "unit escrow_move \<Rightarrow> bool" where
  "neutral f \<longleftrightarrow> (\<forall>s t x. f s = Inr (x, t) \<longrightarrow> the_store t = the_store s \<and> accounts_total (coins t) = accounts_total (coins s))"

lemma neutral_then:
  assumes "tx_bind f g s = Inr (x, t)" "neutral f" "\<And>s1. g () s1 = Inr (x, t) \<Longrightarrow> move_effect s1 t"
  shows "move_effect s t"
proof -
  from assms(1) obtain s1 where s1: "f s = Inr ((), s1)" "g () s1 = Inr (x, t)" by (auto simp: tx_bind_Inr)
  with assms(2) have eq: "the_store s1 = the_store s" "accounts_total (coins s1) = accounts_total (coins s)"
    by (auto simp: neutral_def)
  from assms(3)[OF s1(2)] show ?thesis
  proof (cases rule: move_effect.cases)
    case same
    then show ?thesis using eq by (intro move_effect.same) simp_all
  next
    case init
    then show ?thesis using eq by (intro move_effect.init) simp_all
  next
    case (enter st i e)
    then show ?thesis using eq by (intro move_effect.enter[of s st i e]) simp_all
  next
    case (settle st i e e')
    then show ?thesis using eq by (intro move_effect.settle[of s st i e e']) simp_all
  qed
qed

lemma neutral_checks [simp, intro]:
  "neutral store_exists" "neutral (fresh_escrow time i amt until)" "neutral (require_that b e)" "neutral (tx_ret ())"
  "neutral (resolver_authorized r)" "neutral (check_balance d amt)"
  "neutral (delegated_checks time r d n ex pk sg)"
  by (auto simp: neutral_def store_exists_def fresh_escrow_def resolver_authorized_def check_balance_def
      coin_balance_def delegated_checks_def tx_runs split: if_splits option.splits)

lemma neutral_register [simp, intro]: "neutral (ensure_registered a)"
proof -
  have "accounts_total ((coins s)(a \<mapsto> 0)) = accounts_total (coins s)" if "coins s a = None" for s :: "escrow_globals aptos"
    using accounts_total_upd[of "coins s" a "Some 0"] that by simp
  then show ?thesis by (auto simp: neutral_def ensure_registered_def coin_register_def tx_runs split: if_splits)
qed

lemma tx_seq_head: "tx_seq (f # g # fs) s = tx_bind f (\<lambda>_. tx_seq (g # fs)) s"
  by (simp add: tx_seq.simps tx_then_def)

lemmas create_defs = move_create_escrow_def move_create_escrow_delegated_def create_escrow_user_funded_def
  create_escrow_multi_agent_def create_escrow_gasless_def v3_create_escrow_delegated_def create_escrow_from_user_intent_def

lemmas neutral_parts = neutral_checks neutral_register

lemma move_create_effect: "move_create_escrow time d i b a h u n s = Inr (x, t) \<Longrightarrow> move_effect s t"
  unfolding create_defs tx_seq_head tx_seq_last
  by (erule neutral_then, rule neutral_parts)+ (blast dest: create_effect intro: takes_withdraw takes_optional)

lemma move_delegated_effect: "move_create_escrow_delegated time r i d b a h u nn ex n pk sg s = Inr (x, t) \<Longrightarrow> move_effect s t"
  unfolding create_defs tx_seq_head tx_seq_last
  by (erule neutral_then, rule neutral_parts)+ (blast dest: create_effect intro: takes_withdraw takes_optional)

lemma user_funded_effect: "create_escrow_user_funded time d i b a h u n r s = Inr (x, t) \<Longrightarrow> move_effect s t"
  unfolding create_defs tx_seq_head tx_seq_last
  by (erule neutral_then, rule neutral_parts)+ (blast dest: create_effect intro: takes_withdraw takes_optional)

lemma multi_agent_effect: "create_escrow_multi_agent time d r i b a h u n s = Inr (x, t) \<Longrightarrow> move_effect s t"
  unfolding create_defs tx_seq_head tx_seq_last
  by (erule neutral_then, rule neutral_parts)+ (blast dest: create_effect intro: takes_withdraw takes_optional)

lemma gasless_effect: "create_escrow_gasless time d r i b a h u n s = Inr (x, t) \<Longrightarrow> move_effect s t"
  unfolding create_defs tx_seq_head tx_seq_last
  by (erule neutral_then, rule neutral_parts)+ (blast dest: create_effect intro: takes_withdraw takes_optional)

lemma v3_delegated_effect: "v3_create_escrow_delegated time r i d b a h u nn ex n pk sg s = Inr (x, t) \<Longrightarrow> move_effect s t"
  unfolding create_defs tx_seq_head tx_seq_last
  by (erule neutral_then, rule neutral_parts)+ (blast dest: create_effect intro: takes_withdraw takes_optional)

lemma user_intent_effect: "create_escrow_from_user_intent time r i d b a h u nn ex n pk sg s = Inr (x, t) \<Longrightarrow> move_effect s t"
  unfolding create_defs tx_seq_head tx_seq_last
  by (erule neutral_then, rule neutral_parts)+ (blast dest: create_effect intro: takes_withdraw takes_optional)

lemma open_escrow_run [tx_runs]:
  "tx_bind (open_escrow i) g s =
     (case the_store s of None \<Rightarrow> Inl NoResource
      | Some st \<Rightarrow> (case m_escrows st i of None \<Rightarrow> Inl E_ESCROW_NOT_FOUND
        | Some e \<Rightarrow> if m_withdrawn e then Inl E_ALREADY_WITHDRAWN
            else if m_refunded e then Inl E_ALREADY_REFUNDED else g e s))"
  by (simp add: open_escrow_def tx_runs split: option.splits)

definition is_release :: "(bytes \<Rightarrow> move_address \<Rightarrow> unit escrow_move) \<Rightarrow> bool" where
  "is_release rel \<longleftrightarrow> rel = release_deposit \<or> rel = optional_release"

text \<open>The state after a payout: the escrow is marked and emptied, two accounts have received coins.\<close>

definition paid_out :: "escrow_globals aptos \<Rightarrow> bytes \<Rightarrow> EscrowStore \<Rightarrow> MoveEscrow \<Rightarrow> (move_address \<Rightarrow> u64 option) \<Rightarrow> escrow_globals aptos" where
  "paid_out s i st e c = s\<lparr>coins := c, globals := (globals s)\<lparr>escrow_stores := (escrow_stores (globals s))(fusion_plus \<mapsto> emptied st i e)\<rparr>\<rparr>"

lemma payout_exact:
  assumes inv: "store_ok st" and st: "the_store s = Some st" "m_escrows st i = Some e" "\<not> m_withdrawn e" "\<not> m_refunded e"
    and rel: "is_release rel" and n: "n = m_amount e" "d = m_safety_deposit e"
  shows "tx_seq [extract_to i mark to, rel i who] s = Inr (x, t) \<longleftrightarrow>
    (\<exists>b1 b2. coins s to = Some b1 \<and> unat b1 + unat n < 2 ^ 64 \<and>
       ((coins s)(to \<mapsto> b1 + n)) who = Some b2 \<and> unat b2 + unat d < 2 ^ 64 \<and>
       t = paid_out s i st ((mark e)\<lparr>m_escrowed_coin := 0\<rparr>) ((coins s)(to \<mapsto> b1 + n, who \<mapsto> b2 + d)))"
proof -
  note c = store_okD[OF inv st(2-4)]
  have "tx_seq [extract_to i mark to, rel i who] s =
    (case coins s to of None \<Rightarrow> Inl CoinAbort
     | Some b1 \<Rightarrow> if unat b1 + unat n < 2 ^ 64 then
         (case ((coins s)(to \<mapsto> b1 + n)) who of None \<Rightarrow> Inl CoinAbort
          | Some b2 \<Rightarrow> if unat b2 + unat d < 2 ^ 64 then
              Inr ((), paid_out s i st ((mark e)\<lparr>m_escrowed_coin := 0\<rparr>) ((coins s)(to \<mapsto> b1 + n, who \<mapsto> b2 + d)))
            else Inl ArithmeticAbort) else Inl ArithmeticAbort)"
    using rel st c n unfolding is_release_def
    by (auto simp: extract_to_def release_deposit_def optional_release_def tx_runs coin_deposit_run paid_out_def emptied_def split: option.splits)
  then show ?thesis by (auto split: option.splits if_splits)
qed

lemma payout_effect:
  assumes inv: "move_inv s" and st: "the_store s = Some st" "m_escrows st i = Some e" "\<not> m_withdrawn e" "\<not> m_refunded e"
    and rel: "is_release rel" and mark: "mark = m_withdrawn_update (\<lambda>_. True) \<or> mark = m_refunded_update (\<lambda>_. True)"
    and run: "tx_seq [extract_to i mark to, rel i who] s = Inr (x, t)"
  shows "move_effect s t"
proof -
  have ok: "store_ok st" using inv st(1) by (simp add: move_inv_def)
  obtain b1 b2 where b: "coins s to = Some b1" "unat b1 + unat (m_amount e) < 2 ^ 64"
      "((coins s)(to \<mapsto> b1 + m_amount e)) who = Some b2" "unat b2 + unat (m_safety_deposit e) < 2 ^ 64"
    and t: "t = paid_out s i st ((mark e)\<lparr>m_escrowed_coin := 0\<rparr>) ((coins s)(to \<mapsto> b1 + m_amount e, who \<mapsto> b2 + m_safety_deposit e))"
    using run payout_exact[OF ok st rel refl refl] by blast
  have "accounts_total ((coins s)(to \<mapsto> b1 + m_amount e)) = accounts_total (coins s) + unat (m_amount e)"
    by (rule accounts_total_paid) (fact b)+
  moreover have "accounts_total ((coins s)(to \<mapsto> b1 + m_amount e, who \<mapsto> b2 + m_safety_deposit e)) =
      accounts_total ((coins s)(to \<mapsto> b1 + m_amount e)) + unat (m_safety_deposit e)"
    by (rule accounts_total_paid) (fact b)+
  ultimately show ?thesis
    by (intro settle[of s st i e "(mark e)\<lparr>m_escrowed_coin := 0\<rparr>" t]) (use st t mark in \<open>auto simp: paid_out_def\<close>)
qed

lemma is_release_simps [simp, intro]: "is_release release_deposit" "is_release optional_release"
  by (simp_all add: is_release_def)

lemma move_withdraw_effect:
  assumes "move_withdraw w i x s = Inr (y, t)" "move_inv s"
  shows "move_effect s t"
proof -
  obtain st e where st: "the_store s = Some st" "m_escrows st i = Some e" "\<not> m_withdrawn e" "\<not> m_refunded e"
    and run: "tx_seq [extract_to i (\<lambda>e. e\<lparr>m_withdrawn := True\<rparr>) (m_beneficiary e), release_deposit i w] s = Inr (y, t)"
    using assms(1) unfolding move_withdraw_def open_escrow_run tx_seq_require by (auto split: option.splits if_splits)
  show ?thesis by (rule payout_effect[OF assms(2) st is_release_simps(1) _ run]) simp
qed

lemma v3_withdraw_effect:
  assumes "v3_withdraw w i x s = Inr (y, t)" "move_inv s"
  shows "move_effect s t"
proof -
  obtain st e where st: "the_store s = Some st" "m_escrows st i = Some e" "\<not> m_withdrawn e" "\<not> m_refunded e"
    and run: "tx_seq [extract_to i (\<lambda>e. e\<lparr>m_withdrawn := True\<rparr>) (m_beneficiary e), optional_release i w] s = Inr (y, t)"
    using assms(1) unfolding v3_withdraw_def open_escrow_run tx_seq_require by (auto split: option.splits if_splits)
  show ?thesis by (rule payout_effect[OF assms(2) st is_release_simps(2) _ run]) simp
qed

lemma move_refund_effect:
  assumes "move_refund time w i s = Inr (y, t)" "move_inv s"
  shows "move_effect s t"
proof -
  obtain st e where st: "the_store s = Some st" "m_escrows st i = Some e" "\<not> m_withdrawn e" "\<not> m_refunded e"
    and run: "tx_seq [extract_to i (\<lambda>e. e\<lparr>m_refunded := True\<rparr>) (m_depositor e), release_deposit i w] s = Inr (y, t)"
    using assms(1) unfolding move_refund_def open_escrow_run tx_seq_require by (auto split: option.splits if_splits)
  show ?thesis by (rule payout_effect[OF assms(2) st is_release_simps(1) _ run]) simp
qed

lemma v3_refund_effect:
  assumes "v3_refund time w i s = Inr (y, t)" "move_inv s"
  shows "move_effect s t"
proof -
  obtain st e where st: "the_store s = Some st" "m_escrows st i = Some e" "\<not> m_withdrawn e" "\<not> m_refunded e"
    and run: "tx_seq [extract_to i (\<lambda>e. e\<lparr>m_refunded := True\<rparr>) (m_depositor e), optional_release i w] s = Inr (y, t)"
    using assms(1) unfolding v3_refund_def open_escrow_run tx_seq_require by (auto split: option.splits if_splits)
  show ?thesis by (rule payout_effect[OF assms(2) st is_release_simps(2) _ run]) simp
qed

lemma move_cross_effect:
  assumes "move_withdraw_cross_chain w i s = Inr (y, t)" "move_inv s"
  shows "move_effect s t"
proof -
  obtain st e where st: "the_store s = Some st" "m_escrows st i = Some e" "\<not> m_withdrawn e" "\<not> m_refunded e"
    and run: "tx_seq [extract_to i (\<lambda>e. e\<lparr>m_withdrawn := True\<rparr>) (m_beneficiary e), release_deposit i w] s = Inr (y, t)"
    using assms(1) unfolding move_withdraw_cross_chain_def open_escrow_run
    by (auto simp: tx_seq_head[of f "extract_to a b c" for f a b c] tx_seq_head[of f "tx_bind a b" for f a b]
        has_secret_revealed_def get_revealed_secret_def tx_bind_assoc borrow_secrets_def borrow_run tx_bind_ret require_run
        split: option.splits if_splits prod.splits)
  show ?thesis by (rule payout_effect[OF assms(2) st is_release_simps(1) _ run]) simp
qed

lemma neutral_effect: "neutral f \<Longrightarrow> f s = Inr (x, t) \<Longrightarrow> move_effect s t"
  by (auto simp: neutral_def intro: same)

lemma neutral_admin [simp, intro]:
  "neutral (add_authorized_resolver a r)" "neutral (remove_authorized_resolver a r)" "neutral (lz_initialize a p)"
  "neutral (receive_secret_reveal a c i x v)" "neutral (send_secret_reveal a c i x)"
  by (auto simp: neutral_def add_authorized_resolver_def remove_authorized_resolver_def lz_initialize_def
      receive_secret_reveal_def send_secret_reveal_def tx_runs Let_def split: if_splits option.splits)

lemma move_initialize_effect: "move_initialize a s = Inr (x, t) \<Longrightarrow> move_effect s t"
  by (cases "a = fusion_plus")
    (auto simp: move_initialize_def tx_runs empty_store_def split: if_splits intro: same init)

subsection \<open>Entry functions in sequence\<close>

datatype escrow_entry =
    Initialize move_address
  | AddResolver move_address move_address
  | RemoveResolver move_address move_address
  | Create move_address bytes move_address u64 bytes u64 u64
  | CreateDelegated move_address bytes move_address move_address u64 bytes u64 u64 u64 u64 bytes bytes
  | WithdrawWith move_address bytes bytes
  | WithdrawCrossChain move_address bytes
  | RefundTo move_address bytes
  | LzInitialize move_address move_address
  | LzReceive move_address "32 word" bytes bytes bytes

datatype v3_entry =
    V3Initialize move_address
  | V3AddResolver move_address move_address
  | CreateUserFunded move_address bytes move_address u64 bytes u64 u64 move_address
  | CreateMultiAgent move_address move_address bytes move_address u64 bytes u64 u64
  | CreateGasless move_address move_address bytes move_address u64 bytes u64 u64
  | V3CreateDelegated move_address bytes move_address move_address u64 bytes u64 u64 u64 u64 bytes bytes
  | CreateFromUserIntent move_address bytes move_address move_address u64 bytes u64 u64 u64 u64 bytes bytes
  | V3Withdraw move_address bytes bytes
  | V3Refund move_address bytes

fun escrow_call :: "u64 \<Rightarrow> escrow_entry \<Rightarrow> unit escrow_move" where
  "escrow_call time (Initialize a) = move_initialize a"
| "escrow_call time (AddResolver a r) = add_authorized_resolver a r"
| "escrow_call time (RemoveResolver a r) = remove_authorized_resolver a r"
| "escrow_call time (Create d i b a h u n) = move_create_escrow time d i b a h u n"
| "escrow_call time (CreateDelegated r i d b a h u nn ex n pk sg) =
     move_create_escrow_delegated time r i d b a h u nn ex n pk sg"
| "escrow_call time (WithdrawWith w i x) = move_withdraw w i x"
| "escrow_call time (WithdrawCrossChain w i) = move_withdraw_cross_chain w i"
| "escrow_call time (RefundTo w i) = move_refund time w i"
| "escrow_call time (LzInitialize a p) = lz_initialize a p"
| "escrow_call time (LzReceive a c i x v) = receive_secret_reveal a c i x v"

fun v3_entry_call :: "u64 \<Rightarrow> v3_entry \<Rightarrow> unit escrow_move" where
  "v3_entry_call time (V3Initialize a) = move_initialize a"
| "v3_entry_call time (V3AddResolver a r) = add_authorized_resolver a r"
| "v3_entry_call time (CreateUserFunded d i b a h u n r) = create_escrow_user_funded time d i b a h u n r"
| "v3_entry_call time (CreateMultiAgent d r i b a h u n) = create_escrow_multi_agent time d r i b a h u n"
| "v3_entry_call time (CreateGasless d r i b a h u n) = create_escrow_gasless time d r i b a h u n"
| "v3_entry_call time (V3CreateDelegated r i d b a h u nn ex n pk sg) =
     v3_create_escrow_delegated time r i d b a h u nn ex n pk sg"
| "v3_entry_call time (CreateFromUserIntent r i d b a h u nn ex n pk sg) =
     create_escrow_from_user_intent time r i d b a h u nn ex n pk sg"
| "v3_entry_call time (V3Withdraw w i x) = v3_withdraw w i x"
| "v3_entry_call time (V3Refund w i) = v3_refund time w i"

abbreviation "escrow_step \<equiv> aptos_step escrow_call"
abbreviation "v3_step \<equiv> aptos_step v3_entry_call"

lemmas move_effects = move_create_effect move_delegated_effect move_withdraw_effect move_cross_effect
  move_refund_effect move_initialize_effect user_funded_effect multi_agent_effect gasless_effect
  v3_delegated_effect user_intent_effect v3_withdraw_effect v3_refund_effect
  neutral_effect[OF neutral_admin(1)] neutral_effect[OF neutral_admin(2)] neutral_effect[OF neutral_admin(3)]
  neutral_effect[OF neutral_admin(4)]

lemma escrow_call_effect: "escrow_call time k s = Inr (x, t) \<Longrightarrow> move_inv s \<Longrightarrow> move_effect s t"
  by (cases k) (auto dest: move_effects)

lemma v3_call_effect: "v3_entry_call time k s = Inr (x, t) \<Longrightarrow> move_inv s \<Longrightarrow> move_effect s t"
  by (cases k) (auto dest: move_effects)

lemma aptos_step_effect:
  assumes "\<And>time k x t. call time k s = Inr (x, t) \<Longrightarrow> move_effect s t" "aptos_ok s ev"
  shows "move_effect s (aptos_step call s ev)"
proof (cases ev)
  case (Call time k)
  show ?thesis unfolding Call aptos_step.simps
    by (rule outcome_cases[of "call time k" s]) (auto intro: assms(1) same)
qed (use assms(2) in \<open>auto intro: same\<close>)

lemma escrow_step_effect: "move_inv s \<Longrightarrow> aptos_ok s ev \<Longrightarrow> move_effect s (escrow_step s ev)"
  by (rule aptos_step_effect) (auto intro: escrow_call_effect)

lemma v3_step_effect: "move_inv s \<Longrightarrow> aptos_ok s ev \<Longrightarrow> move_effect s (v3_step s ev)"
  by (rule aptos_step_effect) (auto intro: v3_call_effect)

interpretation escrow_lock: htlc escrow_step aptos_ok move_inv
  "\<lambda>s i. move_phase (escrow_at s i)" "\<lambda>s i. move_terms (escrow_at s i)"
  by unfold_locales
    (blast intro: move_effect_inv escrow_step_effect, blast intro: move_effect_phase escrow_step_effect,
     blast intro: move_effect_terms escrow_step_effect)

interpretation v3_lock: htlc v3_step aptos_ok move_inv
  "\<lambda>s i. move_phase (escrow_at s i)" "\<lambda>s i. move_terms (escrow_at s i)"
  by unfold_locales
    (blast intro: move_effect_inv v3_step_effect, blast intro: move_effect_phase v3_step_effect,
     blast intro: move_effect_terms v3_step_effect)

subsection \<open>Properties\<close>

lemma escrow_run_total:
  "move_inv s \<Longrightarrow> legal_run escrow_step aptos_ok s es \<Longrightarrow> move_total (foldl escrow_step s es) = move_total s"
  by (rule escrow_lock.run_rel[where R = "\<lambda>s t. move_total t = move_total s"])
    (auto intro: move_effect_total escrow_step_effect)

lemma v3_run_total:
  "move_inv s \<Longrightarrow> legal_run v3_step aptos_ok s es \<Longrightarrow> move_total (foldl v3_step s es) = move_total s"
  by (rule v3_lock.run_rel[where R = "\<lambda>s t. move_total t = move_total s"])
    (auto intro: move_effect_total v3_step_effect)

text \<open>The coins the store keeps under an identifier: those of the escrow and its safety deposit.\<close>

definition holding :: "escrow_globals aptos \<Rightarrow> bytes \<Rightarrow> nat" where
  "holding s i = (case the_store s of None \<Rightarrow> 0
     | Some st \<Rightarrow> (case m_escrows st i of None \<Rightarrow> 0 | Some e \<Rightarrow> unat (m_escrowed_coin e)) +
         (case m_safety_deposits st i of None \<Rightarrow> 0 | Some c \<Rightarrow> unat c))"

lemma holding_exact:
  assumes "move_inv s"
  shows "holding s i = (case escrow_at s i of None \<Rightarrow> 0
    | Some e \<Rightarrow> if m_withdrawn e \<or> m_refunded e then 0 else unat (m_amount e) + unat (m_safety_deposit e))"
proof (cases "the_store s")
  case (Some st)
  with assms have "store_ok st" by (simp add: move_inv_def)
  then show ?thesis using Some by (cases "m_escrows st i") (auto simp: store_ok_def holding_def escrow_at_def)
qed (simp add: holding_def escrow_at_def)

lemma no_store_inv: "the_store s = None \<Longrightarrow> move_inv s"
  by (simp add: move_inv_def)

definition demo_secret :: bytes where
  "demo_secret = replicate 32 7"

definition demo_aptos :: "escrow_globals aptos" where
  "demo_aptos = \<lparr>coins = (\<lambda>a. if a = 1 then Some 1000 else if a = 2 then Some 0 else if a = 3 then Some 500 else None),
     globals = \<lparr>escrow_stores = Map.empty, registries = Map.empty, secret_storages = Map.empty, reveal_events = Map.empty\<rparr>\<rparr>"

definition demo_setup :: "escrow_entry aptos_event list" where
  "demo_setup = [Call 5 (Initialize fusion_plus), Call 10 (Create 1 [9] 2 100 [6] 50 20)]"

definition demo_v3_setup :: "v3_entry aptos_event list" where
  "demo_v3_setup = [Call 5 (V3Initialize fusion_plus), Call 6 (V3AddResolver fusion_plus 3),
     Call 10 (CreateGasless 1 3 [9] 2 100 [6] 50 20)]"

lemma demo_setup_legal: "legal_run escrow_step aptos_ok demo_aptos demo_setup" "legal_run v3_step aptos_ok demo_aptos demo_v3_setup"
  by (simp_all add: demo_setup_def demo_v3_setup_def)

lemma demo_aptos_empty: "the_store demo_aptos = None"
  by (simp add: demo_aptos_def)

text \<open>
  C3. Coins are conserved and every open escrow is fully funded, in both modules. Whatever entry
  functions are called, in any order and by anybody, and whatever happens elsewhere: the coins of
  all accounts and of the store together stay the same, an open escrow has exactly its amount and
  its safety deposit in the store, and a settled or unknown one has nothing there.
\<close>

theorem move_escrows_funded:
  assumes "the_store s = None" "legal_run escrow_step aptos_ok s es" "legal_run v3_step aptos_ok s fs"
    and "t = foldl escrow_step s es \<or> t = foldl v3_step s fs"
  shows "move_total t = accounts_total (coins s) \<and>
    holding t i = (case escrow_at t i of None \<Rightarrow> 0
      | Some e \<Rightarrow> if m_withdrawn e \<or> m_refunded e then 0 else unat (m_amount e) + unat (m_safety_deposit e))"
proof -
  note s = no_store_inv[OF assms(1)]
  have "move_inv t" using assms(4) escrow_lock.run_inv[OF s assms(2)] v3_lock.run_inv[OF s assms(3)] by blast
  moreover have "move_total t = move_total s" using assms(4) escrow_run_total[OF s assms(2)] v3_run_total[OF s assms(3)] by blast
  ultimately show ?thesis using holding_exact[of t i] assms(1) by (simp add: move_total_def store_total_def)
qed

theorem move_escrows_funded_witness: "holding (foldl v3_step demo_aptos demo_v3_setup) [9] = 120"
proof -
  have "escrow_at (foldl v3_step demo_aptos demo_v3_setup) [9] = Some (new_move_escrow 1 2 100 [6] 50 20 100)" by code_simp
  then show ?thesis
    using move_escrows_funded[OF demo_aptos_empty demo_setup_legal, of "foldl v3_step demo_aptos demo_v3_setup" "[9]"]
    by (simp add: new_move_escrow_def)
qed

text \<open>
  An escrow of either module is settled at most once, by a withdrawal, a cross-chain
  withdrawal or a refund, in any sequence of entry functions, and its parties, amount, hash lock,
  time lock and deposit never change.
\<close>

theorem move_settles_once:
  assumes "the_store s = None" "legal_run escrow_step aptos_ok s (es @ es')" "legal_run v3_step aptos_ok s (fs @ fs')"
  shows "settlements escrow_step (\<lambda>s. move_phase (escrow_at s i)) s (es @ es') \<le> 1 \<and>
    settlements v3_step (\<lambda>s. move_phase (escrow_at s i)) s (fs @ fs') \<le> 1 \<and>
    (escrow_at (foldl escrow_step s es) i \<noteq> None \<longrightarrow>
       move_terms (escrow_at (foldl escrow_step s (es @ es')) i) = move_terms (escrow_at (foldl escrow_step s es) i)) \<and>
    (escrow_at (foldl v3_step s fs) i \<noteq> None \<longrightarrow>
       move_terms (escrow_at (foldl v3_step s (fs @ fs')) i) = move_terms (escrow_at (foldl v3_step s fs) i))"
proof -
  note s = no_store_inv[OF assms(1)]
  have absent: "move_phase eo \<noteq> Absent \<longleftrightarrow> eo \<noteq> None" for eo by (cases eo) (auto simp: move_phase_def)
  have split: "legal_run escrow_step aptos_ok s es" "legal_run escrow_step aptos_ok (foldl escrow_step s es) es'"
    "legal_run v3_step aptos_ok s fs" "legal_run v3_step aptos_ok (foldl v3_step s fs) fs'"
    using assms(2,3) by (simp_all add: legal_run_append)
  show ?thesis
    using escrow_lock.settles_once[OF s assms(2)] v3_lock.settles_once[OF s assms(3)]
      escrow_lock.run_terms[OF escrow_lock.run_inv[OF s split(1)] split(2), of i]
      v3_lock.run_terms[OF v3_lock.run_inv[OF s split(3)] split(4), of i]
    by (simp add: absent)
qed

theorem move_settles_once_witness:
  "settlements v3_step (\<lambda>s. move_phase (escrow_at s [9])) demo_aptos
     (demo_v3_setup @ [Call 60 (V3Refund 3 [9]), Call 70 (V3Withdraw 3 [9] demo_secret)]) \<le> 1"
proof -
  have l: "legal_run v3_step aptos_ok demo_aptos (demo_v3_setup @ [Call 60 (V3Refund 3 [9]), Call 70 (V3Withdraw 3 [9] demo_secret)])"
    by (simp add: demo_v3_setup_def)
  have l': "legal_run escrow_step aptos_ok demo_aptos (demo_setup @ [])" using demo_setup_legal by simp
  show ?thesis using move_settles_once[OF demo_aptos_empty l' l] by blast
qed

lemma withdraw_run:
  assumes "the_store s = Some st" "m_escrows st i = Some e" "\<not> m_withdrawn e" "\<not> m_refunded e"
  shows "move_withdraw w i x s = (if length x = 32
      then tx_seq [extract_to i (\<lambda>e. e\<lparr>m_withdrawn := True\<rparr>) (m_beneficiary e), release_deposit i w] s else Inl E_INVALID_SECRET)"
    "v3_withdraw w i x s = (if length x = 32
      then tx_seq [extract_to i (\<lambda>e. e\<lparr>m_withdrawn := True\<rparr>) (m_beneficiary e), optional_release i w] s else Inl E_INVALID_SECRET)"
  using assms by (simp_all add: move_withdraw_def v3_withdraw_def open_escrow_run tx_seq_require)

lemma refund_run:
  assumes "the_store s = Some st" "m_escrows st i = Some e" "\<not> m_withdrawn e" "\<not> m_refunded e"
  shows "move_refund time w i s = (if m_timelock e \<le> time
      then tx_seq [extract_to i (\<lambda>e. e\<lparr>m_refunded := True\<rparr>) (m_depositor e), release_deposit i w] s else Inl E_TIMELOCK_NOT_EXPIRED)"
    "v3_refund time w i s = (if m_timelock e \<le> time
      then tx_seq [extract_to i (\<lambda>e. e\<lparr>m_refunded := True\<rparr>) (m_depositor e), optional_release i w] s else Inl E_TIMELOCK_NOT_EXPIRED)"
  using assms by (simp_all add: move_refund_def v3_refund_def open_escrow_run tx_seq_require)

lemma payout_ok:
  assumes inv: "store_ok st" and st: "the_store s = Some st" "m_escrows st i = Some e" "\<not> m_withdrawn e" "\<not> m_refunded e"
    and rel: "is_release rel" and small: "move_total s < 2 ^ 64" and reg: "coins s to \<noteq> None" "coins s who \<noteq> None"
  shows "tx_seq [extract_to i mark to, rel i who] s =
    Inr ((), paid_out s i st ((mark e)\<lparr>m_escrowed_coin := 0\<rparr>) (credited (credited (coins s) to (m_amount e)) who (m_safety_deposit e)))"
proof -
  obtain b1 where b1: "coins s to = Some b1" using reg by auto
  obtain b2 where b2: "((coins s)(to \<mapsto> b1 + m_amount e)) who = Some b2" using reg by (cases "who = to") auto
  note c = store_okD[OF inv st(2-4)]
  have f: "finite (dom (m_escrows st))" "finite (dom (m_safety_deposits st))" using inv by (simp_all add: store_ok_def)
  have tot: "accounts_total (coins s) + unat (m_amount e) + unat (m_safety_deposit e) < 2 ^ 64"
    using small st(1) c table_total_ge[OF f(1) st(2), of "\<lambda>e. unat (m_escrowed_coin e)"] table_total_ge[OF f(2) c(2), of unat]
    by (simp add: move_total_def store_total_def)
  have n1: "unat b1 + unat (m_amount e) < 2 ^ 64" using accounts_total_ge[of "coins s" to b1] b1 tot by simp
  have "accounts_total ((coins s)(to \<mapsto> b1 + m_amount e)) = accounts_total (coins s) + unat (m_amount e)"
    by (rule accounts_total_paid) (fact b1 n1)+
  moreover have "unat b2 \<le> accounts_total ((coins s)(to \<mapsto> b1 + m_amount e))" by (rule accounts_total_ge) (fact b2)
  ultimately have n2: "unat b2 + unat (m_safety_deposit e) < 2 ^ 64" using tot by simp
  have cr: "credited (credited (coins s) to (m_amount e)) who (m_safety_deposit e) =
      (coins s)(to \<mapsto> b1 + m_amount e, who \<mapsto> b2 + m_safety_deposit e)"
    using b1 b2 by (auto simp: credited_def fun_eq_iff split: if_splits)
  show ?thesis unfolding payout_exact[OF inv st rel refl refl] cr using b1 n1 b2 n2 by blast
qed

text \<open>
  C9. An open escrow can be redeemed, in both modules. After any sequence of entry functions from
  before the initialisation, on a chain whose coins all together fit 64 bits, an open escrow whose
  payee and the caller have coin stores is paid out by a withdrawal with a 32-byte secret, and from
  its time lock on by a refund: the amount goes to the beneficiary or back to the depositor, the
  safety deposit to the caller, and the entry is marked. No arithmetic overflow, missing deposit or
  missing coin can stop it.
\<close>

theorem move_open_redeemable:
  assumes "the_store s = None" "legal_run escrow_step aptos_ok s es" "legal_run v3_step aptos_ok s fs"
    and "(t, wd, rf) = (foldl escrow_step s es, move_withdraw, move_refund) \<or>
         (t, wd, rf) = (foldl v3_step s fs, v3_withdraw, v3_refund)"
    and "escrow_at t i = Some e" "\<not> m_withdrawn e" "\<not> m_refunded e"
    and "accounts_total (coins s) < 2 ^ 64" "coins t w \<noteq> None"
  shows "(coins t (m_beneficiary e) \<noteq> None \<and> length x = 32 \<longrightarrow>
      (\<exists>u. wd w i x t = Inr ((), u) \<and> escrow_at u i = Some (e\<lparr>m_withdrawn := True, m_escrowed_coin := 0\<rparr>) \<and>
         coins u = credited (credited (coins t) (m_beneficiary e) (m_amount e)) w (m_safety_deposit e))) \<and>
    (coins t (m_depositor e) \<noteq> None \<and> m_timelock e \<le> time \<longrightarrow>
      (\<exists>u. rf time w i t = Inr ((), u) \<and> escrow_at u i = Some (e\<lparr>m_refunded := True, m_escrowed_coin := 0\<rparr>) \<and>
         coins u = credited (credited (coins t) (m_depositor e) (m_amount e)) w (m_safety_deposit e)))"
proof -
  note s = no_store_inv[OF assms(1)]
  have "move_inv t" using assms(4) escrow_lock.run_inv[OF s assms(2)] v3_lock.run_inv[OF s assms(3)] by auto
  moreover obtain st where st: "the_store t = Some st" "m_escrows st i = Some e"
    using assms(5) by (auto simp: escrow_at_def split: option.splits)
  ultimately have ok: "store_ok st" by (simp add: move_inv_def)
  have "move_total s = accounts_total (coins s)" using assms(1) by (simp add: move_total_def store_total_def)
  then have small: "move_total t < 2 ^ 64"
    using assms(4,8) escrow_run_total[OF s assms(2)] v3_run_total[OF s assms(3)] by auto
  have w: "coins t to \<noteq> None \<Longrightarrow> length x = 32 \<Longrightarrow> to = m_beneficiary e \<Longrightarrow> wd w i x t =
      Inr ((), paid_out t i st (e\<lparr>m_withdrawn := True, m_escrowed_coin := 0\<rparr>) (credited (credited (coins t) to (m_amount e)) w (m_safety_deposit e)))" for to
    using assms(4) withdraw_run[OF st assms(6,7), of w x] payout_ok[OF ok st assms(6,7) _ small _ assms(9)] by auto
  have r: "coins t to \<noteq> None \<Longrightarrow> m_timelock e \<le> time \<Longrightarrow> to = m_depositor e \<Longrightarrow> rf time w i t =
      Inr ((), paid_out t i st (e\<lparr>m_refunded := True, m_escrowed_coin := 0\<rparr>) (credited (credited (coins t) to (m_amount e)) w (m_safety_deposit e)))" for to
    using assms(4) refund_run[OF st assms(6,7), of time w] payout_ok[OF ok st assms(6,7) _ small _ assms(9)] by auto
  show ?thesis using w[OF _ _ refl] r[OF _ _ refl] by (simp add: paid_out_def escrow_at_def emptied_def)
qed

theorem move_open_redeemable_witness:
  "(\<exists>u. v3_withdraw 3 [9] demo_secret (foldl v3_step demo_aptos demo_v3_setup) = Inr ((), u) \<and> coins u 2 = Some 100 \<and> coins u 3 = Some 500) \<and>
   (\<exists>u. v3_refund 50 2 [9] (foldl v3_step demo_aptos demo_v3_setup) = Inr ((), u) \<and> coins u 1 = Some 1000 \<and> coins u 2 = Some 20)"
proof -
  let ?t = "foldl v3_step demo_aptos demo_v3_setup" and ?e = "new_move_escrow 1 2 100 [6] 50 20 100"
  have t: "escrow_at ?t [9] = Some ?e" by code_simp
  have c: "coins ?t 1 = Some 900 \<and> coins ?t 2 = Some 0 \<and> coins ?t 3 = Some 480" by code_simp
  have "accounts_total (coins demo_aptos) = (\<Sum>a\<in>{1, 3}. case coins demo_aptos a of None \<Rightarrow> 0 | Some c \<Rightarrow> unat c)"
    unfolding accounts_total_def by (rule sum.mono_neutral_right) (auto simp: demo_aptos_def)
  then have small: "accounts_total (coins demo_aptos) < 2 ^ 64" by (simp add: demo_aptos_def)
  note red = move_open_redeemable[OF demo_aptos_empty demo_setup_legal disjI2[OF refl] t _ _ small]
  show ?thesis
    using red[of 3 demo_secret 50] red[of 2 demo_secret 50] c
    by (auto simp: new_move_escrow_def demo_secret_def credited_def)
qed

text \<open>
  C40. The hash lock of an escrow plays no part in a withdrawal: in both modules all secrets of 32
  bytes give the same result, and a secret of any other length aborts whatever its hash is.
\<close>

theorem withdraw_ignores_hashlock:
  "(length x = 32 \<and> length y = 32 \<longrightarrow> move_withdraw w i x s = move_withdraw w i y s \<and> v3_withdraw w i x s = v3_withdraw w i y s) \<and>
   (length x \<noteq> 32 \<longrightarrow> (\<exists>er. move_withdraw w i x s = Inl er) \<and> (\<exists>er. v3_withdraw w i x s = Inl er))"
proof (cases "length x = 32")
  case True
  then show ?thesis by (simp add: move_withdraw_def v3_withdraw_def open_escrow_run tx_seq_require)
next
  case False
  then show ?thesis
    by (simp add: move_withdraw_def v3_withdraw_def open_escrow_run tx_seq_require split: option.split)
qed

theorem withdraw_ignores_hashlock_witness:
  "coins (v3_step (foldl v3_step demo_aptos demo_v3_setup) (Call 60 (V3Withdraw 3 [9] (replicate 32 0)))) 2 = Some 100"
proof -
  have "coins (v3_step (foldl v3_step demo_aptos demo_v3_setup) (Call 60 (V3Withdraw 3 [9] demo_secret))) 2 = Some 100"
    by code_simp
  then show ?thesis
    using withdraw_ignores_hashlock[of "replicate 32 0" demo_secret 3 "[9]"] by (simp add: demo_secret_def outcome_def)
qed

subsubsection \<open>Delegated creation\<close>

definition nonce_of :: "escrow_globals aptos \<Rightarrow> move_address \<Rightarrow> u64 option" where
  "nonce_of s d = (case registries (globals s) fusion_plus of None \<Rightarrow> None | Some r \<Rightarrow> user_nonces r d)"

text \<open>Code under which no recorded nonce is lost or becomes smaller.\<close>

definition nonces_grow :: "'a escrow_move \<Rightarrow> bool" where
  "nonces_grow f \<longleftrightarrow> (\<forall>s x t d n. f s = Inr (x, t) \<longrightarrow> nonce_of s d = Some n \<longrightarrow> (\<exists>m. nonce_of t d = Some m \<and> n \<le> m))"

lemma nonces_grow_bind [intro!]:
  assumes "nonces_grow f" "\<And>x. nonces_grow (g x)" shows "nonces_grow (tx_bind f g)"
  unfolding nonces_grow_def
proof (intro allI impI)
  fix s x t d n assume "tx_bind f g s = Inr (x, t)" and n: "nonce_of s d = Some n"
  then obtain y u where u: "f s = Inr (y, u)" "g y u = Inr (x, t)" by (auto simp: tx_bind_Inr)
  obtain m where "nonce_of u d = Some m" "n \<le> m" using assms(1) u(1) n unfolding nonces_grow_def by blast
  with assms(2) u(2) show "\<exists>m. nonce_of t d = Some m \<and> n \<le> m" unfolding nonces_grow_def by (meson order_trans)
qed

lemma nonces_grow_prims [intro!]:
  "nonces_grow (tx_ret v)" "nonces_grow (require_that b er)" "nonces_grow (revert_with er)" "nonces_grow (read g)"
  "nonces_grow (borrow er p)" "nonces_grow (coin_withdraw a n)" "nonces_grow (coin_deposit a n)"
  "nonces_grow (put_store st)" "nonces_grow (coin_register a)"
  by (auto simp: nonces_grow_def tx_runs borrow_def coin_withdraw_def coin_deposit_def coin_register_def nonce_of_def
      split: option.splits if_splits)

lemma nonces_grow_if [intro!]: "nonces_grow f \<Longrightarrow> nonces_grow g \<Longrightarrow> nonces_grow (if b then f else g)"
  by simp

lemma nonces_grow_option [intro!]:
  "nonces_grow f \<Longrightarrow> (\<And>v. nonces_grow (g v)) \<Longrightarrow> nonces_grow (case v of None \<Rightarrow> f | Some v \<Rightarrow> g v)"
  by (cases v) simp_all

lemma nonces_grow_seq [intro!]: "(\<And>f. f \<in> set fs \<Longrightarrow> nonces_grow f) \<Longrightarrow> nonces_grow (tx_seq fs)"
  by (induction fs) (auto simp: tx_seq.simps tx_then_def)

lemma nonces_grow_then [intro!]: "nonces_grow f \<Longrightarrow> nonces_grow g \<Longrightarrow> nonces_grow (tx_then f g)"
  by (auto simp: tx_then_def)

lemma nonces_grow_registry [intro!]:
  "nonces_grow (move_initialize a)" "nonces_grow (add_authorized_resolver a r)" "nonces_grow (remove_authorized_resolver a r)"
  "nonces_grow (delegated_checks time r d n ex pk sg)"
  by (auto simp: nonces_grow_def nonce_of_def move_initialize_def add_authorized_resolver_def remove_authorized_resolver_def
      delegated_checks_def tx_runs split: option.splits if_splits)

lemmas v3_defs = create_escrow_user_funded_def create_escrow_multi_agent_def create_escrow_gasless_def
  v3_create_escrow_delegated_def create_escrow_from_user_intent_def v3_withdraw_def v3_refund_def
  resolver_authorized_def store_exists_def fresh_escrow_def check_balance_def coin_balance_def ensure_registered_def
  optional_deposit_def add_escrow_def open_escrow_def extract_to_def optional_release_def borrow_store_def borrow_registry_def

lemma v3_call_nonces: "nonces_grow (v3_entry_call time k)"
  by (cases k) (auto simp: v3_defs)

lemma v3_run_nonces:
  "nonce_of s d = Some n \<Longrightarrow> \<exists>m. nonce_of (foldl v3_step s es) d = Some m \<and> n \<le> m"
proof (induction es arbitrary: s n)
  case (Cons ev es)
  have "\<exists>m. nonce_of (v3_step s ev) d = Some m \<and> n \<le> m"
  proof (cases ev)
    case (Call time k)
    show ?thesis unfolding Call aptos_step.simps
      using v3_call_nonces[of time k] Cons.prems unfolding nonces_grow_def
      by (rule_tac outcome_cases[of "v3_entry_call time k" s]) auto
  qed (use Cons.prems in \<open>simp add: nonce_of_def\<close>)
  with Cons.IH show ?case by (simp, meson order_trans)
qed simp

lemma delegated_checks_Inr:
  assumes "delegated_checks time r d n ex pk sg s = Inr (x, t)"
  shows "nonce_of t d = Some n \<and> (\<forall>m. nonce_of s d = Some m \<longrightarrow> m < n) \<and> coins t = coins s \<and> the_store t = the_store s"
  using assms by (auto simp: delegated_checks_def nonce_of_def tx_runs split: option.splits if_splits)


definition demo_delegated :: v3_entry where
  "demo_delegated = V3CreateDelegated 3 [8] 1 2 100 [6] 50 0 30 20 (replicate 32 0) (replicate 64 0)"


definition debits :: "move_address \<Rightarrow> u64 \<Rightarrow> u64 escrow_move \<Rightarrow> bool" where
  "debits a n w \<longleftrightarrow> (\<forall>s c t. w s = Inr (c, t) \<longrightarrow> c = n \<and> globals t = globals s \<and> coins t = debited (coins s) a n)"

lemma debits_withdraw [intro!]: "debits a n (coin_withdraw a n)"
  unfolding debits_def by (auto dest!: coin_withdraw_Inr simp: debited_def)

lemma debits_optional [intro!]: "debits a n (optional_deposit a n)"
proof (cases "0 < n")
  case False
  then have "n = 0" by (simp add: word_gt_0)
  then show ?thesis by (simp add: optional_deposit_def debits_def tx_ret_def debited_def option.map_ident)
qed (simp add: optional_deposit_def debits_withdraw)

lemma create_coins:
  assumes "tx_bind w1 (\<lambda>escrowed_coin. tx_bind w2 (\<lambda>deposit.
      add_escrow i (new_move_escrow dep ben amt lock until n escrowed_coin) deposit)) s = Inr (x, t)"
    and "debits p amt w1" "debits q n w2"
  shows "coins t = debited (debited (coins s) p amt) q n \<and> escrow_at t i = Some (new_move_escrow dep ben amt lock until n amt)"
proof -
  from assms(1) obtain c1 s1 c2 s2 where w: "w1 s = Inr (c1, s1)" "w2 s1 = Inr (c2, s2)"
    and add: "add_escrow i (new_move_escrow dep ben amt lock until n c1) c2 s2 = Inr (x, t)" by (auto simp: tx_bind_Inr)
  have d: "c1 = amt" "coins s2 = debited (debited (coins s) p amt) q n" using w assms(2,3) unfolding debits_def by metis+
  from add show ?thesis
    by (auto simp: add_escrow_def tx_runs escrow_at_def d split: option.splits if_splits)
qed

text \<open>Checks that touch no coins.\<close>

lemma checked_create:
  assumes "tx_bind f (\<lambda>_. g) s = Inr (x, t)" "\<And>y s1. f s = Inr (y, s1) \<Longrightarrow> coins s1 = coins s"
  obtains s1 where "g s1 = Inr (x, t)" "coins s1 = coins s"
  using assms by (auto simp: tx_bind_Inr)

lemma checks_coins:
  "resolver_authorized r s = Inr (y, s1) \<Longrightarrow> coins s1 = coins s" "store_exists s = Inr (y, s1) \<Longrightarrow> coins s1 = coins s"
  "fresh_escrow time i a u s = Inr (y, s1) \<Longrightarrow> coins s1 = coins s" "check_balance d a s = Inr (y, s1) \<Longrightarrow> coins s1 = coins s"
  "delegated_checks time r d n ex pk sg s = Inr (y, s1) \<Longrightarrow> coins s1 = coins s"
  by (auto simp: resolver_authorized_def store_exists_def fresh_escrow_def check_balance_def coin_balance_def
      delegated_checks_def tx_runs split: option.splits if_splits)

lemmas create_payers = create_coins[OF _ debits_withdraw debits_withdraw] create_coins[OF _ debits_withdraw debits_optional]

lemma sponsored_payers:
  "create_escrow_user_funded time d i b a h u n r s = Inr (x, t) \<Longrightarrow>
     coins t = debited (debited (coins s) d a) d n \<and> escrow_at t i = Some (new_move_escrow d b a h u n a)"
  "create_escrow_gasless time d r i b a h u n s = Inr (x, t) \<Longrightarrow>
     coins t = debited (debited (coins s) d a) r n \<and> escrow_at t i = Some (new_move_escrow d b a h u n a)"
  "create_escrow_from_user_intent time r i d b a h u nn ex n pk sg s = Inr (x, t) \<Longrightarrow>
     coins t = debited (debited (coins s) r a) r n \<and> escrow_at t i = Some (new_move_escrow d b a h u n a)"
  unfolding create_escrow_user_funded_def create_escrow_gasless_def create_escrow_from_user_intent_def tx_seq_head tx_seq_last
  by (erule checked_create, erule checks_coins, erule checked_create, erule checks_coins, erule checked_create,
      erule checks_coins, drule create_payers, simp)+

lemma delegated_payers:
  assumes "v3_create_escrow_delegated time r i d b a h u nn ex n pk sg s = Inr (x, t)"
  shows "coins t = debited (debited (coins s) r a) r n \<and> escrow_at t i = Some (new_move_escrow d b a h u n a)"
proof -
  let ?take = "tx_bind (coin_withdraw r a) (\<lambda>escrowed_coin. tx_bind (coin_withdraw r n) (\<lambda>deposit.
      add_escrow i (new_move_escrow d b a h u n escrowed_coin) deposit))"
  from assms obtain s1 s2 s3 s4 where s: "delegated_checks time r d nn ex pk sg s = Inr ((), s1)"
    "fresh_escrow time i a u s1 = Inr ((), s2)" "check_balance d a s2 = Inr ((), s3)"
    "ensure_registered r s3 = Inr ((), s4)" and take: "?take s4 = Inr (x, t)"
    unfolding v3_create_escrow_delegated_def tx_seq_head tx_seq_last by (auto simp: tx_bind_Inr)
  have "0 < a" using s(2) by (auto simp: fresh_escrow_def tx_runs split: option.splits if_splits)
  moreover obtain bal where "coins s4 r = Some bal" "a \<le> bal"
    using take by (auto simp: tx_bind_Inr coin_withdraw_def split: option.splits if_splits)
  ultimately have "coins s4 = coins s3"
    using s(4) by (auto simp: ensure_registered_def coin_register_def tx_runs split: if_splits)
  moreover have "coins s3 = coins s" using checks_coins s by metis
  ultimately show ?thesis using create_payers(1)[OF take] by simp
qed

text \<open>
  C22. Who pays for an escrow of \<^verbatim>\<open>escrow_v3\<close>. A creation funded by the user takes amount and safety deposit
  from the user; a sponsored one takes the amount from the user and the deposit from the resolver,
  the same whether it is called as \<^verbatim>\<open>create_escrow_gasless\<close> or \<^verbatim>\<open>create_escrow_multi_agent\<close>; the two delegated ones take both from the
  resolver and nothing from the depositor, whatever 64 bytes are given as the depositor's
  signature. In each case the new entry names the depositor, who receives the amount back on a refund.
\<close>

theorem escrow_payers:
  "(create_escrow_user_funded time d i b a h u n r s = Inr (x, t) \<longrightarrow>
      coins t = debited (debited (coins s) d a) d n \<and> escrow_at t i = Some (new_move_escrow d b a h u n a)) \<and>
   (create_escrow_gasless time d r i b a h u n s = Inr (x, t) \<longrightarrow>
      coins t = debited (debited (coins s) d a) r n \<and> escrow_at t i = Some (new_move_escrow d b a h u n a)) \<and>
   create_escrow_multi_agent time d r i b a h u n s = create_escrow_gasless time d r i b a h u n s \<and>
   (v3_create_escrow_delegated time r i d b a h u nn ex n pk sg s = Inr (x, t) \<or>
    create_escrow_from_user_intent time r i d b a h u nn ex n pk sg s = Inr (x, t) \<longrightarrow>
      coins t = debited (debited (coins s) r a) r n \<and> escrow_at t i = Some (new_move_escrow d b a h u n a)) \<and>
   (length sg = length sg' \<longrightarrow>
      v3_create_escrow_delegated time r i d b a h u nn ex n pk sg s = v3_create_escrow_delegated time r i d b a h u nn ex n pk sg' s \<and>
      create_escrow_from_user_intent time r i d b a h u nn ex n pk sg s = create_escrow_from_user_intent time r i d b a h u nn ex n pk sg' s)"
proof -
  have sig: "length sg = length sg' \<Longrightarrow> delegated_checks time r d nn ex pk sg = delegated_checks time r d nn ex pk sg'"
    by (simp add: delegated_checks_def)
  show ?thesis
    using sponsored_payers delegated_payers sig
    by (auto simp: create_escrow_multi_agent_def create_escrow_gasless_def v3_create_escrow_delegated_def create_escrow_from_user_intent_def)
qed

theorem escrow_payers_witness:
  "coins (v3_step (foldl v3_step demo_aptos demo_v3_setup) (Call 11 demo_delegated)) 1 = Some 900 \<and>
   coins (v3_step (foldl v3_step demo_aptos demo_v3_setup) (Call 11 demo_delegated)) 3 = Some 360"
proof -
  let ?s = "foldl v3_step demo_aptos demo_v3_setup"
  have "\<not> isl (v3_create_escrow_delegated 11 3 [8] 1 2 100 [6] 50 0 30 20 (replicate 32 0) (replicate 64 0) ?s)" by code_simp
  then obtain t where t: "v3_create_escrow_delegated 11 3 [8] 1 2 100 [6] 50 0 30 20 (replicate 32 0) (replicate 64 0) ?s = Inr ((), t)"
    by (cases "v3_create_escrow_delegated 11 3 [8] 1 2 100 [6] 50 0 30 20 (replicate 32 0) (replicate 64 0) ?s") auto
  then have e: "v3_step ?s (Call 11 demo_delegated) = t" by (simp add: demo_delegated_def outcome_def)
  have c: "coins ?s 1 = Some 900 \<and> coins ?s 3 = Some 480" by code_simp
  have "coins t = debited (debited (coins ?s) 3 100) 3 20" using escrow_payers t by blast
  then show ?thesis unfolding e using c by (simp add: debited_def)
qed

end
