(* ===== verification/MovePartialFill.thy ===== *)
theory MovePartialFill
  imports MoveChain Merkle
begin

section \<open>Partial fills on Aptos\<close>

text \<open>
  The module \<^verbatim>\<open>fusion_plus_partial_fill\<close> (\<^verbatim>\<open>fusion_plus_partial_fill.move\<close>): orders with a Merkle root of
  hash locks, escrows for single fills, and withdrawals. The hash \<^verbatim>\<open>sha3_256\<close> is a parameter. An event
  store is the list of its events, the newest last.
\<close>

abbreviation "P_ESCROW_ALREADY_EXISTS \<equiv> Code 1"
abbreviation "P_ESCROW_NOT_FOUND \<equiv> Code 2"
abbreviation "P_ALREADY_WITHDRAWN \<equiv> Code 3"
abbreviation "P_ALREADY_REFUNDED \<equiv> Code 4"
abbreviation "P_INVALID_SECRET \<equiv> Code 5"
abbreviation "P_INVALID_AMOUNT \<equiv> Code 7"
abbreviation "P_INVALID_TIMELOCK \<equiv> Code 8"
abbreviation "P_ORDER_NOT_FOUND \<equiv> Code 9"
abbreviation "P_INVALID_MERKLE_INDEX \<equiv> Code 10"
abbreviation "P_MERKLE_INDEX_ALREADY_USED \<equiv> Code 11"
abbreviation "P_EXCEEDS_TOTAL_AMOUNT \<equiv> Code 12"
abbreviation "P_EXPIRED_SIGNATURE \<equiv> Code 14"
abbreviation "P_INVALID_NONCE \<equiv> Code 15"
abbreviation "P_INVALID_MERKLE_PROOF \<equiv> Code 16"

record pf_order =
  pf_base_order_id :: bytes
  pf_depositor :: move_address
  pf_beneficiary :: move_address
  pf_total_amount :: u64
  pf_filled_amount :: u64
  pf_merkle_root :: bytes
  pf_num_fills :: u64
  pf_timelock :: u64
  pf_used_indices :: "u64 \<rightharpoonup> bool"

record pf_escrow =
  pe_depositor :: move_address
  pe_beneficiary :: move_address
  pe_amount :: u64
  pe_hashlock :: bytes
  pe_timelock :: u64
  pe_withdrawn :: bool
  pe_refunded :: bool
  pe_safety_deposit :: u64

record PartialFillRegistry =
  pf_orders :: "bytes \<rightharpoonup> pf_order"
  pf_escrows :: "bytes \<rightharpoonup> pf_escrow"
  pf_user_nonces :: "move_address \<rightharpoonup> u64"

datatype pf_event =
    PartialFillOrderCreated bytes move_address move_address u64 bytes u64
  | PfEscrowCreated bytes move_address move_address u64 bytes u64
  | PfEscrowWithdrawn bytes bytes

record pf_globals =
  pf_registry :: "PartialFillRegistry option"
  pf_events :: "pf_event list option"

type_synonym 'a pf_move = "(pf_globals, 'a) move"

text \<open>The resources stand under \<^verbatim>\<open>@escrow_addr\<close>; the module is published, and initialised, by that account.\<close>

definition init_module :: "unit pf_move" where
  "init_module = tx_bind (read globals) (\<lambda>g. tx_seq [
     require_that (pf_registry g = None) ResourceExists,
     set_globals (\<lambda>g. g\<lparr>pf_registry := Some \<lparr>pf_orders = Map.empty, pf_escrows = Map.empty, pf_user_nonces = Map.empty\<rparr>\<rparr>),
     require_that (pf_events g = None) ResourceExists,
     set_globals (\<lambda>g. g\<lparr>pf_events := Some []\<rparr>)])"

definition borrow_pf :: "PartialFillRegistry pf_move" where
  "borrow_pf = borrow NoResource (\<lambda>s. pf_registry (globals s))"

definition put_pf :: "PartialFillRegistry \<Rightarrow> unit pf_move" where
  "put_pf r = set_globals (\<lambda>g. g\<lparr>pf_registry := Some r\<rparr>)"

definition emit_pf :: "pf_event \<Rightarrow> unit pf_move" where
  "emit_pf ev = tx_bind (borrow NoResource (\<lambda>s. pf_events (globals s))) (\<lambda>evs.
     set_globals (\<lambda>g. g\<lparr>pf_events := Some (evs @ [ev])\<rparr>))"

declare borrow_pf_def [tx_runs] put_pf_def [tx_runs] emit_pf_def [tx_runs]

definition create_partial_fill_order ::
  "u64 \<Rightarrow> move_address \<Rightarrow> bytes \<Rightarrow> move_address \<Rightarrow> move_address \<Rightarrow> u64 \<Rightarrow> bytes \<Rightarrow> u64 \<Rightarrow> u64 \<Rightarrow> u64 \<Rightarrow> u64 \<Rightarrow> bytes \<Rightarrow> bytes \<Rightarrow> unit pf_move" where
  "create_partial_fill_order time resolver base_order_id dep ben total_amount merkle_root num_fills until nonce expiry pubkey signature =
     tx_bind borrow_pf (\<lambda>registry. tx_seq [
       require_that (pf_orders registry base_order_id = None) P_ESCROW_ALREADY_EXISTS,
       require_that (0 < total_amount) P_INVALID_AMOUNT,
       require_that (time < until) P_INVALID_TIMELOCK,
       require_that (time \<le> expiry) P_EXPIRED_SIGNATURE,
       case pf_user_nonces registry dep of
         Some current_nonce \<Rightarrow> require_that (current_nonce < nonce) P_INVALID_NONCE
       | None \<Rightarrow> tx_ret (),
       put_pf (registry\<lparr>pf_user_nonces := (pf_user_nonces registry)(dep \<mapsto> nonce),
         pf_orders := (pf_orders registry)(base_order_id \<mapsto>
           \<lparr>pf_base_order_id = base_order_id, pf_depositor = dep, pf_beneficiary = ben, pf_total_amount = total_amount,
            pf_filled_amount = 0, pf_merkle_root = merkle_root, pf_num_fills = num_fills, pf_timelock = until,
            pf_used_indices = Map.empty\<rparr>)\<rparr>),
       emit_pf (PartialFillOrderCreated base_order_id dep ben total_amount merkle_root num_fills)])"

text \<open>The loop of \<^verbatim>\<open>verify_merkle_proof\<close>.\<close>

fun verify_loop :: "(bytes \<Rightarrow> bytes) \<Rightarrow> bytes \<Rightarrow> bytes list \<Rightarrow> u64 \<Rightarrow> bytes" where
  "verify_loop sha3_256 computed_hash [] current_index = computed_hash"
| "verify_loop sha3_256 computed_hash (proof_element # proof) current_index =
     verify_loop sha3_256
       (if current_index mod 2 = 0 then sha3_256 (computed_hash @ proof_element) else sha3_256 (proof_element @ computed_hash))
       proof (current_index div 2)"

definition verify_merkle_proof :: "(bytes \<Rightarrow> bytes) \<Rightarrow> bytes list \<Rightarrow> bytes \<Rightarrow> bytes \<Rightarrow> u64 \<Rightarrow> bool" where
  "verify_merkle_proof sha3_256 proof rootHash leaf index \<longleftrightarrow> verify_loop sha3_256 leaf proof index = rootHash"

text \<open>\<^verbatim>\<open>bcs::to_bytes\<close> of a 64-bit integer: eight bytes, the lowest first.\<close>

definition bcs_u64 :: "u64 \<Rightarrow> bytes" where
  "bcs_u64 n = map (\<lambda>k. ucast (drop_bit (8 * k) n)) [0..<8]"

definition generate_escrow_id :: "(bytes \<Rightarrow> bytes) \<Rightarrow> bytes \<Rightarrow> u64 \<Rightarrow> bytes" where
  "generate_escrow_id sha3_256 base_order_id fill_index = sha3_256 (base_order_id @ bcs_u64 fill_index)"

text \<open>
  The order is updated before the coins move; the tables are written here with the last of the
  table operations, which nothing in between reads.
\<close>

definition create_partial_fill_escrow ::
  "(bytes \<Rightarrow> bytes) \<Rightarrow> move_address \<Rightarrow> bytes \<Rightarrow> u64 \<Rightarrow> u64 \<Rightarrow> bytes \<Rightarrow> bytes list \<Rightarrow> u64 \<Rightarrow> unit pf_move" where
  "create_partial_fill_escrow sha3_256 resolver base_order_id fill_index amt lock merkle_proof safety_deposit_amount =
     tx_bind borrow_pf (\<lambda>registry.
     tx_bind (borrow P_ORDER_NOT_FOUND (\<lambda>s. pf_orders registry base_order_id)) (\<lambda>order.
     let escrow_id = generate_escrow_id sha3_256 base_order_id fill_index
     in tx_seq [
       require_that (fill_index < pf_num_fills order) P_INVALID_MERKLE_INDEX,
       require_that (pf_used_indices order fill_index = None) P_MERKLE_INDEX_ALREADY_USED,
       require_that (unat (pf_filled_amount order) + unat amt < 2 ^ 64) ArithmeticAbort,
       require_that (pf_filled_amount order + amt \<le> pf_total_amount order) P_EXCEEDS_TOTAL_AMOUNT,
       require_that (verify_merkle_proof sha3_256 merkle_proof (pf_merkle_root order) (sha3_256 lock) fill_index) P_INVALID_MERKLE_PROOF,
       tx_bind (coin_withdraw resolver safety_deposit_amount) (\<lambda>safety_deposit.
       tx_bind (coin_withdraw resolver amt) (\<lambda>escrow_funds. tx_seq [
         coin_deposit resolver escrow_funds,
         require_that (pf_escrows registry escrow_id = None) KeyExists,
         put_pf (registry\<lparr>
           pf_orders := (pf_orders registry)(base_order_id \<mapsto>
             order\<lparr>pf_used_indices := (pf_used_indices order)(fill_index \<mapsto> True),
                   pf_filled_amount := pf_filled_amount order + amt\<rparr>),
           pf_escrows := (pf_escrows registry)(escrow_id \<mapsto>
             \<lparr>pe_depositor = pf_depositor order, pe_beneficiary = pf_beneficiary order, pe_amount = amt, pe_hashlock = lock,
              pe_timelock = pf_timelock order, pe_withdrawn = False, pe_refunded = False, pe_safety_deposit = safety_deposit\<rparr>)\<rparr>),
         emit_pf (PfEscrowCreated escrow_id (pf_depositor order) (pf_beneficiary order) amt lock (pf_timelock order))]))]))"

definition pf_withdraw :: "(bytes \<Rightarrow> bytes) \<Rightarrow> move_address \<Rightarrow> bytes \<Rightarrow> bytes \<Rightarrow> unit pf_move" where
  "pf_withdraw sha3_256 withdrawer escrow_id secret =
     tx_bind borrow_pf (\<lambda>registry.
     tx_bind (borrow P_ESCROW_NOT_FOUND (\<lambda>s. pf_escrows registry escrow_id)) (\<lambda>escrow. tx_seq [
       require_that (\<not> pe_withdrawn escrow) P_ALREADY_WITHDRAWN,
       require_that (\<not> pe_refunded escrow) P_ALREADY_REFUNDED,
       require_that (sha3_256 secret = pe_hashlock escrow) P_INVALID_SECRET,
       tx_bind (coin_withdraw withdrawer (pe_amount escrow)) (\<lambda>c. coin_deposit (pe_beneficiary escrow) c),
       put_pf (registry\<lparr>pf_escrows := (pf_escrows registry)(escrow_id \<mapsto>
         escrow\<lparr>pe_withdrawn := True, pe_safety_deposit := 0\<rparr>)\<rparr>),
       coin_deposit withdrawer (pe_safety_deposit escrow),
       emit_pf (PfEscrowWithdrawn escrow_id secret)]))"

definition get_partial_fill_order :: "bytes \<Rightarrow> (u64 \<times> u64 \<times> bytes \<times> u64) pf_move" where
  "get_partial_fill_order base_order_id = tx_bind borrow_pf (\<lambda>registry. tx_ret
     (case pf_orders registry base_order_id of
        Some order \<Rightarrow> (pf_total_amount order, pf_filled_amount order, pf_merkle_root order, pf_num_fills order)
      | None \<Rightarrow> (0, 0, [], 0)))"

datatype pf_entry =
    InitModule
  | CreateFillOrder move_address bytes move_address move_address u64 bytes u64 u64 u64 u64 bytes bytes
  | CreateFillEscrow move_address bytes u64 u64 bytes "bytes list" u64
  | WithdrawFill move_address bytes bytes

fun pf_call :: "(bytes \<Rightarrow> bytes) \<Rightarrow> u64 \<Rightarrow> pf_entry \<Rightarrow> unit pf_move" where
  "pf_call h time InitModule = init_module"
| "pf_call h time (CreateFillOrder r b d n t m f u k x pk sg) = create_partial_fill_order time r b d n t m f u k x pk sg"
| "pf_call h time (CreateFillEscrow r b i a l p sd) = create_partial_fill_escrow h r b i a l p sd"
| "pf_call h time (WithdrawFill w i x) = pf_withdraw h w i x"

abbreviation "pf_step h \<equiv> aptos_step (pf_call h)"

subsection \<open>What the registry holds\<close>

definition fill_used :: "PartialFillRegistry \<Rightarrow> bytes \<Rightarrow> u64 \<Rightarrow> bool" where
  "fill_used r b i \<longleftrightarrow> (case pf_orders r b of None \<Rightarrow> False | Some od \<Rightarrow> pf_used_indices od i \<noteq> None)"

definition fill_amount :: "PartialFillRegistry \<Rightarrow> bytes \<Rightarrow> nat" where
  "fill_amount r k = (case pf_escrows r k of None \<Rightarrow> 0 | Some e \<Rightarrow> unat (pe_amount e))"

definition fill_matches :: "pf_order \<Rightarrow> pf_escrow \<Rightarrow> bool" where
  "fill_matches od e \<longleftrightarrow> pe_depositor e = pf_depositor od \<and> pe_beneficiary e = pf_beneficiary od \<and> pe_timelock e = pf_timelock od"

definition order_filled :: "(bytes \<Rightarrow> bytes) \<Rightarrow> PartialFillRegistry \<Rightarrow> bytes \<Rightarrow> pf_order \<Rightarrow> bool" where
  "order_filled h r b od \<longleftrightarrow> pf_filled_amount od \<le> pf_total_amount od \<and>
     (\<Sum>i | fill_used r b i. fill_amount r (generate_escrow_id h b i)) = unat (pf_filled_amount od) \<and>
     (\<forall>i. fill_used r b i \<longrightarrow> i < pf_num_fills od \<and> (\<exists>e. pf_escrows r (generate_escrow_id h b i) = Some e \<and> fill_matches od e))"

text \<open>
  The invariant of the registry: its escrows are those of the used fill indices, one for each; the
  amounts of an order's fills add up to its filled amount, within its total; an escrow that has been
  withdrawn has no deposit left, and none is ever refunded.
\<close>

definition pf_ok :: "(bytes \<Rightarrow> bytes) \<Rightarrow> PartialFillRegistry \<Rightarrow> bool" where
  "pf_ok h r \<longleftrightarrow> finite (dom (pf_escrows r)) \<and>
     (\<forall>b od. pf_orders r b = Some od \<longrightarrow> order_filled h r b od) \<and>
     (\<forall>b i b' j. fill_used r b i \<longrightarrow> fill_used r b' j \<longrightarrow> generate_escrow_id h b i = generate_escrow_id h b' j \<longrightarrow> b = b' \<and> i = j) \<and>
     (\<forall>k. pf_escrows r k \<noteq> None \<longrightarrow> (\<exists>b i. fill_used r b i \<and> k = generate_escrow_id h b i)) \<and>
     (\<forall>k e. pf_escrows r k = Some e \<longrightarrow> \<not> pe_refunded e \<and> (pe_withdrawn e \<longrightarrow> pe_safety_deposit e = 0))"

definition with_order :: "PartialFillRegistry \<Rightarrow> bytes \<Rightarrow> pf_order \<Rightarrow> (move_address \<rightharpoonup> u64) \<Rightarrow> PartialFillRegistry" where
  "with_order r b od ns = r\<lparr>pf_orders := (pf_orders r)(b \<mapsto> od), pf_user_nonces := ns\<rparr>"

definition with_fill :: "PartialFillRegistry \<Rightarrow> bytes \<Rightarrow> pf_order \<Rightarrow> u64 \<Rightarrow> bytes \<Rightarrow> pf_escrow \<Rightarrow> PartialFillRegistry" where
  "with_fill r b od i k e = r\<lparr>
     pf_orders := (pf_orders r)(b \<mapsto> od\<lparr>pf_used_indices := (pf_used_indices od)(i \<mapsto> True), pf_filled_amount := pf_filled_amount od + pe_amount e\<rparr>),
     pf_escrows := (pf_escrows r)(k \<mapsto> e)\<rparr>"

definition with_withdrawn :: "PartialFillRegistry \<Rightarrow> bytes \<Rightarrow> pf_escrow \<Rightarrow> PartialFillRegistry" where
  "with_withdrawn r k e = r\<lparr>pf_escrows := (pf_escrows r)(k \<mapsto> e\<lparr>pe_withdrawn := True, pe_safety_deposit := 0\<rparr>)\<rparr>"

definition empty_registry :: PartialFillRegistry where
  "empty_registry = \<lparr>pf_orders = Map.empty, pf_escrows = Map.empty, pf_user_nonces = Map.empty\<rparr>"

lemma pf_ok_empty: "pf_ok h empty_registry"
  by (simp add: pf_ok_def empty_registry_def fill_used_def)

lemma pf_ok_order:
  assumes ok: "pf_ok h r" and new: "pf_orders r b = None" "pf_filled_amount od = 0" "pf_used_indices od = Map.empty"
  shows "pf_ok h (with_order r b od ns)"
proof -
  have u: "fill_used (with_order r b od ns) = fill_used r"
    using new by (auto simp: fill_used_def with_order_def fun_eq_iff split: option.splits)
  have a: "fill_amount (with_order r b od ns) = fill_amount r" by (simp add: fill_amount_def with_order_def fun_eq_iff)
  have none: "\<not> fill_used r b i" for i using new(1) by (simp add: fill_used_def)
  have "order_filled h (with_order r b od ns) b' od'" if "pf_orders (with_order r b od ns) b' = Some od'" for b' od'
  proof (cases "b' = b")
    case True
    with that have "od' = od" by (simp add: with_order_def)
    with True new(2) show ?thesis by (simp add: order_filled_def u a none)
  next
    case False
    with that ok have "order_filled h r b' od'" by (simp add: pf_ok_def with_order_def)
    then show ?thesis by (simp add: order_filled_def u a) (simp add: with_order_def)
  qed
  moreover have "pf_escrows (with_order r b od ns) = pf_escrows r" by (simp add: with_order_def)
  ultimately show ?thesis using ok by (simp add: pf_ok_def u)
qed

lemma pf_ok_present:
  assumes "pf_ok h r" "fill_used r b i"
  shows "pf_escrows r (generate_escrow_id h b i) \<noteq> None"
proof -
  from assms(2) obtain od where "pf_orders r b = Some od" by (auto simp: fill_used_def split: option.splits)
  with assms(1) have "order_filled h r b od" by (simp add: pf_ok_def)
  with assms(2) show ?thesis by (auto simp: order_filled_def)
qed

lemma with_fill_escrows [simp]: "pf_escrows (with_fill r b od i k e) = (pf_escrows r)(k \<mapsto> e)"
  by (simp add: with_fill_def)

lemma with_fill_used:
  "pf_orders r b = Some od \<Longrightarrow> fill_used (with_fill r b od i k e) b' j \<longleftrightarrow> fill_used r b' j \<or> (b' = b \<and> j = i)"
  by (auto simp: fill_used_def with_fill_def split: option.splits)

lemma order_filled_fill:
  assumes ook: "order_filled h r b od" and od: "pf_orders r b = Some od" "pf_used_indices od i = None" "i < pf_num_fills od"
    and amt: "unat (pf_filled_amount od) + unat (pe_amount e) < 2 ^ 64" "pf_filled_amount od + pe_amount e \<le> pf_total_amount od"
    and k: "k = generate_escrow_id h b i" "pf_escrows r k = None" and e: "fill_matches od e"
  shows "order_filled h (with_fill r b od i k e) b
    (od\<lparr>pf_used_indices := (pf_used_indices od)(i \<mapsto> True), pf_filled_amount := pf_filled_amount od + pe_amount e\<rparr>)"
    (is "order_filled h ?r b _")
proof -
  note u = with_fill_used[OF od(1), of i k e]
  have new: "\<not> fill_used r b i" using od by (simp add: fill_used_def)
  have apart: "generate_escrow_id h b j \<noteq> k" if "fill_used r b j" for j using that ook k(2) by (auto simp: order_filled_def)
  have a: "fill_amount ?r (generate_escrow_id h b j) = fill_amount r (generate_escrow_id h b j)" if "fill_used r b j" for j
    using apart[OF that] by (simp add: fill_amount_def)
  have set: "{j. fill_used ?r b j} = insert i {j. fill_used r b j}" by (auto simp: u)
  have "(\<Sum>j | fill_used ?r b j. fill_amount ?r (generate_escrow_id h b j)) =
      fill_amount ?r k + (\<Sum>j | fill_used r b j. fill_amount ?r (generate_escrow_id h b j))"
    unfolding set using new k(1) by simp
  also have "\<dots> = unat (pe_amount e) + unat (pf_filled_amount od)" using ook a by (simp add: order_filled_def fill_amount_def)
  also have "\<dots> = unat (pf_filled_amount od + pe_amount e)" using amt(1) by (simp add: unat_word_ariths)
  finally have sum: "(\<Sum>j | fill_used ?r b j. fill_amount ?r (generate_escrow_id h b j)) = unat (pf_filled_amount od + pe_amount e)" .
  have "\<exists>f. pf_escrows ?r (generate_escrow_id h b j) = Some f \<and> fill_matches od f" if "fill_used ?r b j" for j
  proof (cases "j = i")
    case False
    with that have "fill_used r b j" by (simp add: u)
    then show ?thesis using ook apart by (auto simp: order_filled_def)
  qed (use k e in simp)
  moreover have "j < pf_num_fills od" if "fill_used ?r b j" for j
    using that ook od(3) by (auto simp: u order_filled_def)
  ultimately show ?thesis using sum amt(2) by (simp add: order_filled_def fill_matches_def)
qed

lemma pf_ok_fill:
  assumes ok: "pf_ok h r" and od: "pf_orders r b = Some od" "pf_used_indices od i = None" "i < pf_num_fills od"
    and amt: "unat (pf_filled_amount od) + unat (pe_amount e) < 2 ^ 64" "pf_filled_amount od + pe_amount e \<le> pf_total_amount od"
    and k: "k = generate_escrow_id h b i" "pf_escrows r k = None"
    and e: "fill_matches od e" "\<not> pe_withdrawn e" "\<not> pe_refunded e"
  shows "pf_ok h (with_fill r b od i k e)" (is "pf_ok h ?r")
proof -
  note u = with_fill_used[OF od(1), of i k e]
  have apart: "generate_escrow_id h b' j \<noteq> k" if "fill_used r b' j" for b' j using pf_ok_present[OF ok that] k(2) by metis
  show ?thesis unfolding pf_ok_def
  proof (intro conjI allI impI)
    show "finite (dom (pf_escrows ?r))" using ok by (simp add: pf_ok_def)
    show "order_filled h ?r b' od'" if o: "pf_orders ?r b' = Some od'" for b' od'
    proof (cases "b' = b")
      case True
      have "order_filled h r b od" using ok od(1) by (simp add: pf_ok_def)
      from order_filled_fill[OF this od amt k e(1)] True o show ?thesis by (auto simp: with_fill_def)
    next
      case False
      with o ok have "order_filled h r b' od'" by (simp add: pf_ok_def with_fill_def)
      then show ?thesis using False apart by (simp add: order_filled_def u fill_amount_def)
    qed
    show "b1 = b2" "j1 = j2" if "fill_used ?r b1 j1" "fill_used ?r b2 j2" "generate_escrow_id h b1 j1 = generate_escrow_id h b2 j2" for b1 j1 b2 j2
      using that ok apart k(1) unfolding u pf_ok_def by metis+
    show "\<exists>b i. fill_used ?r b i \<and> c = generate_escrow_id h b i" if "pf_escrows ?r c \<noteq> None" for c
    proof (cases "c = k")
      case False
      with that ok have "\<exists>b i. fill_used r b i \<and> c = generate_escrow_id h b i" by (simp add: pf_ok_def)
      then show ?thesis unfolding u by blast
    next
      case True
      with k(1) show ?thesis unfolding u by blast
    qed
    show "\<not> pe_refunded f" "pe_withdrawn f \<Longrightarrow> pe_safety_deposit f = 0" if "pf_escrows ?r c = Some f" for c f
      using that ok e(2,3) unfolding pf_ok_def by (auto split: if_splits)
  qed
qed

lemma pf_ok_withdrawn:
  assumes ok: "pf_ok h r" and k: "pf_escrows r k = Some e"
  shows "pf_ok h (with_withdrawn r k e)" (is "pf_ok h ?r")
proof -
  have u: "fill_used ?r = fill_used r" by (simp add: fill_used_def with_withdrawn_def fun_eq_iff)
  have a: "fill_amount ?r = fill_amount r" using k by (simp add: fill_amount_def with_withdrawn_def fun_eq_iff)
  have esc: "pf_escrows ?r = (pf_escrows r)(k \<mapsto> e\<lparr>pe_withdrawn := True, pe_safety_deposit := 0\<rparr>)" by (simp add: with_withdrawn_def)
  have ords: "pf_orders ?r = pf_orders r" by (simp add: with_withdrawn_def)
  have m: "\<exists>f. pf_escrows ?r c = Some f \<and> fill_matches od f" if "\<exists>f. pf_escrows r c = Some f \<and> fill_matches od f" for c od
    using that k by (cases "c = k") (auto simp: esc fill_matches_def)
  have "order_filled h ?r b od" if "order_filled h r b od" for b od
    using that m unfolding order_filled_def u a by blast
  then show ?thesis using ok k unfolding pf_ok_def u ords esc by (auto split: if_splits)
qed

subsection \<open>The effect of the entry functions\<close>

abbreviation the_pf :: "pf_globals aptos \<Rightarrow> PartialFillRegistry option" where
  "the_pf s \<equiv> pf_registry (globals s)"

definition pf_inv :: "(bytes \<Rightarrow> bytes) \<Rightarrow> pf_globals aptos \<Rightarrow> bool" where
  "pf_inv h s \<longleftrightarrow> (case the_pf s of None \<Rightarrow> True | Some r \<Rightarrow> pf_ok h r)"

definition deposits_total :: "pf_globals aptos \<Rightarrow> nat" where
  "deposits_total s = (case the_pf s of None \<Rightarrow> 0 | Some r \<Rightarrow> table_total (\<lambda>e. unat (pe_safety_deposit e)) (pf_escrows r))"

definition pf_total :: "pf_globals aptos \<Rightarrow> nat" where
  "pf_total s = accounts_total (coins s) + deposits_total s"

definition pf_escrow_at :: "pf_globals aptos \<Rightarrow> bytes \<Rightarrow> pf_escrow option" where
  "pf_escrow_at s k = (case the_pf s of None \<Rightarrow> None | Some r \<Rightarrow> pf_escrows r k)"

definition pf_phase :: "pf_escrow option \<Rightarrow> phase" where
  "pf_phase eo = (case eo of None \<Rightarrow> Absent
     | Some e \<Rightarrow> if pe_withdrawn e then Paid else if pe_refunded e then Returned else Open)"

definition pf_terms :: "pf_escrow option \<Rightarrow> (move_address \<times> move_address \<times> u64 \<times> bytes \<times> u64) option" where
  "pf_terms eo = map_option (\<lambda>e. (pe_depositor e, pe_beneficiary e, pe_amount e, pe_hashlock e, pe_timelock e)) eo"

inductive pf_effect :: "(bytes \<Rightarrow> bytes) \<Rightarrow> pf_globals aptos \<Rightarrow> pf_globals aptos \<Rightarrow> bool" for h s t where
  same: "the_pf t = the_pf s \<Longrightarrow> accounts_total (coins t) = accounts_total (coins s) \<Longrightarrow> pf_effect h s t"
| init: "the_pf s = None \<Longrightarrow> the_pf t = Some empty_registry \<Longrightarrow> accounts_total (coins t) = accounts_total (coins s) \<Longrightarrow>
    pf_effect h s t"
| order: "the_pf s = Some r \<Longrightarrow> pf_orders r b = None \<Longrightarrow> pf_filled_amount od = 0 \<Longrightarrow> pf_used_indices od = Map.empty \<Longrightarrow>
    the_pf t = Some (with_order r b od ns) \<Longrightarrow> accounts_total (coins t) = accounts_total (coins s) \<Longrightarrow> pf_effect h s t"
| fill: "the_pf s = Some r \<Longrightarrow> pf_orders r b = Some od \<Longrightarrow> pf_used_indices od i = None \<Longrightarrow> i < pf_num_fills od \<Longrightarrow>
    unat (pf_filled_amount od) + unat (pe_amount e) < 2 ^ 64 \<Longrightarrow> pf_filled_amount od + pe_amount e \<le> pf_total_amount od \<Longrightarrow>
    k = generate_escrow_id h b i \<Longrightarrow> pf_escrows r k = None \<Longrightarrow> fill_matches od e \<Longrightarrow> \<not> pe_withdrawn e \<Longrightarrow> \<not> pe_refunded e \<Longrightarrow>
    the_pf t = Some (with_fill r b od i k e) \<Longrightarrow>
    accounts_total (coins t) + unat (pe_safety_deposit e) = accounts_total (coins s) \<Longrightarrow> pf_effect h s t"
| paid: "the_pf s = Some r \<Longrightarrow> pf_escrows r k = Some e \<Longrightarrow> \<not> pe_withdrawn e \<Longrightarrow> \<not> pe_refunded e \<Longrightarrow>
    the_pf t = Some (with_withdrawn r k e) \<Longrightarrow>
    accounts_total (coins t) = accounts_total (coins s) + unat (pe_safety_deposit e) \<Longrightarrow> pf_effect h s t"

lemma pf_effect_inv: "pf_effect h s t \<Longrightarrow> pf_inv h s \<Longrightarrow> pf_inv h t"
proof (induction rule: pf_effect.induct)
  case (order r b od ns)
  then show ?case using pf_ok_order[of h r b od ns] by (simp add: pf_inv_def)
next
  case (fill r b od i e k)
  then show ?case using pf_ok_fill[of h r b od i e k] by (simp add: pf_inv_def)
next
  case (paid r k e)
  then show ?case using pf_ok_withdrawn[of h r k e] by (simp add: pf_inv_def)
qed (simp_all add: pf_inv_def pf_ok_empty)

lemma pf_effect_total: "pf_effect h s t \<Longrightarrow> pf_inv h s \<Longrightarrow> pf_total t = pf_total s"
proof (induction rule: pf_effect.induct)
  case (fill r b od i e k)
  then have "finite (dom (pf_escrows r))" by (simp add: pf_inv_def pf_ok_def)
  from table_total_add[OF this fill(8)] fill show ?case by (simp add: pf_total_def deposits_total_def)
next
  case (paid r k e)
  then have "finite (dom (pf_escrows r))" by (simp add: pf_inv_def pf_ok_def)
  from table_total_set[OF this paid(2), of "\<lambda>e. unat (pe_safety_deposit e)" "e\<lparr>pe_withdrawn := True, pe_safety_deposit := 0\<rparr>"] paid
  show ?case by (simp add: pf_total_def deposits_total_def with_withdrawn_def)
qed (simp_all add: pf_total_def deposits_total_def empty_registry_def with_order_def)

lemma pf_effect_phase: "pf_effect h s t \<Longrightarrow> phase_step (pf_phase (pf_escrow_at s c)) (pf_phase (pf_escrow_at t c))"
  by (induction rule: pf_effect.induct)
    (auto simp: pf_escrow_at_def pf_phase_def with_order_def with_withdrawn_def empty_registry_def)

lemma pf_effect_terms:
  "pf_effect h s t \<Longrightarrow> pf_phase (pf_escrow_at s c) \<noteq> Absent \<Longrightarrow> pf_terms (pf_escrow_at t c) = pf_terms (pf_escrow_at s c)"
  by (induction rule: pf_effect.induct)
    (auto simp: pf_escrow_at_def pf_phase_def pf_terms_def with_order_def with_withdrawn_def empty_registry_def split: option.splits if_splits)

lemma init_module_effect: "init_module s = Inr (x, t) \<Longrightarrow> pf_effect h s t"
  by (auto simp: init_module_def tx_runs empty_registry_def split: if_splits intro: init)

lemma create_order_Inr:
  assumes "create_partial_fill_order time r b d n ta m f u k ex pk sg s = Inr (x, t)"
  obtains g od where "the_pf s = Some g" "pf_orders g b = None" "pf_filled_amount od = 0" "pf_used_indices od = Map.empty"
    "the_pf t = Some (with_order g b od ((pf_user_nonces g)(d \<mapsto> k)))" "coins t = coins s"
proof -
  let ?od = "\<lparr>pf_base_order_id = b, pf_depositor = d, pf_beneficiary = n, pf_total_amount = ta,
            pf_filled_amount = 0, pf_merkle_root = m, pf_num_fills = f, pf_timelock = u, pf_used_indices = Map.empty\<rparr>"
  from assms obtain g where g: "the_pf s = Some g" "pf_orders g b = None" "coins t = coins s"
      "the_pf t = Some (with_order g b ?od ((pf_user_nonces g)(d \<mapsto> k)))"
    by (auto simp: create_partial_fill_order_def with_order_def tx_runs split: option.splits if_splits)
  show ?thesis by (rule that[of g ?od]) (use g in simp_all)
qed

lemma create_order_effect: "create_partial_fill_order time r b d n ta m f u k ex pk sg s = Inr (x, t) \<Longrightarrow> pf_effect h s t"
  by (erule create_order_Inr) (rule order, auto)

lemma tx_seq_Cons_Inr: "tx_seq (f # fs) s = Inr (x, t) \<longleftrightarrow> (\<exists>s1. f s = Inr ((), s1) \<and> tx_seq fs s1 = Inr (x, t))"
  by (auto simp: tx_seq.simps tx_then_def tx_bind_Inr)

lemma put_pf_Inr: "put_pf r s = Inr (x, t) \<longleftrightarrow> t = s\<lparr>globals := (globals s)\<lparr>pf_registry := Some r\<rparr>\<rparr>"
  by (auto simp: put_pf_def set_globals_def update_def)

lemma emit_pf_Inr: "emit_pf ev s = Inr (x, t) \<Longrightarrow> the_pf t = the_pf s \<and> coins t = coins s"
  by (auto simp: emit_pf_def tx_runs split: option.splits)

lemma require_Inr: "require_that b er s = Inr (x, t) \<longleftrightarrow> b \<and> t = s"
  by (auto simp: require_that_def)

lemma borrow_Inr: "borrow er f s = Inr (v, t) \<longleftrightarrow> f s = Some v \<and> t = s"
  by (auto simp: borrow_def split: option.splits)

lemma tx_seq_Nil_Inr: "tx_seq [] s = Inr (x, t) \<longleftrightarrow> t = s"
  by (auto simp: tx_seq.simps tx_ret_def)

lemmas pf_Inr = borrow_Inr tx_bind_Inr tx_seq_Cons_Inr tx_seq_Nil_Inr put_pf_Inr require_Inr

lemma create_fill_Inr:
  assumes "create_partial_fill_escrow h r b i a l ps sd s = Inr (x, t)"
  obtains g od e k c where "the_pf s = Some g" "pf_orders g b = Some od" "pf_used_indices od i = None" "i < pf_num_fills od"
    "unat (pf_filled_amount od) + unat (pe_amount e) < 2 ^ 64" "pf_filled_amount od + pe_amount e \<le> pf_total_amount od"
    "k = generate_escrow_id h b i" "pf_escrows g k = None" "fill_matches od e" "\<not> pe_withdrawn e" "\<not> pe_refunded e"
    "the_pf t = Some (with_fill g b od i k e)" "pe_amount e = a" "pe_hashlock e = l" "pe_safety_deposit e = sd"
    "verify_merkle_proof h ps (pf_merkle_root od) (h l) i"
    "coins s r = Some c" "sd \<le> c" "a \<le> c - sd" "coins t = (coins s)(r \<mapsto> c - sd)"
proof -
  from assms obtain g od c1 c2 s1 s2 s3 where g: "the_pf s = Some g" "pf_orders g b = Some od" "i < pf_num_fills od" "pf_used_indices od i = None"
      "unat (pf_filled_amount od) + unat a < 2 ^ 64" "pf_filled_amount od + a \<le> pf_total_amount od"
      "verify_merkle_proof h ps (pf_merkle_root od) (h l) i" "pf_escrows g (generate_escrow_id h b i) = None"
    and w1: "coin_withdraw r sd s = Inr (c1, s1)" and w2: "coin_withdraw r a s1 = Inr (c2, s2)" and w3: "coin_deposit r c2 s2 = Inr ((), s3)"
    and t: "coins t = coins s3" "the_pf t = Some (with_fill g b od i (generate_escrow_id h b i)
        \<lparr>pe_depositor = pf_depositor od, pe_beneficiary = pf_beneficiary od, pe_amount = a, pe_hashlock = l,
         pe_timelock = pf_timelock od, pe_withdrawn = False, pe_refunded = False, pe_safety_deposit = c1\<rparr>)"
    unfolding create_partial_fill_escrow_def Let_def borrow_pf_def
    by (auto simp: pf_Inr with_fill_def dest!: emit_pf_Inr)
  have cc: "c1 = sd" "c2 = a" using coin_withdraw_Inr[OF w1] coin_withdraw_Inr[OF w2] by simp_all
  from coin_withdraw_Inr[OF w1] obtain c where c: "coins s r = Some c" "sd \<le> c" "coins s1 = (coins s)(r \<mapsto> c - sd)" by auto
  with coin_withdraw_Inr[OF w2] have c2: "a \<le> c - sd" "coins s2 = (coins s)(r \<mapsto> c - sd - a)" by auto
  with coin_deposit_Inr[OF w3] cc have "coins s3 = (coins s)(r \<mapsto> c - sd)" by auto
  with that[OF g(1,2,4,3) _ _ refl g(8) _ _ _ t(2)] g c c2 t cc show ?thesis by (simp add: fill_matches_def)
qed

lemma create_fill_effect:
  assumes "create_partial_fill_escrow h r b i a l ps sd s = Inr (x, t)"
  shows "pf_effect h s t"
proof -
  obtain g od e k c where g: "the_pf s = Some g" "pf_orders g b = Some od" "pf_used_indices od i = None" "i < pf_num_fills od"
    "unat (pf_filled_amount od) + unat (pe_amount e) < 2 ^ 64" "pf_filled_amount od + pe_amount e \<le> pf_total_amount od"
    "k = generate_escrow_id h b i" "pf_escrows g k = None" "fill_matches od e" "\<not> pe_withdrawn e" "\<not> pe_refunded e"
    "the_pf t = Some (with_fill g b od i k e)" and c: "pe_safety_deposit e = sd" "coins s r = Some c" "sd \<le> c" "coins t = (coins s)(r \<mapsto> c - sd)"
    using create_fill_Inr[OF assms] by metis
  have "accounts_total (coins t) + unat sd = accounts_total (coins s)"
    using accounts_total_upd[of "coins s" r "Some (c - sd)"] c by (simp add: unat_sub word_le_nat_alt)
  then show ?thesis using fill[OF g] c(1) by simp
qed

lemma pf_withdraw_Inr:
  assumes "pf_withdraw h w k x s = Inr (y, t)"
  obtains g e c b1 b2 where "the_pf s = Some g" "pf_escrows g k = Some e" "\<not> pe_withdrawn e" "\<not> pe_refunded e" "h x = pe_hashlock e"
    "the_pf t = Some (with_withdrawn g k e)"
    "coins s w = Some c" "pe_amount e \<le> c" "coins t = credited (credited (debited (coins s) w (pe_amount e)) (pe_beneficiary e) (pe_amount e)) w (pe_safety_deposit e)"
    "accounts_total (coins t) = accounts_total (coins s) + unat (pe_safety_deposit e)"
proof -
  from assms obtain g e c1 s1 s2 s3 s4 where g: "the_pf s = Some g" "pf_escrows g k = Some e" "\<not> pe_withdrawn e" "\<not> pe_refunded e" "h x = pe_hashlock e"
    and w1: "coin_withdraw w (pe_amount e) s = Inr (c1, s1)" and w2: "coin_deposit (pe_beneficiary e) c1 s1 = Inr ((), s2)"
    and s3: "s3 = s2\<lparr>globals := (globals s2)\<lparr>pf_registry := Some (with_withdrawn g k e)\<rparr>\<rparr>"
    and w3: "coin_deposit w (pe_safety_deposit e) s3 = Inr ((), s4)" and t: "the_pf t = the_pf s4" "coins t = coins s4"
    unfolding pf_withdraw_def borrow_pf_def
    by (auto simp: pf_Inr with_withdrawn_def dest!: emit_pf_Inr)
  note d = coin_withdraw_Inr[OF w1] coin_deposit_Inr[OF w2] coin_deposit_Inr[OF w3]
  from d obtain c b1 b2 where c: "coins s w = Some c" "pe_amount e \<le> c" "coins s1 = debited (coins s) w (pe_amount e)"
    "coins s2 = credited (coins s1) (pe_beneficiary e) (pe_amount e)" "coins s4 = credited (coins s3) w (pe_safety_deposit e)"
    by (auto simp: debited_def credited_def)
  have "the_pf t = Some (with_withdrawn g k e)" "coins s3 = coins s2" using t(1) d s3 by auto
  moreover from this d s3 t have "accounts_total (coins t) = accounts_total (coins s) + unat (pe_safety_deposit e)" by auto
  ultimately show ?thesis using that[OF g] c t(2) by simp
qed

lemma pf_withdraw_effect: "pf_withdraw h w k x s = Inr (y, t) \<Longrightarrow> pf_effect h s t"
  by (erule pf_withdraw_Inr) (blast intro: paid)

lemma pf_call_effect: "pf_call h time c s = Inr (x, t) \<Longrightarrow> pf_effect h s t"
  by (cases c) (auto intro: init_module_effect create_order_effect create_fill_effect pf_withdraw_effect)

lemma pf_step_effect: "aptos_ok s ev \<Longrightarrow> pf_effect h s (pf_step h s ev)"
proof (cases ev)
  case (Call time k)
  show ?thesis unfolding Call aptos_step.simps
    by (rule outcome_cases[of "pf_call h time k" s]) (auto intro: pf_call_effect same)
qed (auto intro: same)

interpretation pf_lock: htlc "pf_step h" aptos_ok "pf_inv h"
  "\<lambda>s k. pf_phase (pf_escrow_at s k)" "\<lambda>s k. pf_terms (pf_escrow_at s k)" for h
  by unfold_locales
    (blast intro: pf_effect_inv pf_step_effect, blast intro: pf_effect_phase pf_step_effect,
     blast intro: pf_effect_terms pf_step_effect)

subsection \<open>Properties\<close>

lemma no_registry_inv: "the_pf s = None \<Longrightarrow> pf_inv h s"
  by (simp add: pf_inv_def)

lemma pf_run_total:
  "pf_inv h s \<Longrightarrow> legal_run (pf_step h) aptos_ok s es \<Longrightarrow> pf_total (foldl (pf_step h) s es) = pf_total s"
  by (rule pf_lock.run_rel[where R = "\<lambda>s t. pf_total t = pf_total s"])
    (auto intro: pf_effect_total pf_step_effect)

lemma verify_loop_climb: "verify_loop h x ps i = climb (\<lambda>a b. h (a @ b)) x ps (unat i)"
proof (induction h x ps i rule: verify_loop.induct)
  case (2 h x p ps i)
  have "i mod 2 = 0 \<longleftrightarrow> unat i mod 2 = 0"
    using word_unat_eq_iff[of "i mod 2" 0] by (simp add: unat_mod)
  with 2 show ?case by (simp add: unat_div)
qed simp

definition demo_pf :: "pf_globals aptos" where
  "demo_pf = \<lparr>coins = (\<lambda>a. if a = 1 \<or> a = 3 then Some 500 else if a = 2 then Some 0 else None),
     globals = \<lparr>pf_registry = None, pf_events = None\<rparr>\<rparr>"

definition demo_pf_run :: "pf_entry aptos_event list" where
  "demo_pf_run = [Call 1 InitModule,
     Call 5 (CreateFillOrder 3 [1] 1 2 300 [6] 1 50 1 40 [] []),
     Call 6 (CreateFillEscrow 3 [1] 0 100 [6] [] 20)]"

definition demo_fill_key :: bytes where
  "demo_fill_key = generate_escrow_id id [1] 0"

definition demo_fill :: pf_escrow where
  "demo_fill = \<lparr>pe_depositor = 1, pe_beneficiary = 2, pe_amount = 100, pe_hashlock = [6], pe_timelock = 50,
     pe_withdrawn = False, pe_refunded = False, pe_safety_deposit = 20\<rparr>"

definition demo_pf_order :: pf_order where
  "demo_pf_order = \<lparr>pf_base_order_id = [1], pf_depositor = 1, pf_beneficiary = 2, pf_total_amount = 300, pf_filled_amount = 100,
     pf_merkle_root = [6], pf_num_fills = 1, pf_timelock = 50, pf_used_indices = [0 \<mapsto> True]\<rparr>"

lemma demo_pf_result:
  "the_pf (foldl (pf_step id) demo_pf demo_pf_run) =
     Some \<lparr>pf_orders = [[1] \<mapsto> demo_pf_order], pf_escrows = [demo_fill_key \<mapsto> demo_fill], pf_user_nonces = [1 \<mapsto> 1]\<rparr>"
  "coins (foldl (pf_step id) demo_pf demo_pf_run) = (coins demo_pf)(3 \<mapsto> 480)"
  by (simp_all add: demo_pf_run_def demo_pf_def demo_pf_order_def demo_fill_def demo_fill_key_def outcome_def init_module_def
      create_partial_fill_order_def create_partial_fill_escrow_def verify_merkle_proof_def tx_runs Let_def coin_withdraw_run coin_deposit_run fun_eq_iff)

lemma demo_pf_legal: "the_pf demo_pf = None" "legal_run (pf_step id) aptos_ok demo_pf demo_pf_run"
  by (simp_all add: demo_pf_def demo_pf_run_def)

text \<open>
  C21. Fills on Aptos stay within their order. After any sequence of entry functions, the amounts of
  the escrows opened for an order add up to its filled amount, which is at most its total; every
  used index is below the number of fills and has its own escrow with the parties and the time lock
  of the order. All the registry ever holds are the safety deposits: they and the coins of the
  accounts together stay the same.
\<close>

theorem move_fills_within_order:
  assumes "the_pf s = None" "legal_run (pf_step h) aptos_ok s es" "t = foldl (pf_step h) s es"
    and "the_pf t = Some r" "pf_orders r b = Some od"
  shows "(\<Sum>i | pf_used_indices od i \<noteq> None. fill_amount r (generate_escrow_id h b i)) = unat (pf_filled_amount od) \<and>
    pf_filled_amount od \<le> pf_total_amount od \<and>
    (\<forall>i. pf_used_indices od i \<noteq> None \<longrightarrow> i < pf_num_fills od \<and>
       (\<exists>e. pf_escrows r (generate_escrow_id h b i) = Some e \<and> fill_matches od e) \<and>
       (\<forall>j. pf_used_indices od j \<noteq> None \<and> j \<noteq> i \<longrightarrow> generate_escrow_id h b j \<noteq> generate_escrow_id h b i)) \<and>
    accounts_total (coins t) + (\<Sum>k\<in>dom (pf_escrows r). unat (pe_safety_deposit (the (pf_escrows r k)))) = accounts_total (coins s)"
proof -
  note s = no_registry_inv[OF assms(1), of h]
  have ok: "pf_ok h r" using pf_lock.run_inv[OF s assms(2)] assms(3,4) by (simp add: pf_inv_def)
  then have filled: "order_filled h r b od" using assms(5) by (simp add: pf_ok_def)
  have u: "fill_used r b i \<longleftrightarrow> pf_used_indices od i \<noteq> None" for i using assms(5) by (simp add: fill_used_def)
  have inj: "fill_used r b i \<Longrightarrow> fill_used r b j \<Longrightarrow> generate_escrow_id h b i = generate_escrow_id h b j \<Longrightarrow> i = j" for i j
    using ok unfolding pf_ok_def by blast
  have "pf_total t = pf_total s" using pf_run_total[OF s assms(2)] assms(3) by simp
  then have "accounts_total (coins t) + table_total (\<lambda>e. unat (pe_safety_deposit e)) (pf_escrows r) = accounts_total (coins s)"
    using assms(1,4) by (simp add: pf_total_def deposits_total_def)
  then show ?thesis using filled inj unfolding order_filled_def u table_total_def by metis
qed

theorem move_fills_within_order_witness:
  "fill_amount \<lparr>pf_orders = [[1] \<mapsto> demo_pf_order], pf_escrows = [demo_fill_key \<mapsto> demo_fill], pf_user_nonces = [1 \<mapsto> 1]\<rparr>
     (generate_escrow_id id [1] 0) = unat (pf_filled_amount demo_pf_order)"
proof -
  have "{i. pf_used_indices demo_pf_order i \<noteq> None} = {0}" by (auto simp: demo_pf_order_def split: if_splits)
  then show ?thesis using move_fills_within_order[OF demo_pf_legal refl demo_pf_result(1), of "[1]" demo_pf_order] by simp
qed

text \<open>
  The amount of a fill on Aptos is never locked. Opening an escrow takes only the safety deposit
  from the resolver; a withdrawal, which needs a preimage of the hash lock, pays the amount to the
  beneficiary out of the coins of the one who withdraws and gives that account the deposit. The
  depositor named by the order pays nothing in either.
\<close>

theorem fill_funds_from_caller:
  "(create_partial_fill_escrow h r b i a l ps sd s = Inr (x, t) \<longrightarrow> coins t = debited (coins s) r sd) \<and>
   (pf_withdraw h w k y s = Inr (x, t) \<longrightarrow>
      (\<exists>e. pf_escrow_at s k = Some e \<and> pf_phase (Some e) = Open \<and> h y = pe_hashlock e \<and>
         coins t = credited (credited (debited (coins s) w (pe_amount e)) (pe_beneficiary e) (pe_amount e)) w (pe_safety_deposit e) \<and>
         (pe_depositor e \<noteq> w \<and> pe_depositor e \<noteq> pe_beneficiary e \<longrightarrow> coins t (pe_depositor e) = coins s (pe_depositor e))))"
proof (intro conjI impI)
  assume "create_partial_fill_escrow h r b i a l ps sd s = Inr (x, t)"
  then show "coins t = debited (coins s) r sd" by (rule create_fill_Inr) (simp add: debited_def)
next
  assume "pf_withdraw h w k y s = Inr (x, t)"
  then show "\<exists>e. pf_escrow_at s k = Some e \<and> pf_phase (Some e) = Open \<and> h y = pe_hashlock e \<and>
         coins t = credited (credited (debited (coins s) w (pe_amount e)) (pe_beneficiary e) (pe_amount e)) w (pe_safety_deposit e) \<and>
         (pe_depositor e \<noteq> w \<and> pe_depositor e \<noteq> pe_beneficiary e \<longrightarrow> coins t (pe_depositor e) = coins s (pe_depositor e))"
    by (rule pf_withdraw_Inr) (auto simp: pf_escrow_at_def pf_phase_def credited_def debited_def)
qed

theorem fill_funds_from_caller_witness:
  "coins (pf_step id (foldl (pf_step id) demo_pf demo_pf_run) (Call 9 (WithdrawFill 3 demo_fill_key [6]))) 3 = Some 400 \<and>
   coins (pf_step id (foldl (pf_step id) demo_pf demo_pf_run) (Call 9 (WithdrawFill 3 demo_fill_key [6]))) 1 = Some 500"
proof -
  let ?s = "foldl (pf_step id) demo_pf demo_pf_run"
  have ev: "\<exists>evs. pf_events (globals ?s) = Some evs"
    by (simp add: demo_pf_run_def demo_pf_def outcome_def init_module_def create_partial_fill_order_def
        create_partial_fill_escrow_def verify_merkle_proof_def tx_runs Let_def coin_withdraw_run coin_deposit_run)
  have c: "coins ?s 1 = Some 500" "coins ?s 2 = Some 0" "coins ?s 3 = Some 480" unfolding demo_pf_result(2) by (simp_all add: demo_pf_def)
  from ev obtain t where t: "pf_withdraw id 3 demo_fill_key [6] ?s = Inr ((), t)"
    by (auto simp: pf_withdraw_def demo_pf_result(1) c demo_fill_def tx_runs coin_withdraw_run coin_deposit_run)
  have e: "pf_escrow_at ?s demo_fill_key = Some demo_fill" by (simp add: pf_escrow_at_def demo_pf_result)
  have "coins t = credited (credited (debited (coins ?s) 3 100) 2 100) 3 20"
    using fill_funds_from_caller[of id 0 "[]" 0 0 "[]" "[]" 0 ?s "()" t 3 demo_fill_key "[6]"] t e by (simp add: demo_fill_def)
  then show ?thesis using t c by (simp add: outcome_def credited_def debited_def)
qed

lemma pf_call_keeps:
  assumes "pf_call h time c s = Inr (x, t)" "pf_escrow_at s k = Some e" "\<And>w y. c = WithdrawFill w k y \<Longrightarrow> h y \<noteq> pe_hashlock e"
  shows "pf_escrow_at t k = Some e"
proof -
  obtain g where g: "the_pf s = Some g" "pf_escrows g k = Some e"
    using assms(2) by (auto simp: pf_escrow_at_def split: option.splits)
  show ?thesis
  proof (cases c)
    case InitModule
    with assms(1) g show ?thesis by (simp add: init_module_def tx_runs)
  next
    case (CreateFillOrder r b d n t m f u kk ex pk sg)
    with assms(1) g show ?thesis by (auto elim!: create_order_Inr simp: pf_escrow_at_def with_order_def)
  next
    case (CreateFillEscrow r b i a l ps sd)
    with assms(1) g show ?thesis by (auto elim!: create_fill_Inr simp: pf_escrow_at_def)
  next
    case (WithdrawFill w k' y)
    with assms(1,3) g show ?thesis by (auto elim!: pf_withdraw_Inr simp: pf_escrow_at_def with_withdrawn_def)
  qed
qed

lemma pf_step_keeps:
  assumes "pf_escrow_at s k = Some e" "\<And>time w x. ev = Call time (WithdrawFill w k x) \<Longrightarrow> h x \<noteq> pe_hashlock e"
  shows "pf_escrow_at (pf_step h s ev) k = Some e"
proof (cases ev)
  case (Call time c)
  show ?thesis unfolding Call aptos_step.simps
    by (rule outcome_cases[of "pf_call h time c" s]) (use assms Call in \<open>auto elim!: pf_call_keeps\<close>)
qed (use assms(1) in \<open>simp add: pf_escrow_at_def\<close>)

text \<open>
  Without a preimage of its hash lock an escrow of a fill stays open for ever: no entry function
  returns it to anybody after the time lock, and its safety deposit stays in the registry.
\<close>

theorem fill_never_refunded:
  assumes "pf_escrow_at s k = Some e"
    and "\<forall>ev\<in>set es. \<forall>time w x. ev = Call time (WithdrawFill w k x) \<longrightarrow> h x \<noteq> pe_hashlock e"
  shows "pf_escrow_at (foldl (pf_step h) s es) k = Some e"
  using assms
proof (induction es arbitrary: s)
  case (Cons ev es)
  then have "pf_escrow_at (pf_step h s ev) k = Some e" by (intro pf_step_keeps) auto
  with Cons show ?case by simp
qed simp

theorem fill_never_refunded_witness:
  "pf_escrow_at (foldl (pf_step id) (foldl (pf_step id) demo_pf demo_pf_run)
     [Call 1000 (WithdrawFill 1 demo_fill_key [7]), Call 2000 (CreateFillEscrow 3 [1] 0 100 [6] [] 20)]) demo_fill_key = Some demo_fill"
  by (rule fill_never_refunded) (auto simp: pf_escrow_at_def demo_pf_result demo_fill_def)

end
