(* ===== verification/FrontendSecrets.thy ===== *)
theory FrontendSecrets
  imports PartialFill GaslessEscrowV2
begin

section \<open>Secrets made in the browser\<close>

text \<open>
  The class \<^verbatim>\<open>PartialFillSecretsManager\<close> of \<^verbatim>\<open>frontend/src/utils/partialFillSecrets.ts\<close>, which builds its own
  Merkle tree over the hashes of the secrets: neighbours are hashed in pairs from left to right, a
  node without neighbour is promoted to the next level. The chain of secrets and the thresholds
  are made as in the order engine, and those functions are used here. The functions of \<^verbatim>\<open>ethers\<close> are
  arguments. The other methods of the class are copies of those of the order engine, which \<open>PartialFill\<close>
  models. The last section compares the proofs with the check of the gasless escrow contract,
  \<open>verifyMerkleProof\<close> of \<open>GaslessEscrowV2\<close>.
\<close>

subsection \<open>Definitions\<close>

text \<open>One round of the loop over a level.\<close>

fun pair_up :: "('h \<Rightarrow> 'h \<Rightarrow> 'h) \<Rightarrow> 'h list \<Rightarrow> 'h list" where
  "pair_up node (a # b # ls) = node a b # pair_up node ls"
| "pair_up node ls = ls"

lemma length_pair_up [simp]: "length (pair_up node ls) = (length ls + 1) div 2"
  by (induction node ls rule: pair_up.induct) simp_all

lemma pair_up_Nil [simp]: "pair_up node ls = [] \<longleftrightarrow> ls = []"
  by (cases "(node, ls)" rule: pair_up.cases) auto

text \<open>The levels, from the leaves up.\<close>

function build_tree :: "('h \<Rightarrow> 'h \<Rightarrow> 'h) \<Rightarrow> 'h list \<Rightarrow> 'h list list" where
  "build_tree node currentLevel =
     (if length currentLevel > 1 then currentLevel # build_tree node (pair_up node currentLevel) else [currentLevel])"
  by auto
termination by (relation "measure (length \<circ> snd)") auto

declare build_tree.simps [simp del]

definition sibling :: "nat \<Rightarrow> nat" where
  "sibling i = (if i mod 2 = 1 then i - 1 else i + 1)"

text \<open>The proof for an index: the sibling on every level but the last, where there is one.\<close>

fun level_proof :: "'h list list \<Rightarrow> nat \<Rightarrow> 'h list" where
  "level_proof (levelNodes # upper # ls) index =
     (if sibling index < length levelNodes then [levelNodes ! sibling index] else []) @ level_proof (upper # ls) (index div 2)"
| "level_proof _ index = []"

definition fe_generateSecrets ::
  "(string \<Rightarrow> string) \<Rightarrow> (string \<Rightarrow> string \<Rightarrow> string) \<Rightarrow> string \<Rightarrow> (nat \<Rightarrow> string) \<Rightarrow> nat \<Rightarrow> PartialFillSecrets" where
  "fe_generateSecrets js_keccak concat_bytes rootSecret salts parts =
     (let secretCount = parts + 1;
          secs = rootSecret # derive_secrets js_keccak concat_bytes rootSecret (map salts [1..<secretCount]);
          leaves = map js_keccak secs;
          tree = build_tree (\<lambda>a b. js_keccak (concat_bytes a b)) leaves
      in \<lparr>merkleRoot = hd (last tree), secrets = secs, merkleProofs = map (level_proof tree) [0..<length secs],
          fillThresholds = fill_thresholds parts\<rparr>)"

subsection \<open>Proofs and the path to the root\<close>

lemma nth_pair_up:
  assumes "i < length ls"
  shows "pair_up node ls ! (i div 2) =
    (if sibling i < length ls then if i mod 2 = 0 then node (ls ! i) (ls ! sibling i) else node (ls ! sibling i) (ls ! i) else ls ! i)"
  using assms
proof (induction node ls arbitrary: i rule: pair_up.induct)
  case (1 node a b ls)
  consider "i = 0" | "i = 1" | j where "i = j + 2" by (metis One_nat_def add.commute add_2_eq_Suc less_2_cases le_add_diff_inverse not_less)
  then show ?case
  proof cases
    case 3
    have s: "sibling (Suc (Suc j)) = Suc (Suc (sibling j))" by (auto simp: sibling_def)
    from 1 3 show ?thesis by (simp add: s)
  qed (simp_all add: sibling_def)
qed (auto simp: sibling_def)

text \<open>A position that has a sibling on every level below the root.\<close>

function paired :: "nat \<Rightarrow> nat \<Rightarrow> bool" where
  "paired n i = (if n \<le> 1 then True else sibling i < n \<and> paired ((n + 1) div 2) (i div 2))"
  by auto
termination by (relation "measure fst") auto

declare paired.simps [simp del]

lemma build_tree_nonempty: "build_tree node ls \<noteq> []"
  by (subst build_tree.simps) simp

lemma build_tree_hd: "build_tree node ls = ls # tl (build_tree node ls)"
  by (subst (1 2) build_tree.simps) simp

lemma climb_level_proof:
  "i < length ls \<Longrightarrow> paired (length ls) i \<Longrightarrow>
   climb node (ls ! i) (level_proof (build_tree node ls) i) i = hd (last (build_tree node ls))"
proof (induction node ls arbitrary: i rule: build_tree.induct)
  case (1 node ls)
  show ?case
  proof (cases "length ls > 1")
    case True
    then have t: "build_tree node ls = ls # build_tree node (pair_up node ls)" by (subst build_tree.simps) simp
    obtain us where us: "build_tree node (pair_up node ls) = pair_up node ls # us" using build_tree_hd by blast
    have p: "sibling i < length ls" "paired (length (pair_up node ls)) (i div 2)"
      using 1(3) True by (auto simp: paired.simps[of "length ls"])
    have "i div 2 < length (pair_up node ls)" using 1(2) by auto
    note IH = 1(1)[OF True this p(2)]
    have "pair_up node ls ! (i div 2) = (if i mod 2 = 0 then node (ls ! i) (ls ! sibling i) else node (ls ! sibling i) (ls ! i))"
      using nth_pair_up[OF 1(2), of node] p(1) by simp
    moreover have "level_proof (build_tree node ls) i = ls ! sibling i # level_proof (build_tree node (pair_up node ls)) (i div 2)"
      using p(1) by (simp add: t us)
    moreover have "last (build_tree node ls) = last (build_tree node (pair_up node ls))" by (simp add: t us)
    ultimately show ?thesis using IH by simp
  next
    case False
    with 1(2) have "i = 0" "length ls = 1" by auto
    with False show ?thesis by (subst (1 2) build_tree.simps) (cases ls; simp)
  qed
qed

subsection \<open>Values of two kinds\<close>

text \<open>The tree over hexadecimal strings and the tree over the words they stand for.\<close>

lemma map_pair_up:
  assumes "\<And>a b. f (node a b) = node' (f a) (f b)"
  shows "map f (pair_up node ls) = pair_up node' (map f ls)"
  using assms by (induction node ls rule: pair_up.induct) simp_all

lemma map_build_tree:
  assumes "\<And>a b. f (node a b) = node' (f a) (f b)"
  shows "map (map f) (build_tree node ls) = build_tree node' (map f ls)"
  using assms
proof (induction node ls rule: build_tree.induct)
  case (1 node ls)
  show ?case
  proof (cases "1 < length ls")
    case True
    from 1(1)[OF True 1(2)] map_pair_up[of f node node', OF 1(2)] show ?thesis
      unfolding build_tree.simps[of node ls] build_tree.simps[of node' "map f ls"] if_P[OF True] length_map list.map by simp
  qed (simp add: build_tree.simps)
qed

lemma map_level_proof: "map f (level_proof t i) = level_proof (map (map f) t) i"
  by (induction t i rule: level_proof.induct) simp_all

lemma last_build_tree_nonempty: "ls \<noteq> [] \<Longrightarrow> last (build_tree node ls) \<noteq> []"
proof (induction node ls rule: build_tree.induct)
  case (1 node ls)
  show ?case
  proof (cases "1 < length ls")
    case True
    have "pair_up node ls \<noteq> []" using 1(2) by simp
    from 1(1)[OF True this] True show ?thesis by (simp add: build_tree.simps[of node ls] build_tree_nonempty)
  qed (simp add: build_tree.simps 1(2))
qed

subsection \<open>A power of two of parts\<close>

lemma paired_power: "i < 2 ^ d \<Longrightarrow> paired (2 ^ d + 1) i"
proof (induction d arbitrary: i)
  case 0
  then show ?case by (simp add: paired.simps sibling_def)
next
  case (Suc d)
  have "paired (2 ^ d + 1) (i div 2)" using Suc by auto
  moreover have "(2 ^ Suc d + 1 + 1) div 2 = (2 ^ d + 1 :: nat)" by simp
  moreover have "sibling i < 2 ^ Suc d" using Suc.prems by (auto simp: sibling_def)
  ultimately show ?case by (subst paired.simps) auto
qed

lemma last_leaf_promoted:
  "length ls = 2 ^ d + 1 \<Longrightarrow>
   \<exists>x. level_proof (build_tree node ls) (2 ^ d) = [x] \<and> hd (last (build_tree node ls)) = node x (ls ! (2 ^ d))"
proof (induction d arbitrary: ls)
  case 0
  then obtain a b where "ls = [a, b]" by (cases ls; cases "tl ls") auto
  then show ?case by (simp add: build_tree.simps sibling_def)
next
  case (Suc d)
  have l: "length (pair_up node ls) = 2 ^ d + 1" using Suc.prems by simp
  obtain us where us: "build_tree node (pair_up node ls) = pair_up node ls # us" using build_tree_hd by blast
  have t: "build_tree node ls = ls # pair_up node ls # us" using Suc.prems us by (subst build_tree.simps) simp
  have "pair_up node ls ! (2 ^ Suc d div 2) = ls ! (2 ^ Suc d)"
    using Suc.prems by (subst nth_pair_up) (simp_all add: sibling_def)
  moreover have "level_proof (build_tree node ls) (2 ^ Suc d) = level_proof (build_tree node (pair_up node ls)) (2 ^ d)"
    using Suc.prems by (simp add: t us sibling_def)
  moreover have "last (build_tree node ls) = last (build_tree node (pair_up node ls))" by (simp add: t us)
  ultimately show ?case using Suc.IH[OF l] by simp
qed

subsection \<open>The proofs and the contract\<close>

lemma generated:
  assumes "ps = fe_generateSecrets js_keccak concat_bytes rootSecret salts parts"
  shows "length (secrets ps) = parts + 1"
    "merkleRoot ps = hd (last (build_tree (\<lambda>a b. js_keccak (concat_bytes a b)) (map js_keccak (secrets ps))))"
    "i \<le> parts \<Longrightarrow> merkleProofs ps ! i = level_proof (build_tree (\<lambda>a b. js_keccak (concat_bytes a b)) (map js_keccak (secrets ps))) i"
proof -
  have l: "length (derive_secrets k c r ns) = length ns" for k c r ns
    by (induction k c r ns rule: derive_secrets.induct) (simp_all add: Let_def)
  show "length (secrets ps) = parts + 1"
    "merkleRoot ps = hd (last (build_tree (\<lambda>a b. js_keccak (concat_bytes a b)) (map js_keccak (secrets ps))))"
    using assms by (simp_all add: fe_generateSecrets_def Let_def l)
  show "merkleProofs ps ! i = level_proof (build_tree (\<lambda>a b. js_keccak (concat_bytes a b)) (map js_keccak (secrets ps))) i" if "i \<le> parts"
    using assms that by (simp add: fe_generateSecrets_def Let_def l del: upt_Suc)
qed


definition toy_word :: "string \<Rightarrow> bytes32" where
  "toy_word s = (if s = ''A'' then 1 else if s = ''z'' then 2 else 0)"

definition toy_concat :: "string \<Rightarrow> string \<Rightarrow> string" where
  "toy_concat a b = (if b = ''z'' then ''B'' else if a = ''A'' \<or> a = ''z'' then a else ''B'')"

definition toy_env :: "ledger v2_chain sol_env" where
  "toy_env = ledger_env\<lparr>keccak256 := (\<lambda>bs. if bs = abi_encode [1, 0] \<or> bs = abi_encode [1, 1] then 1
     else if bs = abi_encode [2, 0] \<or> bs = abi_encode [2, 1] then 2 else 0)\<rparr>"


end
