(* ===== verification/FrontendMetaTx.thy ===== *)
theory FrontendMetaTx
  imports ResolverFlow GaslessEscrow
begin

section \<open>The message a maker signs in the browser\<close>

text \<open>
  The class \<^verbatim>\<open>GaslessWETHTransaction\<close> of \<^verbatim>\<open>frontend/src/utils/gaslessWETHTransaction.ts\<close>: the message of a gasless
  escrow, its signature by the wallet, and the data sent to the resolver. The wallet is a datatype
  by the methods it has. The object handed to \<^verbatim>\<open>eth_signTypedData_v4\<close> is kept as a value: the source passes its
  JSON text. The last section relates the message to the digest of the contract.
\<close>

record GaslessEscrowParams =
  gp_escrowId :: "byte list"
  gp_depositor :: string
  gp_beneficiary :: string
  gp_token :: string
  gp_amount :: string
  gp_hashlock :: "byte list"
  gp_timelock :: jsnum

record gasless_self =
  gs_escrowAddress :: string
  gs_chainId :: jsnum

definition toHex :: "byte list \<Rightarrow> string" where
  "toHex bs = ''0x'' @ concat (map (\<lambda>b. pad_zeros 2 (hex_nat (unat b))) bs)"

definition gs_domain :: "gasless_self \<Rightarrow> jsval" where
  "gs_domain self = JObj [(''name'', JStr ''FusionPlusGaslessEscrowV2''), (''version'', JStr ''1''), (''chainId'', JNum (gs_chainId self)),
     (''verifyingContract'', JStr (gs_escrowAddress self))]"

definition escrow_fields :: "(string \<times> string) list" where
  "escrow_fields = [(''escrowId'', ''bytes32''), (''depositor'', ''address''), (''beneficiary'', ''address''), (''token'', ''address''),
     (''amount'', ''uint256''), (''hashlock'', ''bytes32''), (''timelock'', ''uint256''), (''nonce'', ''uint256''), (''deadline'', ''uint256'')]"

definition field_list :: "(string \<times> string) list \<Rightarrow> jsval" where
  "field_list fs = JArr (map (\<lambda>(n, t). JObj [(''name'', JStr n), (''type'', JStr t)]) fs)"

definition gs_types :: jsval where
  "gs_types = JObj [(''CreateEscrow'', field_list escrow_fields)]"

definition gs_getNonce :: "gasless_self \<Rightarrow> string \<Rightarrow> ('s, jsnum) prog" where
  "gs_getNonce self user =
     bind_p (big_p (call ''contract.getNonce'' [JStr (gs_escrowAddress self), JStr user])) (\<lambda>n. ret (fl (of_int n)))"

definition buildMetaTxMessage :: "gasless_self \<Rightarrow> GaslessEscrowParams \<Rightarrow> ('s, jsval \<times> jsnum) prog" where
  "buildMetaTxMessage self params =
     bind_p (gs_getNonce self (gp_depositor params)) (\<lambda>nonce1.
     bind_p hour_lock (\<lambda>deadline1.
     ret (JObj [(''escrowId'', JStr (toHex (gp_escrowId params))), (''depositor'', JStr (gp_depositor params)), (''beneficiary'', JStr (gp_beneficiary params)),
       (''token'', JStr (gp_token params)), (''amount'', JStr (gp_amount params)), (''hashlock'', JStr (toHex (gp_hashlock params))),
       (''timelock'', JNum (gp_timelock params)), (''nonce'', JNum nonce1), (''deadline'', JNum deadline1)], deadline1)))"

datatype wallet = OldSigner | NewSigner | ProviderSigner | BareSigner

definition wallet_sign :: "gasless_self \<Rightarrow> wallet \<Rightarrow> jsval \<Rightarrow> ('s, jsval) prog" where
  "wallet_sign self wlt msg1 =
     (case wlt of
        OldSigner \<Rightarrow> call ''signer._signTypedData'' [gs_domain self, gs_types, msg1]
      | NewSigner \<Rightarrow> call ''signer.signTypedData'' [gs_domain self, gs_types, msg1]
      | ProviderSigner \<Rightarrow>
          bind_p (call ''signer.getAddress'' []) (\<lambda>addr.
          call ''provider.send'' [JStr ''eth_signTypedData_v4'', JStr (toLowerCase (to_string addr)),
            JObj [(''domain'', gs_domain self),
              (''types'', JObj [(''EIP712Domain'', field_list [(''name'', ''string''), (''version'', ''string''), (''chainId'', ''uint256''),
                 (''verifyingContract'', ''address'')]), (''CreateEscrow'', field_list escrow_fields)]),
              (''primaryType'', JStr ''CreateEscrow''), (''message'', msg1)]])
      | BareSigner \<Rightarrow> raise (Error ''No provider available for signing''))"

definition signMetaTx :: "gasless_self \<Rightarrow> wallet \<Rightarrow> GaslessEscrowParams \<Rightarrow> ('s, jsval \<times> jsval \<times> jsnum) prog" where
  "signMetaTx self wlt params =
     bind_p (buildMetaTxMessage self params) (\<lambda>(msg1, deadline1).
     bind_p (try_catch (wallet_sign self wlt msg1)
       (\<lambda>error. raise (Error (''Failed to sign gasless transaction: '' @ message error)))) (\<lambda>sigText.
     bind_p (call ''ethers.Signature.from'' [sigText]) (\<lambda>sig.
     bind_p (prop_p sig ''v'') (\<lambda>v. bind_p (prop_p sig ''r'') (\<lambda>r. bind_p (prop_p sig ''s'') (\<lambda>s.
     ret (JObj [(''v'', v), (''r'', r), (''s'', s)], msg1, deadline1)))))))"

definition prepareGaslessEscrowData :: "GaslessEscrowParams \<Rightarrow> jsval \<Rightarrow> jsnum \<Rightarrow> jsval" where
  "prepareGaslessEscrowData params sig deadline1 =
     JObj [(''escrowId'', JStr (toHex (gp_escrowId params))), (''depositor'', JStr (gp_depositor params)), (''beneficiary'', JStr (gp_beneficiary params)),
       (''token'', JStr (gp_token params)), (''amount'', JStr (gp_amount params)), (''hashlock'', JStr (toHex (gp_hashlock params))),
       (''timelock'', JStr (show_num (gp_timelock params))), (''deadline'', JStr (show_num deadline1)),
       (''metaTxV'', opt_prop sig ''v''), (''metaTxR'', opt_prop sig ''r''), (''metaTxS'', opt_prop sig ''s'')]"

definition checkWETHApproval :: "gasless_self \<Rightarrow> string \<Rightarrow> string \<Rightarrow> ('s, bool \<times> int) prog" where
  "checkWETHApproval self user weth =
     bind_p (big_p (call ''contract.allowance'' [JStr weth, JStr user, JStr (gs_escrowAddress self)])) (\<lambda>allowance.
     bind_p (parseEther ''1'') (\<lambda>one. ret (one < allowance, allowance)))"

definition gs_signPermit :: "string \<Rightarrow> string \<Rightarrow> string \<Rightarrow> jsnum \<Rightarrow> ('s, jsval) prog" where
  "gs_signPermit tok spender v deadline1 = raise (Error ''Permit signing not implemented for this token'')"

subsection \<open>The digest of the contract\<close>

text \<open>
  The structure hash of EIP-712 for a message with fields of word size: the hash of the type string
  and of the encoded values in the order of the fields. \<open>abi\<close> encodes one value.
\<close>

fun join_fields :: "(string \<times> string) list \<Rightarrow> string" where
  "join_fields [] = ''''"
| "join_fields [(n, t)] = t @ '' '' @ n"
| "join_fields ((n, t) # fs) = t @ '' '' @ n @ '','' @ join_fields fs"

definition struct_hash :: "'c sol_env \<Rightarrow> (jsval \<Rightarrow> bytes32) \<Rightarrow> string \<Rightarrow> (string \<times> string) list \<Rightarrow> jsval \<Rightarrow> bytes32" where
  "struct_hash env abi name fs msg1 = keccak256 env (abi_encode
     (keccak256 env (text_bytes (name @ ''('' @ join_fields fs @ '')'')) # map (\<lambda>(n, t). abi (opt_prop msg1 n)) fs))"

text \<open>The parameters of the contract call the resolver makes of the data it was sent.\<close>

definition decodes :: "(jsval \<Rightarrow> bytes32) \<Rightarrow> jsval \<Rightarrow> MetaTxParams \<Rightarrow> bool" where
  "decodes abi g p \<longleftrightarrow>
     abi (opt_prop g ''escrowId'') = p_escrowId p \<and> abi (opt_prop g ''depositor'') = address_word (p_depositor p) \<and>
     abi (opt_prop g ''beneficiary'') = address_word (p_beneficiary p) \<and> abi (opt_prop g ''token'') = address_word (p_token p) \<and>
     abi (opt_prop g ''amount'') = p_amount p \<and> abi (opt_prop g ''hashlock'') = p_hashlock p \<and>
     abi (opt_prop g ''timelock'') = p_timelock p \<and> abi (opt_prop g ''deadline'') = p_deadline p"

lemma type_text:
  "''CreateEscrow'' @ ''('' @ join_fields escrow_fields @ '')'' =
   ''CreateEscrow(bytes32 escrowId,address depositor,address beneficiary,address token,uint256 amount,bytes32 hashlock,uint256 timelock,uint256 nonce,uint256 deadline)''"
  by (simp add: escrow_fields_def)


text \<open>A maker with nonce 3, and an encoding of a text by its characters.\<close>

definition meta_self :: gasless_self where
  "meta_self = \<lparr>gs_escrowAddress = ''0xe'', gs_chainId = Fin 11155111\<rparr>"

definition meta_params :: GaslessEscrowParams where
  "meta_params = \<lparr>gp_escrowId = [7], gp_depositor = ''0xa'', gp_beneficiary = ''0xb'', gp_token = ''0xc'', gp_amount = ''100'',
     gp_hashlock = [6, 255], gp_timelock = Fin 50\<rparr>"

definition meta_answers :: outside where
  "meta_answers t c =
     (if ext_name c = ''contract.getNonce'' then Inr (JBig 3) else if ext_name c = ''Date.now'' then Inr (JNum (Fin 5000))
      else if ext_name c = ''ethers.Signature.from'' then Inr (JObj [(''v'', JNum (Fin 27)), (''r'', JStr ''0x1''), (''s'', JStr ''0x2'')])
      else Inr (JStr ''0xs''))"

definition text_word :: "string \<Rightarrow> bytes32" where
  "text_word t = foldl (\<lambda>a c. a * 256 + of_nat (of_char c)) 0 t"

definition meta_abi :: "jsval \<Rightarrow> bytes32" where
  "meta_abi v = (case v of JNum x \<Rightarrow> text_word (show_num x) | JStr t \<Rightarrow> text_word t | _ \<Rightarrow> 0)"

definition meta_contract :: MetaTxParams where
  "meta_contract = \<lparr>p_escrowId = text_word ''0x07'', p_depositor = ucast (text_word ''0xa''), p_beneficiary = ucast (text_word ''0xb''),
     p_token = ucast (text_word ''0xc''), p_amount = text_word ''100'', p_hashlock = text_word ''0x06ff'', p_timelock = text_word ''50'',
     p_deadline = text_word ''3605''\<rparr>"

lemma meta_deadline: "js_add (js_floor (fl 5)) (Fin 3600) = Fin 3605" "show_pos_num 3605 = ''3605''"
  "show_pos_num 50 = ''50''" "show_num (fl 3) = ''3''" "toHex [7] = ''0x07''" "toHex [6, 255] = ''0x06ff''"
  "text_word ''0xa'' = ucast (ucast (text_word ''0xa'') :: evm_address)" "text_word ''0xb'' = ucast (ucast (text_word ''0xb'') :: evm_address)"
  "text_word ''0xc'' = ucast (ucast (text_word ''0xc'') :: evm_address)"
  by code_simp+


end
