(* ===== verification/ClientSdk.thy ===== *)
theory ClientSdk
  imports ResolverFlow Relayer
begin

section \<open>The client library\<close>

text \<open>
  The class \<^verbatim>\<open>FusionPlusClient\<close> (\<^verbatim>\<open>backend/client-sdk/src/FusionPlusClient.ts\<close>): the intent of a swap, its
  signature, and the requests a client makes of the order engine and of the relayer. \<open>self\<close> holds
  the two addresses, whether a signer is set, and what is read from the environment. The last part
  sends the requests to the model of the relayer.
\<close>

record sdk_self =
  engineUrl :: string
  relayerUrl :: string
  signerSet :: bool
  nodeEnv :: "string option"
  resolverEnv :: "string option"

record intent_params =
  ip_fromChain :: Chain
  ip_toChain :: Chain
  ip_fromAmount :: string
  ip_minToAmount :: string
  ip_receiver :: "string option"

record EscrowInfo =
  ei_escrowId :: string
  ei_chain :: string
  ei_secretHash :: string
  ei_timelock :: jsnum
  ei_amount :: string
  ei_beneficiary :: string

definition native_token :: "Chain \<Rightarrow> string" where
  "native_token c = (case c of ETHEREUM \<Rightarrow> ZeroAddress | APTOS \<Rightarrow> ''0x1::aptos_coin::AptosCoin'')"

definition intent_types :: jsval where
  "intent_types = JObj [(''SwapIntent'', JArr (map (\<lambda>(n, t). JObj [(''name'', JStr n), (''type'', JStr t)])
     [(''fromChain'', ''string''), (''toChain'', ''string''), (''fromToken'', ''address''), (''toToken'', ''address''),
      (''fromAmount'', ''uint256''), (''minToAmount'', ''uint256''), (''maker'', ''address''), (''receiver'', ''address''),
      (''deadline'', ''uint256''), (''nonce'', ''string'')]))]"

definition intent_domain :: "Chain \<Rightarrow> jsval" where
  "intent_domain c = JObj [(''name'', JStr ''Fusion+ Extension''), (''version'', JStr ''1''),
     (''chainId'', JNum (Fin (case c of ETHEREUM \<Rightarrow> 11155111 | APTOS \<Rightarrow> 1))), (''verifyingContract'', JStr ZeroAddress)]"

definition signIntent :: "sdk_self \<Rightarrow> Chain \<Rightarrow> jsval \<Rightarrow> ('s, jsval) prog" where
  "signIntent self c intent =
     (if \<not> signerSet self then raise (Error ''Signer not set'')
      else if nodeEnv self = Some ''development'' then ret (JStr ''0x00'')
      else call ''signer.signTypedData'' [intent_domain c, intent_types, intent])"

definition swap_intent :: "intent_params \<Rightarrow> jsval \<Rightarrow> jsnum \<Rightarrow> jsval \<Rightarrow> (string \<times> jsval) list" where
  "swap_intent p mk seconds nonceText =
     [(''fromChain'', chain_val (ip_fromChain p)), (''toChain'', chain_val (ip_toChain p)),
      (''fromToken'', JStr (native_token (ip_fromChain p))), (''toToken'', JStr (native_token (ip_toChain p))),
      (''fromAmount'', JStr (ip_fromAmount p)), (''minToAmount'', JStr (ip_minToAmount p)), (''maker'', mk),
      (''receiver'', js_or (opt_val JStr (ip_receiver p)) mk), (''deadline'', JNum (js_add seconds (Fin 3600))), (''nonce'', nonceText)]"

definition createSwapIntent :: "sdk_self \<Rightarrow> intent_params \<Rightarrow> ('s, jsval) prog" where
  "createSwapIntent self p =
     (if \<not> signerSet self then raise (Error ''Signer not set'')
      else
        bind_p (call ''signer.getAddress'' []) (\<lambda>mk.
        bind_p clock_seconds (\<lambda>seconds.
        bind_p (call ''Date.now'' []) (\<lambda>now.
        let intent = swap_intent p mk seconds (JStr (to_string now))
        in bind_p (signIntent self (ip_fromChain p) (JObj intent)) (\<lambda>sig.
           bind_p (call ''axios.post'' [JStr (engineUrl self @ ''/api/orders''),
             JObj (intent @ [(''signature'', sig), (''partialFillAllowed'', JBool False)])]) (\<lambda>response.
           bind_p (prop_p response ''data'') (\<lambda>d. bind_p (prop_p d ''data'') (\<lambda>o1. prop_p o1 ''id''))))))))"

definition relay_body :: "jsval \<Rightarrow> string \<Rightarrow> jsval \<Rightarrow> jsval \<Rightarrow> jsval" where
  "relay_body c kind params nonceText = JObj
     [(''chain'', c), (''type'', JStr kind), (''params'', params), (''signature'', JStr ''0x00''), (''nonce'', nonceText)]"

definition post_relay :: "sdk_self \<Rightarrow> jsval \<Rightarrow> ('s, jsval) prog" where
  "post_relay self body =
     bind_p (call ''axios.post'' [JStr (relayerUrl self @ ''/relay''), body]) (\<lambda>response.
     bind_p (prop_p response ''data'') (\<lambda>d. prop_p d ''txHash''))"

text \<open>The lock time of the source escrow is an hour past that of the destination escrow.\<close>

definition source_params :: "sdk_self \<Rightarrow> EscrowInfo \<Rightarrow> string \<Rightarrow> jsval \<Rightarrow> int \<Rightarrow> jsval" where
  "source_params self info amt escrowId deposit = JObj
     [(''escrowId'', escrowId), (''beneficiary'', opt_val JStr (resolverEnv self)), (''token'', JStr ZeroAddress), (''amount'', JStr amt),
      (''hashlock'', JStr (ei_secretHash info)), (''timelock'', JNum (js_add (ei_timelock info) (Fin 3600))),
      (''safetyDeposit'', JStr (show_int deposit))]"

definition createSourceEscrow :: "sdk_self \<Rightarrow> EscrowInfo \<Rightarrow> string \<Rightarrow> ('s, jsval) prog" where
  "createSourceEscrow self info amt =
     (if \<not> signerSet self then raise (Error ''Signer not set'')
      else
        bind_p (call ''ethers.id'' [JStr (ei_escrowId info @ ''-source'')]) (\<lambda>escrowId.
        bind_p (parseEther ''0.001'') (\<lambda>deposit.
        bind_p (call ''Date.now'' []) (\<lambda>now.
        post_relay self (relay_body (JStr ''ETHEREUM'') ''CREATE_ESCROW'' (source_params self info amt escrowId deposit) (JStr (to_string now)))))))"

definition withdrawFromEscrow :: "sdk_self \<Rightarrow> string \<Rightarrow> string \<Rightarrow> Chain \<Rightarrow> ('s, jsval) prog" where
  "withdrawFromEscrow self escrowId secret c =
     bind_p (call ''Date.now'' []) (\<lambda>now.
     post_relay self (relay_body (chain_val c) ''WITHDRAW_ESCROW'' (JObj [(''escrowId'', JStr escrowId), (''secret'', JStr secret)])
       (JStr (to_string now))))"

definition sdk_getOrder :: "sdk_self \<Rightarrow> string \<Rightarrow> ('s, jsval) prog" where
  "sdk_getOrder self orderId =
     bind_p (call ''axios.get'' [JStr (engineUrl self @ ''/api/orders/'' @ orderId)]) (\<lambda>response.
     bind_p (prop_p response ''data'') (\<lambda>d. prop_p d ''data''))"

definition getRelayerInfo :: "sdk_self \<Rightarrow> ('s, jsval) prog" where
  "getRelayerInfo self = bind_p (call ''axios.get'' [JStr (relayerUrl self @ ''/info'')]) (\<lambda>response. prop_p response ''data'')"

subsection \<open>At the relayer\<close>

text \<open>The body of a request, as the relayer reads it.\<close>

definition text_of :: "jsval \<Rightarrow> string option" where
  "text_of v = (case v of JStr t \<Rightarrow> Some t | _ \<Rightarrow> None)"

definition request_of :: "jsval \<Rightarrow> RelayRequest" where
  "request_of body = \<lparr>rq_chain = text_of (opt_prop body ''chain''), rq_type = text_of (opt_prop body ''type''),
     rq_params = opt_prop body ''params'', rq_signature = text_of (opt_prop body ''signature''), rq_nonce = text_of (opt_prop body ''nonce'')\<rparr>"

lemma show_int_nonempty [simp]: "show_int n \<noteq> []"
  by (simp add: show_int_def)

lemma show_num_nonempty [simp]: "show_num x \<noteq> []"
  by (cases x) (auto simp: show_pos_num_def Let_def)


definition sdk_answers :: outside where
  "sdk_answers t c =
     (if ext_name c = ''ethers.id'' then Inr (JStr ''0xi'') else if ext_name c = ''ethers.parseEther'' then Inr (JBig 7)
      else if ext_name c = ''Date.now'' then Inr (JNum (Fin 5)) else Inr (JObj [(''data'', JObj [(''txHash'', JStr ''0xt'')])]))"

definition sdk_demo :: sdk_self where
  "sdk_demo = \<lparr>engineUrl = ''e'', relayerUrl = ''r'', signerSet = True, nodeEnv = None, resolverEnv = Some ''0xr''\<rparr>"


end
