(* ===== verification/Spec2Isabelle.thy ===== *)
theory Spec2Isabelle
  imports DutchAuction PartialFill OrderService OrderApi OrderSocket Relayer PriceService
    ResolverPolicy AptosChain ResolverFlow EvmEscrow GaslessEscrow GaslessEscrowV2 PermitContract
    MoveEscrow MovePartialFill FrontendSecrets FrontendMetaTx ClientSdk
begin

text \<open>
  \<^bold>\<open>Fusion+ between Ethereum and Aptos.\<close> A maker posts an order to swap a token on one chain for a token
  on the other. Resolvers compete for it at the rate of a Dutch auction. A resolver locks its own
  tokens for the receiver in an escrow on the destination chain, the tokens of the maker are locked in
  an escrow on the source chain under the same hash, and the secret that opens the one opens the
  other. The parts of the program are

  \<^item> the order engine (\<^verbatim>\<open>backend/order-engine/src\<close>): the order book, its HTTP and socket interfaces, the
    auction, the secrets of partial fills and the check of order signatures;
  \<^item> the resolver (\<^verbatim>\<open>backend/resolver/src\<close>): \<^verbatim>\<open>ResolverServiceV2\<close> with the services for the two chains,
    for prices, permits, WETH and balances. It listens to the socket of the engine;
  \<^item> the relayer (\<^verbatim>\<open>backend/relayer/src\<close>), which submits requests of users and pays for them, and the client
    library (\<^verbatim>\<open>backend/client-sdk/src\<close>) that sends such requests;
  \<^item> the contracts for Ethereum (\<^verbatim>\<open>contracts/ethereum/contracts\<close>) and the modules for Aptos
    (\<^verbatim>\<open>contracts/aptos/sources\<close>);
  \<^item> the web application (\<^verbatim>\<open>frontend/src\<close>), of which the parts that make secrets and signatures are modelled.

  \<^bold>\<open>Foundations.\<close> \<open>Prelude\<close> has the maps and sets of JavaScript as association lists in insertion order
  (\<open>kv_store\<close>, interpreted on them) and the locale \<open>machine\<close>: a step function, the calls allowed in a
  state and an invariant; what holds after every sequence of steps is proved there once.
  \<open>stable_machine\<close> extends it with a condition that is never left. \<open>JSNumber\<close> models a number as an
  exact rational or one of the three special values, with the rounding of binary64 after each
  operation; the locale \<open>rounding\<close> has the laws the arithmetic needs. \<open>JSText\<close> and \<open>JSValue\<close> have
  strings, bigints and untyped values. \<open>Effects\<close> has programs that await calls: a program is a
  function of an oracle, which answers or refuses each call from the calls made so far, and of a world,
  the state with the trace of all calls. A theorem about a program holds for every oracle, so for
  every behaviour of the chains, the libraries and the other services. \<open>Transactions\<close>, \<open>Evm\<close> and
  \<open>MoveChain\<close> have transactions that either complete or leave no trace; machine words keep their
  width, and arithmetic that overflows reverts where the language checks it. \<open>Htlc\<close> is the interface of
  a hash time lock contract as a locale that extends \<open>machine\<close>; every escrow contract and module
  interprets it on its own transactions. \<open>Merkle\<close> has the trees the two partial fill contracts share.

  \<^bold>\<open>Order engine.\<close> \<open>OrderTypes\<close> has the data of \<^verbatim>\<open>types/order.ts\<close>. \<open>OrderService\<close> models the class of that name, with
  the emitted events as a part of its state: the terms of an order never change, a fill gets the status its sum
  calls for, a closed order stays closed unless the percentage is overridden. \<open>OrderApi\<close> and
  \<open>OrderSocket\<close> have one branch for each route and for each listener; each request refines a sequence of
  calls of the order service. \<open>DutchAuction\<close> shows with all rounding that the rate of a sound
  auction stays between its ends and does not rise. \<open>PartialFill\<close> shows that the secrets cover every
  fill and that the parts of an amount never exceed it. \<open>Signature\<close> is the check of a signed order.

  \<^bold>\<open>Resolver.\<close> \<open>ResolverPolicy\<close> has the pure decisions (whether and how much to fill; resolvers exclude one
  another). \<open>PriceService\<close> has prices and balances, \<open>AptosChain\<close> the class \<^verbatim>\<open>AptosChainServiceV2\<close> and
  \<open>ChainService\<close> the class \<^verbatim>\<open>ChainServiceSimple\<close> with its two helpers. \<open>SwapFlow\<close> has the state of
  \<^verbatim>\<open>ResolverServiceV2\<close> and the methods from a revealed secret on (\<^verbatim>\<open>completeSwap\<close>, the two \<^verbatim>\<open>secret:reveal\<close>
  branches); \<open>ResolverFlow\<close> has the rest: fills, creation of escrows, monitoring, the signed, delegated,
  sponsored, permit and multi-agent orders, and \<open>on_event\<close>, one branch for each listener and timer.
  The lemmas there are small logics of runs: \<open>keeps\<close> (an invariant of the state), \<open>costs\<close> (how many calls of a
  kind), \<open>ordered\<close> (a kind of call only after another), \<open>returns\<close> (a run that returns, with the calls of
  interest it made). They show that the resolver locks first, that it redeems the source before it
  pays, that a pending swap is dropped only by its completion, and that its state stays
  well formed after every sequence of events.

  \<^bold>\<open>Relayer, client library and browser.\<close> \<open>Relayer\<close> splits a request where it awaits, so that requests
  interleave: a nonce is used once when they do not overlap. \<open>ClientSdk\<close> sends the requests of the client to that
  model. \<open>FrontendSecrets\<close> builds the Merkle tree of the browser and gives its proofs to the
  contract: all are accepted but the last. \<open>FrontendMetaTx\<close> has the message a maker signs; its hash is
  the one the contract computes.

  \<^bold>\<open>Contracts.\<close> \<open>EvmEscrow\<close> (\<^verbatim>\<open>FusionPlusEscrow.sol\<close>, \<^verbatim>\<open>FusionPlusEscrowV2.sol\<close>), \<open>GaslessEscrow\<close>, \<open>GaslessEscrowV2\<close>,
  \<open>PermitContract\<close> (with \<^verbatim>\<open>LayerZeroAdapter.sol\<close>), \<open>MoveEscrow\<close> (\<^verbatim>\<open>escrow\<close>, \<^verbatim>\<open>escrow_v3\<close> and the adapter) and
  \<open>MovePartialFill\<close> have one definition for each function. The theorems: a contract holds what it
  owes, an escrow is settled at most once, an open escrow can be redeemed with its secret or returned after its
  time lock, fills stay within their order, and no message is accepted twice or without its signer.

  \<^bold>\<open>Across components.\<close> This theory runs the \<^verbatim>\<open>secret:reveal\<close> handler of the resolver against the Aptos
  module and the Ethereum contract, whose transactions succeed exactly when the models do.

  \<^bold>\<open>Hypotheses and bounds.\<close> Hash functions, signature recovery, token contracts, \<^verbatim>\<open>ethers\<close>, the Aptos SDK
  and \<^verbatim>\<open>merkletreejs\<close> are arguments; what a theorem needs of them is among its hypotheses (a token that
  moves what it says, for example), and its witness instantiates them. No fuel is used: every
  loop of the sources that is modelled is bounded, and its definition terminates. Retries
  count down from the number in the source (three for a withdrawal on Aptos). A theorem on
  Merkle trees is for trees of depth below 256, the width of an index. A handler of the resolver runs to its end
  before the next event: interleavings of two handlers at their awaits are not modelled. The time of a
  call of the order service is one instant.

  \<^bold>\<open>Not modelled.\<close> The pages of the web application (rendering and wallet prompts of React), and its other services
  and wallet helpers, which each hand one request to a browser wallet or an SDK; the start-up files, which read the
  environment and open ports; the parsing of a request against its schema, which the library \<^verbatim>\<open>zod\<close>
  performs; console output; deployment, funding and debugging scripts, tests and examples, which are
  no part of the running system; the branch of \<^verbatim>\<open>createPartialAptosEscrow\<close> that the source disables with
  the literal \<^verbatim>\<open>false\<close>. \<^verbatim>\<open>backend/resolver/src/utils/dutchAuction.ts\<close> repeats the class of the order engine
  and \<^verbatim>\<open>fusion_plus_escrow_v2.move\<close> repeats \<^verbatim>\<open>fusion_plus_escrow_v3.move\<close>; one model stands for both.
\<close>

section \<open>A revealed secret across the chains\<close>

text \<open>
  The outside of the resolver while it settles a swap from Aptos to Ethereum: the transaction to the
  Move module is accepted or not, the call of the Ethereum contract returns or reverts, the other
  services answer. \<open>claimed\<close> is the hash \<^verbatim>\<open>ethers\<close> computes of the revealed bytes.
\<close>

definition settlement :: "bool \<Rightarrow> bool \<Rightarrow> string \<Rightarrow> outside" where
  "settlement moveOk evmOk claimed t c =
     (if ext_name c = ''aptos.transaction.submit.simple'' \<and> \<not> moveOk then Inl (Error ''Transaction failed'')
      else if ext_name c = ''contract.withdraw'' \<and> \<not> evmOk then Inl (Error ''execution reverted'')
      else if ext_name c = ''provider.getBalance'' \<or> ext_name c = ''contract.balanceOf'' then Inr (JBig 7)
      else if ext_name c = ''aptos.account.getAccountInfo'' then Inr (JObj [(''sequence_number'', JBig 4)])
      else if ext_name c = ''aptos.view'' then Inr (JArr [JBool True])
      else if ext_name c = ''ethers.keccak256'' then Inr (JStr claimed)
      else Inr (JObj [(''hash'', JStr ''0xt''), (''success'', JBool True)]))"

definition waiting :: "string \<Rightarrow> swap_order \<Rightarrow> jsval \<Rightarrow> jsval list \<Rightarrow> jsval \<Rightarrow> resolver_state \<Rightarrow> bool" where
  "waiting k order fill src dest s \<longleftrightarrow>
     map_get (pendingSecretReveals s) (JStr k) =
       Some \<lparr>pd_order = order, pd_fill = fill, sourceEscrowId = JArr src, destinationEscrowId = dest\<rparr> \<and>
     so_id order = JStr k \<and> so_fromChain order = JStr ''APTOS'' \<and> so_toChain order = JStr ''ETHEREUM'' \<and>
     \<not> truthy (so_gasless order) \<and> \<not> is_partial order"

definition pending_fill :: "jsval \<Rightarrow> string \<Rightarrow> jsval \<Rightarrow> jsval \<Rightarrow> jsval" where
  "pending_fill i k a h = JObj [(''id'', i), (''orderId'', JStr k), (''status'', JStr ''PENDING''), (''amount'', a), (''secretHash'', h)]"

definition reveal_message :: "string \<Rightarrow> jsval \<Rightarrow> string \<Rightarrow> jsval" where
  "reveal_message k secret claimed = JObj [(''orderId'', JStr k), (''secret'', secret), (''secretHash'', JStr claimed)]"

text \<open>The calls that settle: withdrawals, and the last status of the fill.\<close>

definition settles :: "ext \<Rightarrow> bool" where
  "settles c \<longleftrightarrow> is_withdrawal c \<or> is_patch ''COMPLETED'' c"

lemmas settle_eval = settlement_def settles_def is_withdrawal_def is_patch_def pending_fill_def seen_def

lemma settle_source:
  "so_fromChain order = JStr ''APTOS'' \<Longrightarrow>
   returns settles (settlement True b c) (withdraw_source self order secret (JArr src)) (JStr ''0xt'') [(''aptos.transaction.submit.simple'', True)]"
  unfolding returns_def by (simp add: escrow_id_bytes_def cs_checkAptosEscrowExists_def checkAptosEscrowExists_def settle_eval flow_eval)

lemma settle_after:
  "returns settles (settlement True b c) (after_source self (pending_fill i k a h) secret src tx) () []"
  unfolding returns_def by (simp add: settle_eval flow_eval)

lemma settle_dest:
  assumes "so_toChain order = JStr ''ETHEREUM''" "\<not> truthy (so_gasless order)"
  shows "returns settles (settlement True b c) (withdraw_dest self order fill secret src dest) () [(''contract.withdraw'', b)]"
proof -
  have "\<not> str_includes ''execution reverted'' ''insufficient funds for gas''" by code_simp
  with assms show ?thesis
    unfolding returns_def by (cases b) (simp_all del: str_includes.simps add: manual_withdrawal_def settle_eval flow_eval)
qed

lemma settle_status:
  "returns settles (settlement True b c) (set_status self (pending_fill i k a h) ''COMPLETED'' []) () [(''axios.patch'', True)]"
  "st \<noteq> ''COMPLETED'' \<Longrightarrow> returns settles (settlement True b c) (set_status self (pending_fill i k a h) st extra) () []"
  unfolding returns_def by (simp_all add: settle_eval flow_eval)

lemma settle_end:
  "\<not> is_partial order \<Longrightarrow> returns settles (settlement True b c) (announce_completion order (pending_fill i k a h)) () []"
  "\<not> is_partial order \<Longrightarrow> returns settles (settlement True b c) (clean_up order (pending_fill i k a h) dest) () []"
  unfolding returns_def by (simp_all add: settle_eval flow_eval)

lemma settle_swap:
  assumes "so_fromChain order = JStr ''APTOS''" "so_toChain order = JStr ''ETHEREUM''" "\<not> truthy (so_gasless order)" "\<not> is_partial order"
  shows "returns settles (settlement True b c) (completeSwap self order (pending_fill i k a h) secret (JArr src) dest) ()
    [(''aptos.transaction.submit.simple'', True), (''contract.withdraw'', b), (''axios.patch'', True)]"
proof -
  let ?R = "returns settles (settlement True b c)"
  have x: "?R (do_call ''ethers.hexlify'' v :: unit flow) () []" for v unfolding returns_def by (simp add: settle_eval flow_eval)
  have st: "?R (prop_p (pending_fill i k a h) ''status'' :: jsval flow) (JStr ''PENDING'') []" unfolding returns_def by (simp add: settle_eval flow_eval)
  have rest: "?R (swap_rest self order (pending_fill i k a h) secret (JArr src) dest tx) () [(''contract.withdraw'', b), (''axios.patch'', True)]" for tx
    unfolding swap_rest_def
    by (rule returns_quiet[OF settle_after], rule returns_bind[OF settle_dest[OF assms(2,3)], unfolded append.simps],
        rule returns_bind[OF settle_status(1), unfolded append.simps], intro returns_quiet[OF settle_end(1)[OF assms(4)]] settle_end(2) assms(4))
  have fresh: "is_settled (JStr ''PENDING'') = False" by (simp add: is_settled_def)
  have other: "''SOURCE_CREATED'' \<noteq> ''COMPLETED''" by simp
  show ?thesis unfolding completeSwap_def
    by (intro returns_quiet[OF x] returns_try returns_quiet[OF st])
       (unfold fresh if_False, intro returns_quiet[OF settle_status(2)[OF other]] returns_bind[OF settle_source[OF assms(1)] rest, unfolded append.simps])
qed

lemma world_upd: "w\<lparr>wtrace := t\<rparr> = \<lparr>wstate = wstate w, wtrace = t\<rparr>"
  by (cases w) simp

lemma settlement_run:
  assumes "waiting k order (pending_fill i k a h) src dest (wstate w)"
    "on_secret_reveal self (reveal_message k secret claimed) (settlement True b claimed) w = (r, w1)"
  shows "r = Inr () \<and> map_get (pendingSecretReveals (wstate w1)) (JStr k) = None \<and>
    (\<exists>new. wtrace w1 = wtrace w @ new \<and>
      seen settles new = [(''aptos.transaction.submit.simple'', True), (''contract.withdraw'', b), (''axios.patch'', True)])"
proof -
  let ?fill = "pending_fill i k a h" and ?orc = "settlement True b claimed"
  define bytes where "bytes = JObj [(''hash'', JStr ''0xt''), (''success'', JBool True)]"
  define pre :: trace where "pre = [(Ext ''ethers.getBytes'' [secret], Inr bytes), (Ext ''ethers.keccak256'' [bytes], Inr (JStr claimed))]"
  have p: "map_get (pend w) (JStr k) = Some \<lparr>pd_order = order, pd_fill = ?fill, sourceEscrowId = JArr src, destinationEscrowId = dest\<rparr>"
    and o: "so_fromChain order = JStr ''APTOS''" "so_toChain order = JStr ''ETHEREUM''" "\<not> truthy (so_gasless order)" "\<not> is_partial order"
    using assms(1) by (simp_all add: waiting_def)
  have run: "bind_p (completeSwap self order ?fill bytes (JArr src) dest) (\<lambda>_. forget_pending (JStr k)) ?orc
      \<lparr>wstate = wstate w, wtrace = wtrace w @ pre\<rparr> = (r, w1)"
    using assms(2) p by (simp add: on_secret_reveal_def reveal_full_def reveal_message_def bind_prop bind_get bind_call obj_get_def
        settlement_def strict_eq_def bytes_def pre_def world_upd)
  obtain u s1 where c: "completeSwap self order ?fill bytes (JArr src) dest ?orc \<lparr>wstate = wstate w, wtrace = wtrace w @ pre\<rparr> =
      (Inr (), \<lparr>wstate = s1, wtrace = (wtrace w @ pre) @ u\<rparr>)"
    "seen settles u = [(''aptos.transaction.submit.simple'', True), (''contract.withdraw'', b), (''axios.patch'', True)]"
    by (rule returnsD[OF settle_swap[OF o]])
  have "pendingSecretReveals s1 = pend w" using completeSwap_keeps_pending[OF c(1)] by simp
  moreover have "seen settles pre = []" by (simp add: pre_def settle_eval)
  ultimately show ?thesis using run c by (auto simp: bind_p_def forget_pending_def upd_st_def)
qed


definition waiting_world :: "resolver_state world" where
  "waiting_world = demo_world\<lparr>wstate := (wstate demo_world)\<lparr>pendingSecretReveals := [(JStr ''o'',
     \<lparr>pd_order = demo_swap\<lparr>so_fromChain := JStr ''APTOS'', so_toChain := JStr ''ETHEREUM''\<rparr>,
      pd_fill = pending_fill (JStr ''f'') ''o'' (JStr ''9'') (JStr ''0xh''), sourceEscrowId = JArr [JNum (Fin 9)],
      destinationEscrowId = JStr ''0xd''\<rparr>)]\<rparr>\<rparr>"


end
